(* ===== verification/Prelude.thy ===== *)
theory Prelude
  imports Complex_Main "HOL-Library.List_Lexorder" "HOL-Library.Char_ord"
    "HOL-Library.Product_Lexorder"
begin

text \<open>
  Shared vocabulary of the development: the errors the code raises, the
  state-and-error operations its services are written in (a Python method that
  reads and writes the database becomes a function of the database), the
  \<open>engine.begin()\<close> transaction, tables of rows as lists, and the rules by which
  an invariant or a monotonicity property of a composed operation follows from
  its parts.

  Conventions of all theories.  A string is a list of characters, each a code
  point below 256.  A point in time (\<open>AwareDatetime\<close>, \<open>time.time()\<close>) is an
  integer number of microseconds.  The message text of an exception is not
  modelled: an error carries the code and the HTTP status of the
  \<open>DomainError\<close>, or the Python class of the exception.
\<close>

section \<open>Errors\<close>

datatype error_code = INVALID | NOT_FOUND | CONFLICT | UNSUPPORTED | INTERNAL

datatype failure_kind = FkProviderFailure | FkRateLimit | FkTimeout | FkInvalidOutput
  | FkQualityValidation | FkCapabilityMismatch | FkContextOverflow | FkBudgetViolation
  | FkCancelled | FkCircuitOpen

datatype py_error =
    DomainError error_code nat
  | RoutedFailure failure_kind
  | ValueError
  | IntegrityError
  | NoResultFound
  | MultipleResultsFound
  | KeyError
  | AssertionError
  | StopIteration
  | TimeoutError
  | CancelledError
  | GeneratorExit

type_synonym 'a res = "py_error + 'a"

abbreviation ok :: "'a \<Rightarrow> 'a res" where
  "ok x \<equiv> Inr x"

abbreviation err :: "error_code \<Rightarrow> nat \<Rightarrow> 'a res" where
  "err c st \<equiv> Inl (DomainError c st)"

definition is_ok :: "'a res \<Rightarrow> bool" where
  "is_ok r = (case r of Inl _ \<Rightarrow> False | Inr _ \<Rightarrow> True)"

lemma is_ok_simps [simp]: "is_ok (Inr x)" "\<not> is_ok (Inl e)"
  by (simp_all add: is_ok_def)

lemma is_ok_iff: "is_ok r \<longleftrightarrow> (\<exists>x. r = Inr x)"
  by (cases r) auto

text \<open>Sequencing of pure fallible code: the first error stops the rest.\<close>

definition rbind :: "'a res \<Rightarrow> ('a \<Rightarrow> 'b res) \<Rightarrow> 'b res" where
  "rbind r f = (case r of Inl e \<Rightarrow> Inl e | Inr x \<Rightarrow> f x)"

definition check :: "bool \<Rightarrow> py_error \<Rightarrow> unit res" where
  "check b e = (if b then Inr () else Inl e)"

lemma rbind_simps [simp]: "rbind (Inl e) f = Inl e" "rbind (Inr x) f = f x"
  by (simp_all add: rbind_def)

lemma rbind_Inr_iff: "rbind r f = Inr y \<longleftrightarrow> (\<exists>x. r = Inr x \<and> f x = Inr y)"
  by (cases r) auto

lemma check_Inr_iff [simp]: "check b e = Inr u \<longleftrightarrow> b"
  by (simp add: check_def)

lemma check_Inl_iff [simp]: "check b e = Inl e' \<longleftrightarrow> \<not> b \<and> e' = e"
  by (auto simp: check_def)

lemma check_True [simp]: "check True e = Inr ()"
  by (simp add: check_def)

lemma check_False [simp]: "check False e = Inl e"
  by (simp add: check_def)

section \<open>Operations on a state that may raise\<close>

text \<open>
  Every method of a service returns or raises, and in both cases leaves a state
  behind: what earlier committed transactions wrote stays written when a later
  statement raises.  \<open>transact\<close> is \<open>with engine.begin()\<close>: an exception inside it
  rolls the state back.
\<close>

type_synonym ('s, 'a) op = "'s \<Rightarrow> 'a res \<times> 's"

definition ret :: "'a \<Rightarrow> ('s, 'a) op" where
  "ret x s = (Inr x, s)"

definition throw :: "py_error \<Rightarrow> ('s, 'a) op" where
  "throw e s = (Inl e, s)"

definition bindM :: "('s, 'a) op \<Rightarrow> ('a \<Rightarrow> ('s, 'b) op) \<Rightarrow> ('s, 'b) op" where
  "bindM m f s = (case m s of (Inl e, s') \<Rightarrow> (Inl e, s') | (Inr x, s') \<Rightarrow> f x s')"

definition thenM :: "('s, 'a) op \<Rightarrow> ('s, 'b) op \<Rightarrow> ('s, 'b) op" where
  "thenM m k = bindM m (\<lambda>_. k)"

definition guardM :: "bool \<Rightarrow> py_error \<Rightarrow> ('s, unit) op" where
  "guardM b e = (if b then ret () else throw e)"

definition getsM :: "('s \<Rightarrow> 'a) \<Rightarrow> ('s, 'a) op" where
  "getsM f s = (Inr (f s), s)"

definition modifyM :: "('s \<Rightarrow> 's) \<Rightarrow> ('s, unit) op" where
  "modifyM f s = (Inr (), f s)"

definition liftM :: "'a res \<Rightarrow> ('s, 'a) op" where
  "liftM r s = (r, s)"

definition transact :: "('s, 'a) op \<Rightarrow> ('s, 'a) op" where
  "transact m s = (case m s of (Inl e, _) \<Rightarrow> (Inl e, s) | (Inr x, s') \<Rightarrow> (Inr x, s'))"

definition catchM :: "('s, 'a) op \<Rightarrow> (py_error \<Rightarrow> ('s, 'a) op) \<Rightarrow> ('s, 'a) op" where
  "catchM m h s = (case m s of (Inl e, s') \<Rightarrow> h e s' | (Inr x, s') \<Rightarrow> (Inr x, s'))"

fun forM :: "'a list \<Rightarrow> ('a \<Rightarrow> ('s, unit) op) \<Rightarrow> ('s, unit) op" where
  "forM [] f = ret ()"
| "forM (x # xs) f = thenM (f x) (forM xs f)"

fun mapM :: "('a \<Rightarrow> ('s, 'b) op) \<Rightarrow> 'a list \<Rightarrow> ('s, 'b list) op" where
  "mapM f [] = ret []"
| "mapM f (x # xs) = bindM (f x) (\<lambda>y. bindM (mapM f xs) (\<lambda>ys. ret (y # ys)))"

lemmas op_defs = ret_def throw_def bindM_def thenM_def guardM_def getsM_def modifyM_def
  liftM_def transact_def catchM_def

named_theorems op_run \<open>what an operation does when run on a state\<close>

lemma ret_run [simp]: "ret x s = (Inr x, s)"
  and throw_run [simp]: "throw e s = (Inl e, s)"
  and getsM_run [simp]: "getsM f s = (Inr (f s), s)"
  and modifyM_run [simp]: "modifyM g s = (Inr (), g s)"
  and liftM_run [simp]: "liftM r s = (r, s)"
  by (simp_all add: op_defs)

lemma guardM_run: "guardM b e s = (if b then (Inr (), s) else (Inl e, s))"
  by (simp add: op_defs)

lemma guardM_simps [simp]: "guardM True e = ret ()" "guardM False e = throw e"
  by (simp_all add: guardM_def)

lemma bindM_run:
  "bindM m f s = (case m s of (Inl e, s') \<Rightarrow> (Inl e, s') | (Inr x, s') \<Rightarrow> f x s')"
  by (simp add: bindM_def)

lemma thenM_run:
  "thenM m k s = (case m s of (Inl e, s') \<Rightarrow> (Inl e, s') | (Inr x, s') \<Rightarrow> k s')"
  by (simp add: thenM_def bindM_def)

lemma bindM_simps [simp]:
  "bindM (ret x) f = f x" "bindM (throw e) f = throw e"
  "thenM (ret x) k = k" "thenM (throw e) k = throw e"
  by (rule ext, simp add: op_defs)+

lemma bindM_ok_iff:
  "bindM m f s = (Inr y, t) \<longleftrightarrow> (\<exists>x s'. m s = (Inr x, s') \<and> f x s' = (Inr y, t))"
  by (auto simp: bindM_def split: prod.splits sum.splits)

lemma thenM_ok_iff:
  "thenM m k s = (Inr y, t) \<longleftrightarrow> (\<exists>x s'. m s = (Inr x, s') \<and> k s' = (Inr y, t))"
  by (simp add: thenM_def bindM_ok_iff)

lemma guardM_ok_iff [simp]: "guardM b e s = (Inr u, t) \<longleftrightarrow> b \<and> t = s"
  by (auto simp: guardM_run)

lemma guardM_err_iff [simp]: "guardM b e s = (Inl e', t) \<longleftrightarrow> \<not> b \<and> e' = e \<and> t = s"
  by (auto simp: guardM_run)

lemma guard_then: "thenM (guardM b e) k s = (if b then k s else (Inl e, s))"
  by simp

lemma transact_ok_iff [simp]: "transact m s = (Inr x, t) \<longleftrightarrow> m s = (Inr x, t)"
  by (auto simp: transact_def split: prod.splits sum.splits)

lemma transact_err: "transact m s = (Inl e, t) \<Longrightarrow> t = s"
  by (auto simp: transact_def split: prod.splits sum.splits)

section \<open>What an operation does to the state, composed from its parts\<close>

text \<open>
  \<open>relates R m\<close>: whatever \<open>m\<close> does, returning or raising, the state before and
  the state after are related by \<open>R\<close>.  For a reflexive and transitive \<open>R\<close>
  (an invariant kept, a table that only grows, a counter that never decreases)
  the property composes, which the locale proves once for every such \<open>R\<close>.
\<close>

definition relates :: "('s \<Rightarrow> 's \<Rightarrow> bool) \<Rightarrow> ('s, 'a) op \<Rightarrow> bool" where
  "relates R m \<longleftrightarrow> (\<forall>s. R s (snd (m s)))"

definition preserves :: "('s \<Rightarrow> bool) \<Rightarrow> ('s, 'a) op \<Rightarrow> bool" where
  "preserves P m \<longleftrightarrow> relates (\<lambda>s t. P s \<longrightarrow> P t) m"

lemma relatesI: "(\<And>s. R s (snd (m s))) \<Longrightarrow> relates R m"
  by (simp add: relates_def)

lemma relatesD: "relates R m \<Longrightarrow> m s = (r, t) \<Longrightarrow> R s t"
  by (metis relates_def snd_conv)

lemma rel_snd: "relates R m \<Longrightarrow> R s (snd (m s))"
  by (simp add: relates_def)

lemma preservesI: "(\<And>s. P s \<Longrightarrow> P (snd (m s))) \<Longrightarrow> preserves P m"
  by (simp add: preserves_def relates_def)

lemma preservesD: "preserves P m \<Longrightarrow> P s \<Longrightarrow> P (snd (m s))"
  by (simp add: preserves_def relates_def)

named_theorems effect \<open>composition rules for \<open>relates\<close>\<close>

locale effect_order =
  fixes R :: "'s \<Rightarrow> 's \<Rightarrow> bool"
  assumes R_refl: "R s s"
    and R_trans: "R s t \<Longrightarrow> R t u \<Longrightarrow> R s u"
begin

lemma rel_ret: "relates R (ret x)"
  and rel_throw: "relates R (throw e)"
  and rel_gets: "relates R (getsM f)"
  and rel_lift: "relates R (liftM r)"
  and rel_guard: "relates R (guardM b e)"
  by (simp_all add: relates_def R_refl guardM_run)

lemma rel_modify: "(\<And>s. R s (f s)) \<Longrightarrow> relates R (modifyM f)"
  by (simp add: relates_def)

lemma rel_bind:
  assumes "relates R m" and "\<And>x. relates R (f x)"
  shows "relates R (bindM m f)"
  using assms unfolding relates_def bindM_def
  by (smt (verit) R_trans prod.case_eq_if snd_conv sum.case_eq_if)

lemma rel_then: "relates R m \<Longrightarrow> relates R k \<Longrightarrow> relates R (thenM m k)"
  by (simp add: thenM_def rel_bind)

lemma rel_transact: "relates R m \<Longrightarrow> relates R (transact m)"
  unfolding relates_def transact_def
  by (metis (mono_tags, lifting) R_refl prod.case_eq_if snd_conv sum.case_eq_if)

lemma rel_catch:
  assumes "relates R m" and "\<And>e. relates R (h e)"
  shows "relates R (catchM m h)"
  using assms unfolding relates_def catchM_def
  by (smt (verit) R_trans prod.case_eq_if snd_conv sum.case_eq_if)

lemma rel_if: "relates R m \<Longrightarrow> relates R k \<Longrightarrow> relates R (if b then m else k)"
  by simp

lemma rel_option:
  "relates R n \<Longrightarrow> (\<And>x. relates R (f x)) \<Longrightarrow>
   relates R (case v of None \<Rightarrow> n | Some x \<Rightarrow> f x)"
  by (cases v) simp_all

lemma rel_sum:
  "(\<And>x. relates R (f x)) \<Longrightarrow> (\<And>x. relates R (g x)) \<Longrightarrow>
   relates R (case v of Inl x \<Rightarrow> f x | Inr x \<Rightarrow> g x)"
  by (cases v) simp_all

lemma rel_prod: "(\<And>x y. relates R (f x y)) \<Longrightarrow> relates R (case v of (x, y) \<Rightarrow> f x y)"
  by (cases v) simp

lemma rel_for: "(\<And>x. x \<in> set xs \<Longrightarrow> relates R (f x)) \<Longrightarrow> relates R (forM xs f)"
  by (induction xs) (auto intro: rel_ret rel_then)

lemma rel_mapM: "(\<And>x. x \<in> set xs \<Longrightarrow> relates R (f x)) \<Longrightarrow> relates R (mapM f xs)"
  by (induction xs) (auto intro!: rel_ret rel_bind)

lemmas rel_rules = rel_ret rel_throw rel_gets rel_lift rel_guard rel_bind rel_then
  rel_transact rel_catch rel_if rel_option rel_sum rel_prod rel_for rel_mapM

end

interpretation inv: effect_order "\<lambda>s t. P s \<longrightarrow> P t" for P :: "'s \<Rightarrow> bool"
  by unfold_locales auto

lemmas pres_rules = inv.rel_rules [folded preserves_def]

lemma pres_modify: "(\<And>s. P s \<Longrightarrow> P (f s)) \<Longrightarrow> preserves P (modifyM f)"
  by (simp add: preserves_def relates_def)

text \<open>An operation that only reads.\<close>

definition reads :: "('s, 'a) op \<Rightarrow> bool" where
  "reads m \<longleftrightarrow> relates (=) m"

interpretation rd: effect_order "(=)"
  by unfold_locales auto

lemmas reads_rules = rd.rel_rules [folded reads_def]

lemma readsD: "reads m \<Longrightarrow> snd (m s) = s"
  by (simp add: reads_def relates_def)

lemma reads_run: "reads m \<Longrightarrow> m s = (r, t) \<Longrightarrow> t = s"
  by (auto simp: reads_def dest: relatesD)

end
