(* ===== verification/Contracts.thy ===== *)
theory Contracts
  imports Prelude
begin

text \<open>
  The canonical planning contracts of \<open>contracts.py\<close>: identifiers, provenance
  and facts, workflow nodes and the workflow graph, catalog snapshots, and the
  records the selector exchanges.  A pydantic model is a record; its field
  constraints and its \<open>model_validator\<close> form a predicate \<open>valid_...\<close> which is
  True exactly when construction does not raise.  Fields whose \<open>Literal\<close> type has
  a single value carry no information and are omitted.  A \<open>float\<close> field that
  excludes infinities and NaN is the rational number the double denotes, and
  a JSON number keeps the two non-finite cases apart.  A dict is an association
  list in insertion order with distinct keys.
\<close>

section \<open>Identifiers, JSON values\<close>

definition is_alnum :: "char \<Rightarrow> bool" where
  "is_alnum c = (let n = (of_char c :: nat) in
     (48 \<le> n \<and> n \<le> 57) \<or> (65 \<le> n \<and> n \<le> 90) \<or> (97 \<le> n \<and> n \<le> 122))"

definition is_word_char :: "char \<Rightarrow> bool" where
  "is_word_char c = (is_alnum c \<or> c = CHR ''_'' \<or> c = CHR ''-'')"

definition is_identifier :: "string \<Rightarrow> bool" where
  "is_identifier s = (case s of [] \<Rightarrow> False
     | c # cs \<Rightarrow> is_alnum c \<and> list_all is_word_char cs \<and> length cs \<le> 79)"

datatype pyfloat = Finite rat | PosInf | NegInf | NaN

datatype json =
    JNull
  | JBool bool
  | JInt int
  | JFloat pyfloat
  | JStr string
  | JArr "json list"
  | JObj "(string \<times> json) list"

type_synonym 'a dict = "(string \<times> 'a) list"

abbreviation dict_keys :: "'a dict \<Rightarrow> string list" where
  "dict_keys d \<equiv> map fst d"

definition is_dict :: "'a dict \<Rightarrow> bool" where
  "is_dict d = distinct (dict_keys d)"

section \<open>Provenance and facts\<close>

datatype prov_kind = PUserDeclared | PSynthetic | PDocumented | PObserved | PInference

record provenance =
  prov_kind :: prov_kind
  prov_source :: string
  prov_evidence_ids :: "string list"

definition valid_provenance :: "provenance \<Rightarrow> bool" where
  "valid_provenance p = (1 \<le> length (prov_source p) \<and> length (prov_source p) \<le> 500
     \<and> list_all is_identifier (prov_evidence_ids p))"

record 'a fact =
  fact_value :: "'a option"
  fact_prov :: provenance
  fact_unknown_reason :: "string option"

definition unknown_is_explicit :: "'a fact \<Rightarrow> bool" where
  "unknown_is_explicit f =
     (if fact_value f = None \<and> (fact_unknown_reason f = None \<or> fact_unknown_reason f = Some [])
      then False
      else \<not> (fact_value f \<noteq> None \<and> fact_unknown_reason f \<noteq> None))"

definition valid_fact :: "'a fact \<Rightarrow> bool" where
  "valid_fact f = (valid_provenance (fact_prov f) \<and> unknown_is_explicit f)"

section \<open>Workflows\<close>

record workflow_tool =
  tool_id :: string
  tool_description :: string

record constraints =
  con_max_cost_per_1k_tokens :: "rat option"
  con_max_latency_ms :: "rat option"
  con_required_region :: "string option"
  con_prov :: provenance

definition valid_constraints :: "constraints \<Rightarrow> bool" where
  "valid_constraints c = (valid_provenance (con_prov c)
     \<and> (case con_max_cost_per_1k_tokens c of None \<Rightarrow> True | Some x \<Rightarrow> 0 \<le> x)
     \<and> (case con_max_latency_ms c of None \<Rightarrow> True | Some x \<Rightarrow> 0 \<le> x))"

record binding =
  bind_source :: string
  bind_output :: string
  bind_from_input :: bool

datatype node_kind = KLlm | KTool | KCode | KHumanApproval | KBoundedAgent

record node =
  nd_id :: string
  nd_kind :: node_kind
  nd_purpose :: string
  nd_depends_on :: "string list"
  nd_inputs :: "binding dict"
  nd_outputs :: "string list"
  nd_tool_id :: "string option"
  nd_allowed_tools :: "string list"
  nd_max_iterations :: "int option"
  nd_max_model_calls :: "int option"

definition opt_in_range :: "int \<Rightarrow> int \<Rightarrow> int option \<Rightarrow> bool" where
  "opt_in_range lo hi v = (case v of None \<Rightarrow> True | Some x \<Rightarrow> lo \<le> x \<and> x \<le> hi)"

definition opt_identifier :: "string option \<Rightarrow> bool" where
  "opt_identifier v = (case v of None \<Rightarrow> True | Some s \<Rightarrow> is_identifier s)"

definition valid_binding :: "binding \<Rightarrow> bool" where
  "valid_binding b = (is_identifier (bind_source b) \<and> is_identifier (bind_output b))"

definition node_fields :: "node \<Rightarrow> bool" where
  "node_fields n = (is_identifier (nd_id n) \<and> list_all is_identifier (nd_depends_on n)
     \<and> is_dict (nd_inputs n) \<and> list_all (valid_binding \<circ> snd) (nd_inputs n)
     \<and> list_all is_identifier (nd_outputs n) \<and> opt_identifier (nd_tool_id n)
     \<and> list_all is_identifier (nd_allowed_tools n)
     \<and> opt_in_range 1 10 (nd_max_iterations n) \<and> opt_in_range 1 20 (nd_max_model_calls n))"

definition node_shape :: "node \<Rightarrow> bool" where
  "node_shape n =
     (if nd_outputs n = [] \<or> \<not> distinct (nd_outputs n) then False
      else if \<not> distinct (nd_depends_on n) then False
      else if (nd_kind n = KTool) \<noteq> (nd_tool_id n \<noteq> None) then False
      else if nd_kind n = KBoundedAgent
           then nd_max_iterations n \<noteq> None \<and> nd_max_model_calls n \<noteq> None
      else \<not> (nd_max_iterations n \<noteq> None \<or> nd_max_model_calls n \<noteq> None
              \<or> nd_allowed_tools n \<noteq> []))"

definition valid_node :: "node \<Rightarrow> bool" where
  "valid_node n = (node_fields n \<and> node_shape n)"

datatype modality = MText | MImage
datatype deployment_req = DAny | DSelfHosted | DApi

record target_requirements =
  req_input_modality :: modality
  req_deployment :: deployment_req
  req_structured_output :: bool
  req_tool_calling :: bool

record workflow =
  wf_id :: string
  wf_version :: int
  wf_title :: string
  wf_inputs :: "string list"
  wf_nodes :: "node list"
  wf_tools :: "workflow_tool list"
  wf_requirements :: target_requirements
  wf_constraints :: constraints
  wf_prov :: provenance

text \<open>The \<open>by_id\<close> dictionary; a later node would overwrite an earlier one.\<close>

definition node_by_id :: "node list \<Rightarrow> string \<Rightarrow> node option" where
  "node_by_id ns i = List.find (\<lambda>n. nd_id n = i) (rev ns)"

subsection \<open>The depth-first search for cycles\<close>

text \<open>The nodes a search has not entered yet decrease with every recursive call.\<close>

definition unvisited :: "(string \<times> string list) list \<Rightarrow> string list \<Rightarrow> nat" where
  "unvisited deps visiting = card (set (map fst deps) - set visiting)"

lemma unvisited_decreases:
  "i \<notin> set visiting \<Longrightarrow> map_of deps i = Some ps \<Longrightarrow>
   unvisited deps (i # visiting) < unvisited deps visiting"
proof -
  assume "i \<notin> set visiting" and "map_of deps i = Some ps"
  then have "i \<in> set (map fst deps) - set visiting"
    by (force dest: map_of_SomeD)
  then have "set (map fst deps) - set (i # visiting) \<subset> set (map fst deps) - set visiting"
    by auto
  then show ?thesis
    unfolding unvisited_def by (rule psubset_card_mono [rotated]) simp
qed

text \<open>
  \<open>deps\<close> is \<open>lambda i: by_id[i].depends_on\<close> as an association list.  The result
  is the grown \<open>visited\<close> set, or the error the search raises.
\<close>

function (sequential) visit :: "(string \<times> string list) list \<Rightarrow> string list \<Rightarrow> string list
    \<Rightarrow> string \<Rightarrow> string list res"
  and visit_all :: "(string \<times> string list) list \<Rightarrow> string list \<Rightarrow> string list
    \<Rightarrow> string list \<Rightarrow> string list res" where
  "visit deps visiting visited i =
     (if i \<in> set visiting then Inl ValueError
      else if i \<in> set visited then Inr visited
      else (case map_of deps i of
              None \<Rightarrow> Inl KeyError
            | Some ps \<Rightarrow>
                (case visit_all deps (i # visiting) visited ps of
                   Inl e \<Rightarrow> Inl e
                 | Inr visited' \<Rightarrow> Inr (i # visited'))))"
| "visit_all deps visiting visited [] = Inr visited"
| "visit_all deps visiting visited (i # is) =
     (case visit deps visiting visited i of
        Inl e \<Rightarrow> Inl e
      | Inr visited' \<Rightarrow> visit_all deps visiting visited' is)"
  by pat_completeness auto

termination
  by (relation "measures [\<lambda>x. case x of Inl (d, vg, _, _) \<Rightarrow> unvisited d vg
                                  | Inr (d, vg, _, _) \<Rightarrow> unvisited d vg,
                         \<lambda>x. case x of Inl _ \<Rightarrow> 0 | Inr (_, _, _, is) \<Rightarrow> Suc (length is)]")
    (auto simp: unvisited_decreases)

declare visit.simps [simp del]

definition dep_list :: "node list \<Rightarrow> (string \<times> string list) list" where
  "dep_list ns = map (\<lambda>n. (nd_id n, nd_depends_on n)) ns"

text \<open>The bindings and tool references of one node of the workflow.\<close>

definition binding_ok :: "workflow \<Rightarrow> node \<Rightarrow> binding \<Rightarrow> bool" where
  "binding_ok w n b =
     (if bind_from_input b
      then bind_source b \<in> set (wf_inputs w) \<and> bind_output b = ''value''
      else bind_source b \<in> set (nd_depends_on n)
           \<and> (case node_by_id (wf_nodes w) (bind_source b) of None \<Rightarrow> False
              | Some p \<Rightarrow> bind_output b \<in> set (nd_outputs p)))"

definition node_in_graph :: "workflow \<Rightarrow> node \<Rightarrow> bool" where
  "node_in_graph w n =
     (let ids = map nd_id (wf_nodes w); tools = map tool_id (wf_tools w) in
        set (nd_depends_on n) \<subseteq> set ids \<and> nd_id n \<notin> set (nd_depends_on n)
      \<and> (case nd_tool_id n of None \<Rightarrow> True | Some t \<Rightarrow> t \<in> set tools)
      \<and> set (nd_allowed_tools n) \<subseteq> set tools
      \<and> list_all (binding_ok w n \<circ> snd) (nd_inputs n))"

definition workflow_graph :: "workflow \<Rightarrow> bool" where
  "workflow_graph w =
     (let ids = map nd_id (wf_nodes w) in
        distinct ids \<and> distinct (map tool_id (wf_tools w))
      \<and> distinct (wf_inputs w)
      \<and> list_all (node_in_graph w) (wf_nodes w)
      \<and> is_ok (visit_all (dep_list (wf_nodes w)) [] [] ids))"

definition valid_workflow :: "workflow \<Rightarrow> bool" where
  "valid_workflow w = (is_identifier (wf_id w) \<and> 1 \<le> wf_version w
     \<and> list_all is_identifier (wf_inputs w)
     \<and> 1 \<le> length (wf_nodes w) \<and> length (wf_nodes w) \<le> 30
     \<and> list_all valid_node (wf_nodes w)
     \<and> list_all (is_identifier \<circ> tool_id) (wf_tools w)
     \<and> valid_constraints (wf_constraints w) \<and> valid_provenance (wf_prov w)
     \<and> workflow_graph w)"

end
