(* ===== verification/Workflow_Graph.thy ===== *)
theory Workflow_Graph
  imports Contracts
begin

text \<open>
  What \<open>Workflow.graph\<close> accepts.  The depth-first search of \<open>contracts.py\<close> is
  related to the dependency relation itself: a search that ends normally lists
  the nodes so that each comes before everything it depends on, hence there is no
  cycle; a search that raises has found one.
\<close>

definition dep_edges :: "(string \<times> string list) list \<Rightarrow> (string \<times> string) set" where
  "dep_edges deps = {(i, j). \<exists>ps. map_of deps i = Some ps \<and> j \<in> set ps}"

fun topo :: "(string \<times> string list) list \<Rightarrow> string list \<Rightarrow> bool" where
  "topo deps [] = True"
| "topo deps (i # vs) = (topo deps vs \<and> i \<notin> set vs
     \<and> (case map_of deps i of None \<Rightarrow> False | Some ps \<Rightarrow> set ps \<subseteq> set vs))"

section \<open>A search that returns has ordered the graph\<close>

lemma visit_topo:
  "visit deps vg vd i = Inr vd' \<Longrightarrow> topo deps vd \<Longrightarrow> set vg \<inter> set vd = {} \<Longrightarrow>
   topo deps vd' \<and> set vg \<inter> set vd' = {} \<and> set vd \<subseteq> set vd' \<and> i \<in> set vd'"
  "visit_all deps vg vd is = Inr vd' \<Longrightarrow> topo deps vd \<Longrightarrow> set vg \<inter> set vd = {} \<Longrightarrow>
   topo deps vd' \<and> set vg \<inter> set vd' = {} \<and> set vd \<subseteq> set vd' \<and> set is \<subseteq> set vd'"
proof (induction deps vg vd i and deps vg vd "is" arbitrary: vd' and vd'
    rule: visit_visit_all.induct)
  case (1 deps vg vd i)
  show ?case
  proof (cases "i \<in> set vg \<or> i \<in> set vd")
    case True
    with "1.prems" show ?thesis by (auto simp: visit.simps [of deps vg vd i] split: if_splits)
  next
    case False
    then obtain ps vs where ps: "map_of deps i = Some ps"
      and vs: "visit_all deps (i # vg) vd ps = Inr vs" and vd': "vd' = i # vs"
      using "1.prems"(1)
      by (auto simp: visit.simps [of deps vg vd i] split: option.splits sum.splits)
    have "topo deps vs \<and> set (i # vg) \<inter> set vs = {} \<and> set vd \<subseteq> set vs \<and> set ps \<subseteq> set vs"
      using "1.IH" False ps vs "1.prems"(2,3) by auto
    then show ?thesis using ps vd' False by auto
  qed
next
  case (2 deps vg vd)
  then show ?case by simp
next
  case (3 deps vg vd i "is")
  then obtain vm where vm: "visit deps vg vd i = Inr vm"
    and rest: "visit_all deps vg vm is = Inr vd'"
    by (auto split: sum.splits)
  have m: "topo deps vm \<and> set vg \<inter> set vm = {} \<and> set vd \<subseteq> set vm \<and> i \<in> set vm"
    using "3.IH"(1) vm "3.prems"(2,3) by blast
  then have "topo deps vd' \<and> set vg \<inter> set vd' = {} \<and> set vm \<subseteq> set vd' \<and> set is \<subseteq> set vd'"
    using "3.IH"(2) vm rest by blast
  with m show ?case by auto
qed

definition depth_in :: "string list \<Rightarrow> string \<Rightarrow> nat" where
  "depth_in vs i = length (dropWhile (\<lambda>x. x \<noteq> i) vs)"

lemma depth_in_le: "depth_in vs i \<le> length vs"
  unfolding depth_in_def by (simp add: length_dropWhile_le)

lemma topo_depth:
  "topo deps vs \<Longrightarrow> i \<in> set vs \<Longrightarrow> map_of deps i = Some ps \<Longrightarrow> j \<in> set ps \<Longrightarrow>
   j \<in> set vs \<and> depth_in vs j < depth_in vs i"
proof (induction vs)
  case Nil
  then show ?case by simp
next
  case (Cons v vs)
  show ?case
  proof (cases "i = v")
    case True
    with Cons.prems have "j \<in> set vs" and "j \<noteq> v" by auto
    then show ?thesis using True depth_in_le [of vs j] by (simp add: depth_in_def)
  next
    case False
    with Cons have "j \<in> set vs \<and> depth_in vs j < depth_in vs i" by auto
    moreover from this Cons.prems have "j \<noteq> v" by auto
    ultimately show ?thesis using False by (simp add: depth_in_def)
  qed
qed

lemma topo_acyclic:
  assumes "topo deps vs" and "\<And>i. i \<in> set (map fst deps) \<Longrightarrow> i \<in> set vs"
  shows "acyclic (dep_edges deps)"
proof -
  have "(dep_edges deps)\<inverse> \<subseteq> measure (depth_in vs)"
    using topo_depth [OF assms(1)] assms(2)
    by (force simp: dep_edges_def dest: map_of_SomeD)
  then have "acyclic ((dep_edges deps)\<inverse>)"
    by (meson acyclic_subset wf_acyclic wf_measure)
  then show ?thesis by simp
qed

section \<open>A search that raises has found a cycle\<close>

fun path_back :: "(string \<times> string list) list \<Rightarrow> string list \<Rightarrow> bool" where
  "path_back deps (i # j # vs) = ((j, i) \<in> dep_edges deps \<and> path_back deps (j # vs))"
| "path_back deps _ = True"

lemma path_back_reach:
  "path_back deps (h # vs) \<Longrightarrow> i \<in> set (h # vs) \<Longrightarrow> (i, h) \<in> (dep_edges deps)\<^sup>*"
proof (induction vs arbitrary: h)
  case Nil
  then show ?case by simp
next
  case (Cons v vs)
  show ?case
  proof (cases "i = h")
    case True
    then show ?thesis by simp
  next
    case False
    with Cons have "(i, v) \<in> (dep_edges deps)\<^sup>*" by auto
    with Cons.prems(1) show ?thesis by auto
  qed
qed

definition deps_closed :: "(string \<times> string list) list \<Rightarrow> bool" where
  "deps_closed deps = (\<forall>(i, ps) \<in> set deps. set ps \<subseteq> set (map fst deps))"

lemma deps_closedD:
  "deps_closed deps \<Longrightarrow> map_of deps i = Some ps \<Longrightarrow> p \<in> set ps \<Longrightarrow> p \<in> set (map fst deps)"
  by (force simp: deps_closed_def dest: map_of_SomeD)

lemma visit_error_cycle:
  "visit deps vg vd i = Inl e \<Longrightarrow> deps_closed deps \<Longrightarrow> i \<in> set (map fst deps) \<Longrightarrow>
   path_back deps (i # vg) \<Longrightarrow> \<not> acyclic (dep_edges deps)"
  "visit_all deps vg vd is = Inl e \<Longrightarrow> deps_closed deps \<Longrightarrow>
   set is \<subseteq> set (map fst deps) \<Longrightarrow> (\<And>i. i \<in> set is \<Longrightarrow> path_back deps (i # vg)) \<Longrightarrow>
   \<not> acyclic (dep_edges deps)"
proof (induction deps vg vd i and deps vg vd "is" rule: visit_visit_all.induct)
  case (1 deps vg vd i)
  show ?case
  proof (cases "i \<in> set vg")
    case True
    then obtain h hs where vg: "vg = h # hs" by (cases vg) auto
    with "1.prems"(4) have "(h, i) \<in> dep_edges deps" and "path_back deps (h # hs)" by auto
    with True vg have "(i, i) \<in> (dep_edges deps)\<^sup>+"
      using path_back_reach by (meson rtrancl_into_trancl1)
    then show ?thesis by (auto simp: acyclic_def)
  next
    case False
    with "1.prems"(1) have new: "i \<notin> set vd" by (auto simp: visit.simps)
    from "1.prems"(3) obtain ps where ps: "map_of deps i = Some ps"
      by (metis map_of_eq_None_iff not_None_eq set_map)
    with False new "1.prems"(1) have "visit_all deps (i # vg) vd ps = Inl e"
      by (auto simp: visit.simps split: sum.splits)
    moreover have "set ps \<subseteq> set (map fst deps)"
      using deps_closedD [OF "1.prems"(2) ps] by blast
    moreover have "path_back deps (p # i # vg)" if "p \<in> set ps" for p
      using that ps "1.prems"(4) by (auto simp: dep_edges_def)
    ultimately show ?thesis using "1.IH" False new ps "1.prems"(2) by blast
  qed
next
  case (2 deps vg vd)
  then show ?case by simp
next
  case (3 deps vg vd i "is")
  then show ?case by (auto split: sum.splits)
qed

section \<open>The search decides acyclicity\<close>

lemma search_decides:
  assumes "deps_closed deps"
  shows "is_ok (visit_all deps [] [] (map fst deps)) \<longleftrightarrow> acyclic (dep_edges deps)"
proof (cases "visit_all deps [] [] (map fst deps)")
  case (Inl e)
  then show ?thesis using visit_error_cycle(2) [of deps "[]" "[]" "map fst deps" e] assms by auto
next
  case (Inr vd)
  then have "topo deps vd \<and> set (map fst deps) \<subseteq> set vd"
    using visit_topo(2) [of deps "[]" "[]" "map fst deps" vd] by simp
  then show ?thesis using topo_acyclic [of deps vd] Inr by auto
qed

lemma map_fst_dep_list [simp]: "map fst (dep_list ns) = map nd_id ns"
  by (simp add: dep_list_def comp_def)

text \<open>The dependency relation of a workflow, stated on its nodes.\<close>

definition depends :: "workflow \<Rightarrow> (string \<times> string) set" where
  "depends w = {(nd_id n, j) | n j. n \<in> set (wf_nodes w) \<and> j \<in> set (nd_depends_on n)}"

lemma dep_edges_depends:
  assumes "distinct (map nd_id (wf_nodes w))"
  shows "dep_edges (dep_list (wf_nodes w)) = depends w"
proof -
  have "map_of (dep_list (wf_nodes w)) i = Some ps \<longleftrightarrow>
        (\<exists>n \<in> set (wf_nodes w). nd_id n = i \<and> nd_depends_on n = ps)" for i ps
    using assms by (subst map_of_eq_Some_iff) (auto simp: dep_list_def comp_def)
  then show ?thesis by (auto simp: dep_edges_def depends_def)
qed

lemma find_Some_distinct:
  "distinct (map f xs) \<Longrightarrow> x \<in> set xs \<Longrightarrow> List.find (\<lambda>y. f y = f x) xs = Some x"
  by (induction xs) auto

lemma node_by_id_unique:
  assumes "distinct (map nd_id ns)" and "n \<in> set ns"
  shows "node_by_id ns (nd_id n) = Some n"
  unfolding node_by_id_def
  using assms find_Some_distinct [of nd_id "rev ns" n] by (simp add: rev_map [symmetric])

lemma node_by_id_in: "node_by_id ns i = Some n \<Longrightarrow> n \<in> set ns \<and> nd_id n = i"
proof -
  assume "node_by_id ns i = Some n"
  then have "find (\<lambda>n. nd_id n = i) (rev ns) = Some n" by (simp add: node_by_id_def)
  then obtain k where "k < length (rev ns)" "nd_id (rev ns ! k) = i" "n = rev ns ! k"
    by (auto simp: find_Some_iff)
  then show ?thesis by (metis nth_mem set_rev)
qed

lemma graph_search:
  assumes "distinct (map nd_id (wf_nodes w))" and "list_all (node_in_graph w) (wf_nodes w)"
  shows "is_ok (visit_all (dep_list (wf_nodes w)) [] [] (map nd_id (wf_nodes w)))
         \<longleftrightarrow> acyclic (depends w)"
proof -
  have "deps_closed (dep_list (wf_nodes w))"
    using assms(2) unfolding deps_closed_def map_fst_dep_list
    by (auto simp: dep_list_def node_in_graph_def Let_def list_all_iff)
  from search_decides [OF this] show ?thesis
    by (simp only: map_fst_dep_list dep_edges_depends [OF assms(1)])
qed

text \<open>
  C32. \<open>Workflow.graph\<close> accepts a workflow exactly when node and tool identifiers
  are unique, input names are unique, every node's references resolve, and the
  dependency relation between nodes has no cycle.
\<close>

theorem workflow_graph_iff_acyclic:
  "workflow_graph w \<longleftrightarrow>
     distinct (map nd_id (wf_nodes w)) \<and> distinct (map tool_id (wf_tools w))
     \<and> distinct (wf_inputs w) \<and> list_all (node_in_graph w) (wf_nodes w)
     \<and> acyclic (depends w)"
  using graph_search [of w] by (auto simp: workflow_graph_def Let_def)

section \<open>Facts about an accepted workflow\<close>

lemma workflow_graphD:
  assumes "workflow_graph w"
  shows "distinct (map nd_id (wf_nodes w))" and "distinct (wf_inputs w)"
    and "n \<in> set (wf_nodes w) \<Longrightarrow> node_in_graph w n" and "acyclic (depends w)"
  using assms graph_search [of w] by (auto simp: workflow_graph_def Let_def list_all_iff)

lemma workflow_frontier:
  assumes "workflow_graph w" and "n \<in> set (wf_nodes w)" and "nd_id n \<notin> fin"
  shows "\<exists>m \<in> set (wf_nodes w). nd_id m \<notin> fin \<and> set (nd_depends_on m) \<subseteq> fin"
proof -
  have "depends w \<subseteq> set (map nd_id (wf_nodes w)) \<times> set (map nd_id (wf_nodes w))"
    using workflow_graphD(3) [OF assms(1)]
    by (auto simp: depends_def node_in_graph_def Let_def)
  then have "finite (depends w)" by (rule finite_subset) simp
  then have "wf ((depends w)\<inverse>)"
    using workflow_graphD(4) [OF assms(1)] finite_acyclic_wf_converse by blast
  moreover have "nd_id n \<in> {i \<in> nd_id ` set (wf_nodes w). i \<notin> fin}" using assms(2,3) by auto
  ultimately obtain i where i: "i \<in> {i \<in> nd_id ` set (wf_nodes w). i \<notin> fin}"
    and min: "\<And>j. (j, i) \<in> (depends w)\<inverse> \<Longrightarrow> j \<notin> {i \<in> nd_id ` set (wf_nodes w). i \<notin> fin}"
    by (rule wfE_min) blast
  from i obtain m where m: "m \<in> set (wf_nodes w)" "nd_id m = i" "i \<notin> fin" by auto
  have "set (nd_depends_on m) \<subseteq> fin"
  proof
    fix j assume j: "j \<in> set (nd_depends_on m)"
    then have "(i, j) \<in> depends w" using m by (auto simp: depends_def)
    moreover have "j \<in> nd_id ` set (wf_nodes w)"
      using workflow_graphD(3) [OF assms(1) m(1)] j by (auto simp: node_in_graph_def Let_def)
    ultimately show "j \<in> fin" using min by auto
  qed
  with m show ?thesis by blast
qed

end
