(* ===== verification/Json_Contracts.thy ===== *)
theory Json_Contracts
  imports Contracts
begin

text \<open>
  \<open>json_contracts.py\<close>: the bounded JSON Schema subset shared by chat and tools,
  the recursive check of a value against a schema, and the hooks \<open>parse_json\<close>
  hands to \<open>json.loads\<close>.
\<close>

section \<open>Schemas\<close>

datatype json_type = TyObject | TyArray | TyString | TyNumber | TyInteger | TyBoolean | TyNull

datatype json_schema = JsonSchema
  (js_type: json_type)
  (js_description: "string option")
  (js_properties: "(string \<times> json_schema) list option")
  (js_required: "string list")
  (js_forbids_extra: bool)
  (js_items: "json_schema option")
  (js_enum: "json list option")

text \<open>\<open>json.dumps(..., allow_nan=False)\<close> raises on a non-finite number.\<close>

fun json_finite :: "json \<Rightarrow> bool" where
  "json_finite (JFloat x) = (case x of Finite _ \<Rightarrow> True | _ \<Rightarrow> False)"
| "json_finite (JArr xs) = list_all json_finite xs"
| "json_finite (JObj kvs) = list_all (json_finite \<circ> snd) kvs"
| "json_finite _ = True"

text \<open>
  The model validator \<open>supported\<close>, applied to a schema and, because nested schemas
  are models too, to every schema inside it.  \<open>dump_len\<close> is the length of
  \<open>model_dump_json()\<close>, which pydantic computes.
\<close>

definition supported_here :: "(json_schema \<Rightarrow> nat) \<Rightarrow> json_schema \<Rightarrow> bool" where
  "supported_here dump_len s =
     ((case js_enum s of None \<Rightarrow> True | Some vs \<Rightarrow> list_all json_finite vs)
      \<and> (if js_type s = TyObject
         then (case js_properties s of None \<Rightarrow> False
               | Some ps \<Rightarrow> js_forbids_extra s \<and> set (js_required s) = set (map fst ps))
         else js_properties s = None \<and> js_required s = [] \<and> \<not> js_forbids_extra s)
      \<and> (js_type s = TyArray) = (js_items s \<noteq> None)
      \<and> dump_len s \<le> 16000)"

inductive supported :: "(json_schema \<Rightarrow> nat) \<Rightarrow> json_schema \<Rightarrow> bool" for dump_len where
  "supported_here dump_len s \<Longrightarrow>
   (\<And>ps k s'. js_properties s = Some ps \<Longrightarrow> (k, s') \<in> set ps \<Longrightarrow> supported dump_len s') \<Longrightarrow>
   (\<And>s'. js_items s = Some s' \<Longrightarrow> supported dump_len s') \<Longrightarrow> supported dump_len s"

section \<open>Checking a value\<close>

text \<open>Python's \<open>==\<close> on JSON values: a bool is the number 0 or 1, an int equals the
  float of the same value, and dictionaries compare as mappings.\<close>

definition py_num :: "json \<Rightarrow> rat option" where
  "py_num v = (case v of JBool b \<Rightarrow> Some (if b then 1 else 0) | JInt i \<Rightarrow> Some (of_int i)
     | JFloat (Finite q) \<Rightarrow> Some q | _ \<Rightarrow> None)"

fun py_eq :: "json \<Rightarrow> json \<Rightarrow> bool" where
  "py_eq (JArr xs) (JArr ys) = list_all2 py_eq xs ys"
| "py_eq (JObj xs) (JObj ys) =
     (length xs = length ys
      \<and> list_all (\<lambda>(k, x). case map_of ys k of None \<Rightarrow> False | Some y \<Rightarrow> py_eq x y) xs)"
| "py_eq (JStr a) (JStr b) = (a = b)"
| "py_eq JNull JNull = True"
| "py_eq (JFloat PosInf) (JFloat PosInf) = True"
| "py_eq (JFloat NegInf) (JFloat NegInf) = True"
| "py_eq a b = (case (py_num a, py_num b) of (Some p, Some q) \<Rightarrow> p = q | _ \<Rightarrow> False)"

fun same_type :: "json \<Rightarrow> json \<Rightarrow> bool" where
  "same_type JNull JNull = True"
| "same_type (JBool _) (JBool _) = True"
| "same_type (JInt _) (JInt _) = True"
| "same_type (JFloat _) (JFloat _) = True"
| "same_type (JStr _) (JStr _) = True"
| "same_type (JArr _) (JArr _) = True"
| "same_type (JObj _) (JObj _) = True"
| "same_type _ _ = False"

fun type_matches :: "json_type \<Rightarrow> json \<Rightarrow> bool" where
  "type_matches TyObject (JObj _) = True"
| "type_matches TyArray (JArr _) = True"
| "type_matches TyString (JStr _) = True"
| "type_matches TyNumber (JFloat _) = True"
| "type_matches TyNumber (JInt _) = True"
| "type_matches TyInteger (JInt _) = True"
| "type_matches TyBoolean (JBool _) = True"
| "type_matches TyNull JNull = True"
| "type_matches _ _ = False"

definition enum_ok :: "json_schema \<Rightarrow> json \<Rightarrow> bool" where
  "enum_ok s v = (case js_enum s of None \<Rightarrow> True
     | Some vs \<Rightarrow> list_ex (\<lambda>x. same_type x v \<and> py_eq x v) vs)"

definition props_of :: "json_schema \<Rightarrow> (string \<times> json_schema) list" where
  "props_of s = (case js_properties s of None \<Rightarrow> [] | Some ps \<Rightarrow> ps)"

text \<open>\<open>validate_value\<close>; every failure raises ValueError, False here.\<close>

function (sequential) validate_value :: "json_schema \<Rightarrow> json \<Rightarrow> nat \<Rightarrow> bool" where
  "validate_value s v depth =
     (if 20 < depth then False
      else if \<not> type_matches (js_type s) v \<or> \<not> enum_ok s v then False
      else (case v of
              JObj kvs \<Rightarrow>
                set (map fst kvs) = set (map fst (props_of s))
                \<and> list_all (\<lambda>(k, s'). case map_of kvs k of None \<Rightarrow> False
                     | Some w \<Rightarrow> validate_value s' w (depth + 1)) (props_of s)
            | JArr xs \<Rightarrow>
                (case js_items s of None \<Rightarrow> True
                 | Some si \<Rightarrow> length xs \<le> 10000
                     \<and> list_all (\<lambda>x. validate_value si x (depth + 1)) xs)
            | _ \<Rightarrow> True))"
  by pat_completeness auto
termination
  by (relation "measure (\<lambda>(s, v, d). 21 - d)") auto

declare validate_value.simps [simp del]

section \<open>What a schema means\<close>

text \<open>Conformance without the nesting bound, by rules, and the nesting of a value.\<close>

fun is_scalar :: "json \<Rightarrow> bool" where
  "is_scalar (JArr _) = False"
| "is_scalar (JObj _) = False"
| "is_scalar _ = True"

inductive conforms :: "json_schema \<Rightarrow> json \<Rightarrow> bool" where
  conf_scalar: "is_scalar v \<Longrightarrow> type_matches (js_type s) v \<Longrightarrow> enum_ok s v \<Longrightarrow> conforms s v"
| conf_object: "js_type s = TyObject \<Longrightarrow> enum_ok s (JObj kvs) \<Longrightarrow>
    set (map fst kvs) = set (map fst (props_of s)) \<Longrightarrow>
    (\<And>k s'. (k, s') \<in> set (props_of s) \<Longrightarrow> \<exists>w. map_of kvs k = Some w \<and> conforms s' w) \<Longrightarrow>
    conforms s (JObj kvs)"
| conf_array: "js_type s = TyArray \<Longrightarrow> enum_ok s (JArr xs) \<Longrightarrow> js_items s = Some si \<Longrightarrow>
    length xs \<le> 10000 \<Longrightarrow> (\<And>x. x \<in> set xs \<Longrightarrow> conforms si x) \<Longrightarrow> conforms s (JArr xs)"
| conf_array_free: "js_type s = TyArray \<Longrightarrow> enum_ok s (JArr xs) \<Longrightarrow> js_items s = None \<Longrightarrow>
    conforms s (JArr xs)"

fun nesting :: "json \<Rightarrow> nat" where
  "nesting (JArr xs) = foldr (\<lambda>x m. max (Suc (nesting x)) m) xs 0"
| "nesting (JObj kvs) = foldr (\<lambda>x m. max (Suc (nesting (snd x))) m) kvs 0"
| "nesting _ = 0"

lemma foldr_max_le_iff:
  "foldr (\<lambda>x m. max (f x) m) xs (0 :: nat) \<le> b \<longleftrightarrow> (\<forall>x \<in> set xs. f x \<le> b)"
  by (induction xs) auto

lemma nesting_arr_le: "nesting (JArr xs) \<le> b \<longleftrightarrow> (\<forall>x \<in> set xs. Suc (nesting x) \<le> b)"
  by (simp only: nesting.simps foldr_max_le_iff)

lemma nesting_obj_le:
  "nesting (JObj kvs) \<le> b \<longleftrightarrow> (\<forall>(k, w) \<in> set kvs. Suc (nesting w) \<le> b)"
  by (simp only: nesting.simps foldr_max_le_iff case_prod_unfold)

lemma type_matches_object: "type_matches t (JObj kvs) \<longleftrightarrow> t = TyObject"
  and type_matches_array: "type_matches t (JArr xs) \<longleftrightarrow> t = TyArray"
  by (cases t; simp)+

lemma lookups_all:
  "list_all (\<lambda>(k, s'). case map_of kvs k of None \<Rightarrow> False | Some w \<Rightarrow> P s' w) ps
   \<longleftrightarrow> (\<forall>(k, s') \<in> set ps. \<exists>w. map_of kvs k = Some w \<and> P s' w)"
proof (induction ps)
  case (Cons p ps)
  then show ?case by (cases p; cases "map_of kvs (fst p)") simp_all
qed simp

lemma validate_object:
  "validate_value s (JObj kvs) d \<longleftrightarrow> d \<le> 20 \<and> js_type s = TyObject \<and> enum_ok s (JObj kvs)
     \<and> set (map fst kvs) = set (map fst (props_of s))
     \<and> (\<forall>(k, s') \<in> set (props_of s). \<exists>w. map_of kvs k = Some w \<and> validate_value s' w (d + 1))"
  by (subst validate_value.simps) (auto simp: type_matches_object lookups_all)

lemma validate_array:
  "validate_value s (JArr xs) d \<longleftrightarrow> d \<le> 20 \<and> js_type s = TyArray \<and> enum_ok s (JArr xs)
     \<and> (case js_items s of None \<Rightarrow> True
        | Some si \<Rightarrow> length xs \<le> 10000 \<and> (\<forall>x \<in> set xs. validate_value si x (d + 1)))"
  by (subst validate_value.simps) (auto simp: type_matches_array list_all_iff split: option.splits)

lemma validate_scalar:
  "is_scalar v \<Longrightarrow> validate_value s v d \<longleftrightarrow> d \<le> 20 \<and> type_matches (js_type s) v \<and> enum_ok s v"
  by (cases v) (auto simp: validate_value.simps [of s _ d])

lemmas validate_cases = validate_object validate_array validate_scalar

lemma validate_conforms: "validate_value s v d \<Longrightarrow> conforms s v"
proof (induction v arbitrary: s d)
  case (JArr xs)
  show ?case
  proof (cases "js_items s")
    case None
    with JArr show ?thesis by (auto simp: validate_array intro: conf_array_free)
  next
    case (Some si)
    with JArr show ?thesis by (auto simp: validate_array intro!: conf_array [OF _ _ Some])
  qed
next
  case (JObj kvs)
  have "\<exists>w. map_of kvs k = Some w \<and> conforms s' w" if "(k, s') \<in> set (props_of s)" for k s'
    using JObj.prems that JObj.IH unfolding validate_object
    by (fastforce dest: map_of_SomeD)
  with JObj.prems show ?case by (auto simp: validate_object intro: conf_object)
qed (auto simp: validate_scalar intro!: conf_scalar)

lemma conforms_validate: "conforms s v \<Longrightarrow> d + nesting v \<le> 20 \<Longrightarrow> validate_value s v d"
proof (induction arbitrary: d rule: conforms.induct)
  case (conf_scalar v s)
  then show ?case by (auto simp: validate_scalar)
next
  case (conf_object s kvs)
  have "\<exists>w. map_of kvs k = Some w \<and> validate_value s' w (d + 1)"
    if ks: "(k, s') \<in> set (props_of s)" for k s'
  proof -
    from conf_object(4) [OF ks] obtain w where w: "map_of kvs k = Some w"
      and IH: "\<And>e. e + nesting w \<le> 20 \<Longrightarrow> validate_value s' w e" by blast
    have "Suc (nesting w) \<le> 20 - d"
      using conf_object.prems nesting_obj_le [of kvs "20 - d"] map_of_SomeD [OF w] by auto
    with w IH show ?thesis by auto
  qed
  with conf_object show ?case by (auto simp: validate_object)
next
  case (conf_array s xs si)
  have "validate_value si x (d + 1)" if "x \<in> set xs" for x
    using conf_array.IH [OF that] conf_array.prems nesting_arr_le [of xs "20 - d"] that by auto
  with conf_array show ?case by (auto simp: validate_array)
next
  case (conf_array_free s xs)
  then show ?case by (auto simp: validate_array)
qed

text \<open>Every object inside a value is a dict: its keys are distinct.\<close>

fun json_wf :: "json \<Rightarrow> bool" where
  "json_wf (JArr xs) = list_all json_wf xs"
| "json_wf (JObj kvs) = (is_dict kvs \<and> list_all (json_wf \<circ> snd) kvs)"
| "json_wf _ = True"

inductive_cases supportedE: "supported dump_len s"

lemma supportedD:
  assumes "supported dump_len s"
  shows "supported_here dump_len s"
    and "(k, s') \<in> set (props_of s) \<Longrightarrow> supported dump_len s'"
    and "js_items s = Some si \<Longrightarrow> supported dump_len si"
  using assms
  by (cases "js_properties s"; auto elim!: supportedE simp: props_of_def)+

lemma validate_nesting:
  "validate_value s v d \<Longrightarrow> supported dump_len s \<Longrightarrow> json_wf v \<Longrightarrow> d + nesting v \<le> 20"
proof (induction v arbitrary: s d)
  case (JArr xs)
  then obtain si where si: "js_items s = Some si"
    using supportedD(1) [OF JArr.prems(2)] by (auto simp: validate_array supported_here_def)
  have "d + Suc (nesting x) \<le> 20" if x: "x \<in> set xs" for x
    using JArr.IH [OF x, of si "d + 1"] JArr.prems si x supportedD(3) [OF JArr.prems(2) si]
    by (auto simp: validate_array list_all_iff)
  then show ?case using JArr.prems(1) nesting_arr_le [of xs "20 - d"]
    by (fastforce simp: validate_array)
next
  case (JObj kvs)
  have "d + Suc (nesting w) \<le> 20" if kw: "(k, w) \<in> set kvs" for k w
  proof -
    have w: "map_of kvs k = Some w" using kw JObj.prems(3) by (simp add: is_dict_def)
    obtain s' where s': "(k, s') \<in> set (props_of s)"
    proof -
      have "k \<in> set (map fst kvs)" using kw by force
      then have "k \<in> set (map fst (props_of s))" using JObj.prems(1) by (simp add: validate_object)
      then show ?thesis using that by auto
    qed
    then have "validate_value s' w (d + 1)" using JObj.prems(1) w by (auto simp: validate_object)
    then show ?thesis
      using JObj.IH [OF kw, of w s' "d + 1"] supportedD(2) [OF JObj.prems(2) s'] JObj.prems(3) kw
      by (auto simp: list_all_iff)
  qed
  then show ?case using JObj.prems(1) nesting_obj_le [of kvs "20 - d"]
    by (fastforce simp: validate_object)
qed (auto simp: validate_scalar)

text \<open>
  C33. For a supported schema the checker of \<open>validate_value\<close> accepts a JSON value
  exactly when the value conforms to the schema (types, enumerations, exact
  property sets, element schemas, array lengths) and nests at most 20 levels deep.
\<close>

theorem validate_value_iff_conforms:
  assumes "supported dump_len s" and "json_wf v"
  shows "validate_value s v 0 \<longleftrightarrow> conforms s v \<and> nesting v \<le> 20"
  using validate_conforms [of s v 0] validate_nesting [of s v 0 dump_len]
    conforms_validate [of s v 0] assms by auto

definition ex_schema :: json_schema where
  "ex_schema = JsonSchema TyObject None
     (Some [(''n'', JsonSchema TyInteger None None [] False None (Some [JInt 1, JInt 2]))])
     [''n''] True None None"

lemma ex_schema_supported: "supported (\<lambda>_. 40) ex_schema"
proof -
  have "supported (\<lambda>_. 40) (JsonSchema TyInteger None None [] False None (Some [JInt 1, JInt 2]))"
    by (rule supported.intros) (simp_all add: supported_here_def)
  note inner = this
  show ?thesis
    by (rule supported.intros; use inner in \<open>auto simp: ex_schema_def supported_here_def\<close>)
qed

theorem validate_value_iff_conforms_witness:
  "conforms ex_schema (JObj [(''n'', JInt 2)])
   \<and> \<not> validate_value ex_schema (JObj [(''n'', JInt 3)]) 0"
proof -
  have "validate_value ex_schema (JObj [(''n'', JInt 2)]) 0"
    and no: "\<not> validate_value ex_schema (JObj [(''n'', JInt 3)]) 0"
    by (simp_all add: validate_value.simps ex_schema_def enum_ok_def props_of_def py_num_def)
  moreover have "json_wf (JObj [(''n'', JInt 2)])" by (simp add: is_dict_def)
  ultimately show ?thesis
    using validate_value_iff_conforms [OF ex_schema_supported] by blast
qed

section \<open>The hooks of \<open>parse_json\<close>\<close>

text \<open>
  \<open>json.loads\<close> calls back for every constant (\<open>NaN\<close>, \<open>Infinity\<close>), every float
  literal and every object.  \<open>doc\<close> is the document as the reader finds it, before
  the hooks run.
\<close>

datatype doc =
    DNull | DBool bool | DInt int | DFloat pyfloat | DConstant string | DStr string
  | DArr "doc list"
  | DObj "(string \<times> doc) list"

definition finite_hook :: "pyfloat \<Rightarrow> json res" where
  "finite_hook x = (case x of Finite q \<Rightarrow> Inr (JFloat (Finite q)) | _ \<Rightarrow> Inl ValueError)"

definition pairs_hook :: "(string \<times> json) list \<Rightarrow> json res" where
  "pairs_hook items = (if distinct (map fst items) then Inr (JObj items) else Inl ValueError)"

fun all_ok :: "'a res list \<Rightarrow> 'a list res" where
  "all_ok [] = Inr []"
| "all_ok (r # rs) = rbind r (\<lambda>x. rbind (all_ok rs) (\<lambda>xs. Inr (x # xs)))"

fun load_hooks :: "doc \<Rightarrow> json res" where
  "load_hooks DNull = Inr JNull"
| "load_hooks (DBool b) = Inr (JBool b)"
| "load_hooks (DInt i) = Inr (JInt i)"
| "load_hooks (DFloat x) = finite_hook x"
| "load_hooks (DConstant c) = Inl ValueError"
| "load_hooks (DStr s) = Inr (JStr s)"
| "load_hooks (DArr ds) = rbind (all_ok (map load_hooks ds)) (\<lambda>xs. Inr (JArr xs))"
| "load_hooks (DObj kds) =
     rbind (all_ok (map (load_hooks \<circ> snd) kds)) (\<lambda>vs. pairs_hook (zip (map fst kds) vs))"

text \<open>\<open>reader\<close> is the grammar of \<open>json.loads\<close>: None when the text is not JSON.\<close>

definition parse_json :: "(string \<Rightarrow> doc option) \<Rightarrow> string \<Rightarrow> json res" where
  "parse_json reader s = (case reader s of None \<Rightarrow> Inl ValueError | Some d \<Rightarrow> load_hooks d)"

lemma all_ok_Inr: "all_ok rs = Inr xs \<longleftrightarrow> rs = map Inr xs"
  by (induction rs arbitrary: xs) (auto simp: rbind_Inr_iff Cons_eq_map_conv)

lemma load_hooks_wf: "load_hooks d = Inr v \<Longrightarrow> json_wf v \<and> json_finite v"
proof (induction d arbitrary: v)
  case (DArr ds)
  then obtain xs where xs: "map load_hooks ds = map Inr xs" and v: "v = JArr xs"
    by (auto simp: rbind_Inr_iff all_ok_Inr)
  have "json_wf x \<and> json_finite x" if "x \<in> set xs" for x
  proof -
    from that have "Inr x \<in> set (map load_hooks ds)" by (simp add: xs)
    then obtain d where "d \<in> set ds" "load_hooks d = Inr x" by auto
    then show ?thesis using DArr.IH by blast
  qed
  with v show ?case by (simp add: list_all_iff)
next
  case (DObj kds)
  then obtain vs where vs: "map (load_hooks \<circ> snd) kds = map Inr vs"
    and v: "v = JObj (zip (map fst kds) vs)" and d: "distinct (map fst (zip (map fst kds) vs))"
    by (auto simp: rbind_Inr_iff all_ok_Inr pairs_hook_def split: if_splits)
  have "json_wf x \<and> json_finite x" if "x \<in> set vs" for x
  proof -
    from that have "Inr x \<in> set (map (load_hooks \<circ> snd) kds)" by (simp add: vs)
    then obtain k d where "(k, d) \<in> set kds" "load_hooks d = Inr x" by auto
    then show ?thesis using DObj.IH by fastforce
  qed
  with v d show ?case by (auto simp: is_dict_def list_all_iff dest: set_zip_rightD)
qed (auto simp: finite_hook_def split: pyfloat.splits)

lemma all_ok_Inl: "all_ok rs = Inl e \<Longrightarrow> Inl e \<in> set rs"
proof (induction rs)
  case (Cons r rs)
  then show ?case by (cases r; cases "all_ok rs") auto
qed simp

lemma load_hooks_error: "load_hooks d = Inl e \<Longrightarrow> e = ValueError"
proof (induction d)
  case (DArr ds)
  then have "Inl e \<in> set (map load_hooks ds)"
    by (cases "all_ok (map load_hooks ds)") (auto dest: all_ok_Inl)
  with DArr.IH show ?case by (metis (no_types, lifting) image_iff list.set_map)
next
  case (DObj kds)
  show ?case
  proof (cases "all_ok (map (load_hooks \<circ> snd) kds)")
    case (Inl e')
    with DObj.prems have "Inl e \<in> set (map (load_hooks \<circ> snd) kds)"
      by (auto dest: all_ok_Inl)
    then obtain k d where "(k, d) \<in> set kds" "load_hooks d = Inl e" by auto
    then show ?thesis using DObj.IH by fastforce
  next
    case (Inr vs)
    with DObj.prems show ?thesis by (auto simp: pairs_hook_def split: if_splits)
  qed
qed (auto simp: finite_hook_def split: pyfloat.splits)

text \<open>
  C34. Whatever the reader finds, a value \<open>parse_json\<close> returns has distinct keys in
  every object and no infinity or NaN anywhere inside.
\<close>

theorem parse_json_clean:
  "parse_json reader s = Inl ValueError
   \<or> (\<exists>v. parse_json reader s = Inr v \<and> json_wf v \<and> json_finite v)"
proof (cases "parse_json reader s")
  case (Inl e)
  have "load_hooks d = Inl e' \<Longrightarrow> e' = ValueError" for d e'
    by (rule load_hooks_error)
  with Inl show ?thesis by (auto simp: parse_json_def split: option.splits)
next
  case (Inr v)
  then show ?thesis using load_hooks_wf by (auto simp: parse_json_def split: option.splits)
qed

end
