(* ===== verification/Template.thy ===== *)
theory Template
  imports Contracts
begin

text \<open>
  The literal placeholders \<open>{{name}}\<close> of prompt templates: the regular expression
  \<open>\{\{([A-Za-z0-9_-]+)\}\}\<close> is read once, from left to right, without overlaps.
  \<open>scan\<close> cuts a template into literal characters and holes; \<open>findall\<close> lists the
  holes and \<open>sub\<close> fills them in one pass.
\<close>

datatype piece = Lit char | Hole string

function (sequential) scan :: "string \<Rightarrow> piece list" where
  "scan [] = []"
| "scan (c # cs) =
     (let body = takeWhile is_word_char (tl cs); after = dropWhile is_word_char (tl cs) in
      if c = CHR ''{'' \<and> take 1 cs = ''{'' \<and> body \<noteq> [] \<and> take 2 after = ''}}''
      then Hole body # scan (drop 2 after)
      else Lit c # scan cs)"
  by pat_completeness auto
termination
proof (relation "measure length", goal_cases)
  case (2 c cs body after)
  have "length after \<le> length (tl cs)"
    using 2(2) length_dropWhile_le [of is_word_char "tl cs"] by simp
  then show ?case by auto
qed auto

fun holes :: "piece list \<Rightarrow> string list" where
  "holes [] = []"
| "holes (Lit c # ps) = holes ps"
| "holes (Hole n # ps) = n # holes ps"

definition findall_placeholders :: "string \<Rightarrow> string list" where
  "findall_placeholders t = holes (scan t)"

fun fill :: "(string \<Rightarrow> string res) \<Rightarrow> piece list \<Rightarrow> string res" where
  "fill f [] = Inr []"
| "fill f (Lit c # ps) = rbind (fill f ps) (\<lambda>r. Inr (c # r))"
| "fill f (Hole n # ps) = rbind (f n) (\<lambda>v. rbind (fill f ps) (\<lambda>r. Inr (v @ r)))"

definition sub_placeholders :: "(string \<Rightarrow> string res) \<Rightarrow> string \<Rightarrow> string res" where
  "sub_placeholders f t = fill f (scan t)"

text \<open>A filled template is the literals and the values in order: nothing inside an
  inserted value is read again.\<close>

fun piece_text :: "(string \<Rightarrow> string) \<Rightarrow> piece \<Rightarrow> string" where
  "piece_text v (Lit c) = [c]"
| "piece_text v (Hole n) = v n"

lemma fill_total:
  "(\<And>n. n \<in> set (holes ps) \<Longrightarrow> f n = Inr (v n)) \<Longrightarrow>
   fill f ps = Inr (concat (map (piece_text v) ps))"
  by (induction ps rule: holes.induct) auto

lemma fill_Inr_holes: "fill f ps = Inr r \<Longrightarrow> n \<in> set (holes ps) \<Longrightarrow> \<exists>v. f n = Inr v"
  by (induction f ps arbitrary: r rule: fill.induct) (auto simp: rbind_Inr_iff)

lemma sub_placeholders_eq:
  "(\<And>n. n \<in> set (findall_placeholders t) \<Longrightarrow> f n = Inr (v n)) \<Longrightarrow>
   sub_placeholders f t = Inr (concat (map (piece_text v) (scan t)))"
  unfolding findall_placeholders_def sub_placeholders_def by (rule fill_total)

lemma scan_plain: "CHR ''{'' \<notin> set t \<Longrightarrow> scan t = map Lit t"
  by (induction t) (auto simp: Let_def)

end
