(* ===== verification/Catalog.thy ===== *)
theory Catalog
  imports Contracts
begin

text \<open>
  The catalog side of \<open>contracts.py\<close>: model artifacts, candidate
  configurations, evidence, capability observations, benchmark evidence, the
  workload profile, the catalog snapshot with its reference checks, and the
  results the selector returns.
\<close>

section \<open>Artifacts, configurations, evidence\<close>

record model_artifact =
  art_id :: string
  art_name :: string
  art_revision :: string
  art_open_weight :: "bool fact"
  art_license :: "string fact"
  art_prov :: provenance

record candidate =
  cfg_id :: string
  cfg_artifact_id :: string
  cfg_provider :: "string fact"
  cfg_region :: "string fact"
  cfg_quantization :: "string fact"
  cfg_hardware :: "string fact"
  cfg_prompt_template_ref :: string
  cfg_harness_ref :: string
  cfg_reasoning_budget :: "int fact"
  cfg_cost_per_1k_tokens :: "pyfloat fact"
  cfg_latency_ms :: "pyfloat fact"
  cfg_prov :: provenance

record evidence =
  ev_id :: string
  ev_title :: string
  ev_claim :: string
  ev_source_url :: "string option"
  ev_captured_at :: string
  ev_prov :: provenance

record eligibility =
  el_configuration_id :: string
  el_artifact_id :: string
  el_weights_access :: "bool fact"
  el_license_policy :: "bool fact"
  el_input_modalities :: "string list fact"
  el_supported_parameters :: "string list fact"
  el_deployment :: "string fact"
  el_observed_at :: string
  el_expires_at :: string

section \<open>Capabilities\<close>

datatype capability =
    CapTextInput | CapImageInput | CapAudioInput | CapVideoInput | CapDocumentInput
  | CapTextOutput | CapJsonOutput | CapSchemaJson | CapCodeOutput | CapTools | CapEmbeddings
  | CapMultimodalOutput | CapStreaming | CapContextTokens | CapMaxOutputTokens
  | CapQuantization | CapParametersBillion | CapArchitecture | CapFamily | CapBackends
  | CapColdStartMs | CapLatencyMs | CapThroughputTokensS | CapInputUsdPerMillion
  | CapOutputUsdPerMillion | CapRequestUsd | CapGpuCount | CapMemoryGb | CapSelfHosted
  | CapLocal | CapPrivacyClass | CapRetentionDays | CapSuccessRate

datatype task_family =
    TfExtraction | TfSummarization | TfClassification | TfCoding | TfDebugging | TfMathematics
  | TfScience | TfLongContext | TfToolUse | TfStructuredExtraction | TfResearch | TfPlanning
  | TfMultilingual | TfVision | TfGeneral

datatype strategy = StAuto | StSingle | StMultiStage | StParallel | StCheapFirst
  | StGenerateVerify

datatype basis = BDeclared | BMeasured | BImported | BEstimated | BSynthetic | BUnknown

record cap_observation =
  co_fact :: "json fact"
  co_basis :: basis
  co_observed_at :: int
  co_expires_at :: int

definition allowed_kinds :: "basis \<Rightarrow> prov_kind list option" where
  "allowed_kinds b = (case b of BDeclared \<Rightarrow> Some [PDocumented]
     | BMeasured \<Rightarrow> Some [PObserved]
     | BImported \<Rightarrow> Some [PDocumented, PObserved]
     | _ \<Rightarrow> None)"

definition valid_observation :: "cap_observation \<Rightarrow> bool" where
  "valid_observation o1 =
     (if co_expires_at o1 \<le> co_observed_at o1 then False
      else if (fact_value (co_fact o1) = None) \<noteq> (co_basis o1 = BUnknown) then False
      else if co_basis o1 = BSynthetic \<and> prov_kind (fact_prov (co_fact o1)) \<noteq> PSynthetic then False
      else if co_basis o1 = BEstimated \<and> prov_kind (fact_prov (co_fact o1)) \<noteq> PInference then False
      else (case allowed_kinds (co_basis o1) of None \<Rightarrow> True
            | Some ks \<Rightarrow> prov_kind (fact_prov (co_fact o1)) \<in> set ks))"

record deployment_intelligence =
  di_configuration_id :: string
  di_facts :: "(capability \<times> cap_observation) list"

definition boolean_caps :: "capability list" where
  "boolean_caps = [CapTextInput, CapImageInput, CapAudioInput, CapVideoInput, CapDocumentInput,
     CapTextOutput, CapJsonOutput, CapSchemaJson, CapCodeOutput, CapTools, CapEmbeddings,
     CapMultimodalOutput, CapStreaming, CapSelfHosted, CapLocal]"

definition string_caps :: "capability list" where
  "string_caps = [CapQuantization, CapArchitecture, CapFamily, CapPrivacyClass]"

text \<open>The number a JSON number denotes, when it is finite.\<close>

definition num_value :: "json \<Rightarrow> rat option" where
  "num_value v = (case v of JInt i \<Rightarrow> Some (of_int i) | JFloat (Finite q) \<Rightarrow> Some q | _ \<Rightarrow> None)"

definition cap_value_ok :: "capability \<Rightarrow> json \<Rightarrow> bool" where
  "cap_value_ok key v =
     (if key \<in> set boolean_caps then (case v of JBool _ \<Rightarrow> True | _ \<Rightarrow> False)
      else if key \<in> set string_caps then (case v of JStr _ \<Rightarrow> True | _ \<Rightarrow> False)
      else if key = CapBackends
           then (case v of JArr xs \<Rightarrow> list_all (\<lambda>x. case x of JStr _ \<Rightarrow> True | _ \<Rightarrow> False) xs
                 | _ \<Rightarrow> False)
      else (case num_value v of None \<Rightarrow> False
            | Some q \<Rightarrow> 0 \<le> q \<and> (key = CapSuccessRate \<longrightarrow> q \<le> 1)))"

definition units_and_types :: "deployment_intelligence \<Rightarrow> bool" where
  "units_and_types d = list_all (\<lambda>(key, o1). case fact_value (co_fact o1) of None \<Rightarrow> True
     | Some v \<Rightarrow> cap_value_ok key v) (di_facts d)"

section \<open>Benchmark evidence and workloads\<close>

datatype perf_origin = OInternalEvaluation | OCuratedImport | OManualReview | OSynthetic

record performance =
  pe_id :: string
  pe_configuration_id :: string
  pe_task :: task_family
  pe_benchmark :: string
  pe_benchmark_version :: string
  pe_split :: string
  pe_harness :: string
  pe_settings :: string
  pe_raw_metric :: rat
  pe_unit :: string
  pe_normalized_score :: rat
  pe_normalization :: string
  pe_scale_min :: rat
  pe_scale_max :: rat
  pe_higher_is_better :: bool
  pe_sample_size :: "int option"
  pe_measured_at :: "int option"
  pe_retrieved_at :: int
  pe_expires_at :: int
  pe_source_url :: "string option"
  pe_source_locator :: string
  pe_prov :: provenance
  pe_origin :: perf_origin
  pe_reviewed :: bool
  pe_limitations :: "string list"

datatype data_class = DcSynthetic | DcPublic | DcTenantPrivate | DcRestricted
datatype sensitivity = SnLow | SnMedium | SnHigh | SnUnknown
datatype complexity = CxSimple | CxModerate | CxComplex | CxUnknown
datatype output_shape = OutText | OutJson | OutSchemaJson
datatype determinism = DtRequired | DtPreferred | DtUnspecified

record workload_profile =
  wp_task :: task_family
  wp_complexity :: complexity
  wp_required :: "capability list"
  wp_optional :: "capability list"
  wp_input_tokens :: "int option"
  wp_output_tokens :: "int option"
  wp_latency_sensitivity :: sensitivity
  wp_quality_sensitivity :: sensitivity
  wp_budget_sensitivity :: sensitivity
  wp_local_only :: bool
  wp_self_hosted_only :: bool
  wp_approved_providers :: "string list"
  wp_no_retention :: bool
  wp_no_external_tools :: bool
  wp_data_class :: data_class
  wp_tools :: "string list"
  wp_structured_output :: output_shape
  wp_determinism :: determinism
  wp_expected_stages :: "int option"
  wp_decomposition :: "bool option"
  wp_verification :: "bool option"
  wp_parallel :: "bool option"
  wp_strategy :: strategy
  wp_max_cost_micro_usd :: "int option"
  wp_preferred_cost_micro_usd :: "int option"
  wp_max_latency_ms :: "int option"
  wp_min_quality :: "rat option"
  wp_max_model_calls :: int
  wp_max_tool_calls :: int
  wp_max_attempts :: int
  wp_evidence :: "string dict"
  wp_explicit_fields :: "string list"
  wp_questions :: "string list"

section \<open>The catalog snapshot\<close>

record catalog =
  cat_id :: string
  cat_artifacts :: "model_artifact list"
  cat_configurations :: "candidate list"
  cat_evidence :: "evidence list"
  cat_synthetic :: bool
  cat_eligibility :: "eligibility list"
  cat_intelligence :: "deployment_intelligence list"
  cat_performance :: "performance list"

definition cfg_by_id :: "catalog \<Rightarrow> string \<Rightarrow> candidate option" where
  "cfg_by_id c i = List.find (\<lambda>x. cfg_id x = i) (rev (cat_configurations c))"

definition catalog_references :: "catalog \<Rightarrow> bool" where
  "catalog_references c =
     (let configs = map cfg_id (cat_configurations c); ev = map ev_id (cat_evidence c) in
        distinct (map art_id (cat_artifacts c)) \<and> distinct configs \<and> distinct ev
      \<and> distinct (map di_configuration_id (cat_intelligence c))
      \<and> distinct (map pe_id (cat_performance c))
      \<and> list_all (\<lambda>i. di_configuration_id i \<in> set configs) (cat_intelligence c)
      \<and> list_all (\<lambda>p. pe_configuration_id p \<in> set configs) (cat_performance c)
      \<and> \<not> (\<not> cat_synthetic c \<and> list_ex (\<lambda>p. pe_origin p = OSynthetic) (cat_performance c))
      \<and> distinct (map el_configuration_id (cat_eligibility c))
      \<and> list_all (\<lambda>e. case cfg_by_id c (el_configuration_id e) of None \<Rightarrow> False
                  | Some x \<Rightarrow> cfg_artifact_id x = el_artifact_id e) (cat_eligibility c)
      \<and> list_all (\<lambda>x. cfg_artifact_id x \<in> set (map art_id (cat_artifacts c)))
          (cat_configurations c)
      \<and> list_all (\<lambda>p. set (prov_evidence_ids p) \<subseteq> set ev)
          (map art_prov (cat_artifacts c) @ map cfg_prov (cat_configurations c)))"

section \<open>What selection returns\<close>

record filter_result =
  fr_eligible :: "string list"
  fr_excluded :: "(string \<times> string list) list"

record assignment =
  as_node_id :: string
  as_configuration_id :: string
  as_reason :: string

datatype confidence = ConfSyntheticOnly | ConfLow | ConfMedium | ConfHigh

record recommendation =
  rc_id :: string
  rc_workflow_id :: string
  rc_workflow_version :: int
  rc_catalog_id :: string
  rc_assignments :: "assignment list"
  rc_alternatives :: "string list"
  rc_filter_result :: filter_result
  rc_evidence_ids :: "string list"
  rc_confidence :: confidence
  rc_limitations :: "string list"

record draft_policy =
  dp_id :: string
  dp_workflow_id :: string
  dp_workflow_version :: int
  dp_recommendation_id :: string
  dp_assignments :: "assignment list"
  dp_synthetic :: bool

end
