(* ===== verification/Exec_Contracts.thy ===== *)
theory Exec_Contracts
  imports Catalog Json_Contracts Template
begin

text \<open>
  The policy side of \<open>execution_contracts.py\<close>: version references, budgets, prompt
  revisions, executable stages and policies with the validator that binds them to
  their workflow, admissions, transitions, aliases, application keys, credentials,
  grants and target configurations.
\<close>

section \<open>References, budgets, prompts\<close>

record version_ref =
  vr_id :: string
  vr_version :: int

definition valid_ref :: "version_ref \<Rightarrow> bool" where
  "valid_ref r = (is_identifier (vr_id r) \<and> 1 \<le> vr_version r)"

datatype value_type = VtText | VtJson | VtBoolean | VtNumber

datatype operation = OpTrim | OpLowercase | OpUppercase | OpSortLines | OpDeduplicateLines

datatype scope = ScModelsRead | ScChatComplete | ScWorkflowRun | ScRunsRead | ScRunsCancel

record execution_budget =
  eb_max_cost :: int
  eb_max_model_calls :: int
  eb_max_tool_calls :: int
  eb_max_input_tokens :: int
  eb_max_output_tokens :: int
  eb_timeout_ms :: int
  eb_max_attempts :: int

definition valid_budget :: "execution_budget \<Rightarrow> bool" where
  "valid_budget b = (0 \<le> eb_max_cost b \<and> eb_max_cost b \<le> 1000000
     \<and> 0 \<le> eb_max_model_calls b \<and> eb_max_model_calls b \<le> 20
     \<and> 0 \<le> eb_max_tool_calls b \<and> eb_max_tool_calls b \<le> 20
     \<and> 1 \<le> eb_max_input_tokens b \<and> eb_max_input_tokens b \<le> 131072
     \<and> 1 \<le> eb_max_output_tokens b \<and> eb_max_output_tokens b \<le> 16384
     \<and> 100 \<le> eb_timeout_ms b \<and> eb_timeout_ms b \<le> 120000
     \<and> 1 \<le> eb_max_attempts b \<and> eb_max_attempts b \<le> 3)"

record prompt_revision =
  pr_id :: string
  pr_version :: int
  pr_template :: string
  pr_variables :: "value_type dict"
  pr_parent :: "version_ref option"

definition prompt_placeholders :: "prompt_revision \<Rightarrow> bool" where
  "prompt_placeholders p =
     (set (findall_placeholders (pr_template p)) = set (dict_keys (pr_variables p))
      \<and> (case pr_parent p of None \<Rightarrow> True
         | Some q \<Rightarrow> vr_id q = pr_id p \<and> vr_version q = pr_version p - 1)
      \<and> (1 < pr_version p) = (pr_parent p \<noteq> None))"

definition valid_prompt :: "prompt_revision \<Rightarrow> bool" where
  "valid_prompt p = (is_identifier (pr_id p) \<and> 1 \<le> pr_version p
     \<and> 1 \<le> length (pr_template p) \<and> length (pr_template p) \<le> 16000
     \<and> is_dict (pr_variables p) \<and> list_all is_identifier (dict_keys (pr_variables p))
     \<and> (case pr_parent p of None \<Rightarrow> True | Some q \<Rightarrow> valid_ref q)
     \<and> prompt_placeholders p)"

record route_requirements =
  rr_allowed_endpoint_ids :: "string list"
  rr_required_parameters :: "string list"
  rr_local_only :: bool
  rr_required_region :: "string option"

datatype variant_mode = VmQuality | VmBalanced | VmCostConscious

record policy_variant =
  pv_mode :: variant_mode
  pv_rationale :: "string list"

record variant_request =
  vq_id :: string
  vq_mode :: variant_mode

datatype rule_kind = RkRequiredTerms | RkPythonSyntax | RkCitationAllowlist

record validation_rule =
  vl_kind :: rule_kind
  vl_values :: "string list"

definition valid_rule :: "validation_rule \<Rightarrow> bool" where
  "valid_rule r = (length (vl_values r) \<le> 20
     \<and> \<not> list_ex (\<lambda>v. v = [] \<or> 200 < length v) (vl_values r)
     \<and> \<not> (vl_kind r \<noteq> RkPythonSyntax \<and> vl_values r = []))"

record validation_observation =
  vo_kind :: rule_kind
  vo_passed :: bool

record circuit_policy =
  cp_failures :: int
  cp_cooldown_seconds :: int

definition valid_circuit :: "circuit_policy \<Rightarrow> bool" where
  "valid_circuit c = (1 \<le> cp_failures c \<and> cp_failures c \<le> 20
     \<and> 1 \<le> cp_cooldown_seconds c \<and> cp_cooldown_seconds c \<le> 3600)"

section \<open>Response formats\<close>

definition is_tool_name :: "string \<Rightarrow> bool" where
  "is_tool_name s = (list_all is_word_char s \<and> 1 \<le> length s \<and> length s \<le> 64)"

datatype format_type = FtText | FtJsonObject | FtJsonSchema

record json_schema_format =
  jf_name :: string
  jf_schema :: json_schema

record response_format =
  rf_type :: format_type
  rf_json_schema :: "json_schema_format option"

definition valid_response_format :: "response_format \<Rightarrow> bool" where
  "valid_response_format r =
     ((rf_type r = FtJsonSchema) = (rf_json_schema r \<noteq> None)
      \<and> (case rf_json_schema r of None \<Rightarrow> True | Some f \<Rightarrow> is_tool_name (jf_name f)))"

section \<open>Stages and policies\<close>

record executable_stage =
  es_node_id :: string
  es_input_types :: "value_type dict"
  es_output_types :: "value_type dict"
  es_prompt :: "version_ref option"
  es_configuration_id :: "string option"
  es_fallback_configuration_ids :: "string list"
  es_route_requirements :: "route_requirements option"
  es_response_format :: "response_format option"
  es_operation :: "operation option"
  es_allowed_tool_ids :: "string list"
  es_budget :: execution_budget
  es_workload_profile :: "workload_profile option"
  es_validation_rules :: "validation_rule list"
  es_max_repairs :: int
  es_fallback_on :: "failure_kind list"

datatype quality_label = QUntestedProvisional | QMeasuredNotProductionApproved

record executable_policy =
  ep_id :: string
  ep_version :: int
  ep_plan :: version_ref
  ep_workflow :: workflow
  ep_catalog_id :: string
  ep_input_types :: "value_type dict"
  ep_stages :: "executable_stage list"
  ep_prompts :: "prompt_revision list"
  ep_budget :: execution_budget
  ep_quality :: quality_label
  ep_variant :: "policy_variant option"
  ep_routing_decision_id :: "string option"
  ep_router_policy_ref :: "version_ref option"
  ep_catalog_digest :: "string option"
  ep_circuit_policy :: "circuit_policy option"

definition valid_stage :: "executable_stage \<Rightarrow> bool" where
  "valid_stage s = (is_identifier (es_node_id s)
     \<and> is_dict (es_input_types s) \<and> is_dict (es_output_types s)
     \<and> (case es_prompt s of None \<Rightarrow> True | Some r \<Rightarrow> valid_ref r)
     \<and> opt_identifier (es_configuration_id s)
     \<and> list_all is_identifier (es_fallback_configuration_ids s)
     \<and> length (es_fallback_configuration_ids s) \<le> 2
     \<and> (case es_response_format s of None \<Rightarrow> True | Some r \<Rightarrow> valid_response_format r)
     \<and> list_all is_identifier (es_allowed_tool_ids s) \<and> valid_budget (es_budget s)
     \<and> list_all valid_rule (es_validation_rules s) \<and> length (es_validation_rules s) \<le> 5
     \<and> 0 \<le> es_max_repairs s \<and> es_max_repairs s \<le> 2)"

text \<open>Python's \<open>==\<close> between two dictionaries: the same items, in any order.\<close>

definition dict_eq :: "'a dict \<Rightarrow> 'a dict \<Rightarrow> bool" where
  "dict_eq a b = (set a = set b)"

definition stage_by_id :: "executable_stage list \<Rightarrow> string \<Rightarrow> executable_stage option" where
  "stage_by_id ss i = List.find (\<lambda>s. es_node_id s = i) (rev ss)"

definition prompt_by_ref :: "prompt_revision list \<Rightarrow> version_ref \<Rightarrow> prompt_revision option" where
  "prompt_by_ref ps r = List.find (\<lambda>p. pr_id p = vr_id r \<and> pr_version p = vr_version r) (rev ps)"

text \<open>The declared type of the value a binding carries; None where the lookup raises.\<close>

definition source_type :: "executable_policy \<Rightarrow> binding \<Rightarrow> value_type option" where
  "source_type p b =
     (if bind_from_input b then map_of (ep_input_types p) (bind_source b)
      else (case stage_by_id (ep_stages p) (bind_source b) of None \<Rightarrow> None
            | Some s \<Rightarrow> map_of (es_output_types s) (bind_output b)))"

definition stage_repairs_ok :: "node \<Rightarrow> executable_stage \<Rightarrow> bool" where
  "stage_repairs_ok n s =
     (\<not> (es_max_repairs s \<noteq> 0 \<and>
         (nd_kind n \<noteq> KLlm \<or> es_validation_rules s = []
          \<or> eb_max_attempts (es_budget s)
            < 1 + es_max_repairs s + int (length (es_fallback_configuration_ids s)))))"

definition stage_fallbacks_ok :: "node \<Rightarrow> executable_stage \<Rightarrow> bool" where
  "stage_fallbacks_ok n s =
     (distinct (es_fallback_configuration_ids s)
      \<and> (case es_configuration_id s of None \<Rightarrow> True
         | Some c \<Rightarrow> c \<notin> set (es_fallback_configuration_ids s))
      \<and> \<not> (es_fallback_configuration_ids s \<noteq> [] \<and>
           (nd_kind n \<noteq> KLlm
            \<or> eb_max_attempts (es_budget s)
              < int (length (es_fallback_configuration_ids s)) + 1 + es_max_repairs s)))"

definition stage_bindings_ok :: "executable_policy \<Rightarrow> node \<Rightarrow> executable_stage \<Rightarrow> bool" where
  "stage_bindings_ok p n s =
     (nd_inputs n \<noteq> []
      \<and> set (dict_keys (es_input_types s)) = set (dict_keys (nd_inputs n))
      \<and> set (dict_keys (es_output_types s)) = set (nd_outputs n)
      \<and> list_all (\<lambda>(field, b). source_type p b \<noteq> None
                    \<and> map_of (es_input_types s) field = source_type p b) (nd_inputs n))"

definition stage_model_ok :: "executable_policy \<Rightarrow> node \<Rightarrow> executable_stage \<Rightarrow> bool" where
  "stage_model_ok p n s =
     ((nd_kind n = KLlm) = (es_prompt s \<noteq> None \<and> es_configuration_id s \<noteq> None)
      \<and> \<not> (nd_kind n \<noteq> KLlm \<and> (es_prompt s \<noteq> None \<or> es_configuration_id s \<noteq> None))
      \<and> (if nd_kind n = KLlm
         then (case es_prompt s of None \<Rightarrow> False
               | Some r \<Rightarrow> (case prompt_by_ref (ep_prompts p) r of None \<Rightarrow> False
                            | Some q \<Rightarrow> dict_eq (pr_variables q) (es_input_types s)))
              \<and> eb_max_model_calls (es_budget s) = eb_max_attempts (es_budget s)
              \<and> eb_max_tool_calls (es_budget s) = 0
         else eb_max_model_calls (es_budget s) = 0))"

definition stage_operation_ok :: "node \<Rightarrow> executable_stage \<Rightarrow> bool" where
  "stage_operation_ok n s =
     (let expected = (if nd_kind n = KTool then [the (nd_tool_id n)] else []) in
        (nd_kind n = KCode) = (es_operation s \<noteq> None)
      \<and> \<not> (nd_kind n = KCode \<and> (\<not> dict_eq (es_input_types s) [(''text'', VtText)]
                                \<or> \<not> dict_eq (es_output_types s) [(''result'', VtText)]))
      \<and> es_allowed_tool_ids s = expected
      \<and> eb_max_tool_calls (es_budget s) = (if expected \<noteq> [] then 1 else 0))"

definition stage_bounds_ok :: "executable_policy \<Rightarrow> executable_stage \<Rightarrow> bool" where
  "stage_bounds_ok p s =
     (let b = es_budget s; w = ep_budget p in
        eb_max_cost b \<le> eb_max_cost w \<and> eb_max_input_tokens b \<le> eb_max_input_tokens w
      \<and> eb_max_output_tokens b \<le> eb_max_output_tokens w \<and> eb_timeout_ms b \<le> eb_timeout_ms w)"

definition stage_ok :: "executable_policy \<Rightarrow> node \<Rightarrow> executable_stage \<Rightarrow> bool" where
  "stage_ok p n s =
     (stage_repairs_ok n s \<and> stage_fallbacks_ok n s
      \<and> \<not> (es_response_format s \<noteq> None \<and> nd_kind n \<noteq> KLlm)
      \<and> nd_kind n \<noteq> KBoundedAgent
      \<and> stage_bindings_ok p n s \<and> stage_model_ok p n s \<and> stage_operation_ok n s
      \<and> stage_bounds_ok p s)"

definition used_prompts :: "executable_policy \<Rightarrow> (string \<times> int) list" where
  "used_prompts p = List.maps (\<lambda>s.
     (case (node_by_id (wf_nodes (ep_workflow p)) (es_node_id s), es_prompt s) of
        (Some n, Some r) \<Rightarrow> if nd_kind n = KLlm then [(vr_id r, vr_version r)] else []
      | _ \<Rightarrow> [])) (ep_stages p)"

definition total_over :: "(execution_budget \<Rightarrow> int) \<Rightarrow> executable_policy \<Rightarrow> int" where
  "total_over f p = sum_list (map (f \<circ> es_budget) (ep_stages p))"

definition executable_bindings :: "executable_policy \<Rightarrow> bool" where
  "executable_bindings p =
     (let w = ep_workflow p; keys = map (\<lambda>q. (pr_id q, pr_version q)) (ep_prompts p) in
        (wf_id w, wf_version w) = (vr_id (ep_plan p), vr_version (ep_plan p))
      \<and> distinct (map es_node_id (ep_stages p))
      \<and> set (map es_node_id (ep_stages p)) = set (map nd_id (wf_nodes w))
      \<and> distinct keys \<and> set (dict_keys (ep_input_types p)) = set (wf_inputs w)
      \<and> list_all (\<lambda>s. case node_by_id (wf_nodes w) (es_node_id s) of None \<Rightarrow> False
                  | Some n \<Rightarrow> stage_ok p n s) (ep_stages p)
      \<and> total_over eb_max_cost p \<le> eb_max_cost (ep_budget p)
      \<and> total_over eb_max_model_calls p \<le> eb_max_model_calls (ep_budget p)
      \<and> total_over eb_max_tool_calls p \<le> eb_max_tool_calls (ep_budget p)
      \<and> set (used_prompts p) = set keys)"

definition valid_policy :: "executable_policy \<Rightarrow> bool" where
  "valid_policy p = (is_identifier (ep_id p) \<and> 1 \<le> ep_version p \<and> valid_ref (ep_plan p)
     \<and> valid_workflow (ep_workflow p) \<and> is_identifier (ep_catalog_id p)
     \<and> is_dict (ep_input_types p)
     \<and> 1 \<le> length (ep_stages p) \<and> length (ep_stages p) \<le> 30
     \<and> list_all valid_stage (ep_stages p)
     \<and> length (ep_prompts p) \<le> 30 \<and> list_all valid_prompt (ep_prompts p)
     \<and> valid_budget (ep_budget p)
     \<and> (case ep_circuit_policy p of None \<Rightarrow> True | Some c \<Rightarrow> valid_circuit c)
     \<and> executable_bindings p)"

end
