(* ===== verification/Chat_Contracts.thy ===== *)
theory Chat_Contracts
  imports Exec_Contracts
begin

text \<open>
  The OpenAI-compatible wire subset of \<open>execution_contracts.py\<close>: chat messages,
  requests with the validator that replays the tool-call history, completions,
  usage and stream chunks.
\<close>

section \<open>Tools and messages\<close>

record tool_definition =
  td_name :: string
  td_description :: "string option"
  td_parameters :: json_schema

datatype tool_choice = TcAuto | TcNone | TcRequired | TcNamed string

record tool_call =
  tc_id :: string
  tc_name :: string
  tc_arguments :: string

datatype role = RSystem | RUser | RAssistant | RTool

record chat_message =
  cm_role :: role
  cm_content :: "string option"
  cm_tool_calls :: "tool_call list option"
  cm_tool_call_id :: "string option"

definition is_call_id :: "string \<Rightarrow> bool" where
  "is_call_id s = (list_all is_word_char s \<and> 1 \<le> length s \<and> length s \<le> 120)"

definition valid_tool_call :: "tool_call \<Rightarrow> bool" where
  "valid_tool_call c = (is_call_id (tc_id c) \<and> is_tool_name (tc_name c)
     \<and> length (tc_arguments c) \<le> 65536)"

definition call_count_ok :: "'a list option \<Rightarrow> bool" where
  "call_count_ok v = (case v of None \<Rightarrow> True | Some cs \<Rightarrow> 1 \<le> length cs \<and> length cs \<le> 8)"

definition calls_of :: "chat_message \<Rightarrow> tool_call list" where
  "calls_of m = (case cm_tool_calls m of None \<Rightarrow> [] | Some cs \<Rightarrow> cs)"

definition role_fields :: "chat_message \<Rightarrow> bool" where
  "role_fields m = (\<not> (cm_role m \<noteq> RAssistant \<and> cm_tool_calls m \<noteq> None)
     \<and> (cm_role m = RTool) = (cm_tool_call_id m \<noteq> None)
     \<and> \<not> (cm_content m = None \<and> calls_of m = []))"

definition valid_message :: "chat_message \<Rightarrow> bool" where
  "valid_message m =
     ((case cm_content m of None \<Rightarrow> True | Some c \<Rightarrow> length c \<le> 16000)
      \<and> call_count_ok (cm_tool_calls m) \<and> list_all valid_tool_call (calls_of m)
      \<and> (case cm_tool_call_id m of None \<Rightarrow> True | Some i \<Rightarrow> is_call_id i)
      \<and> role_fields m)"

section \<open>Requests\<close>

record chat_request =
  cq_model :: string
  cq_messages :: "chat_message list"
  cq_max_tokens :: int
  cq_temperature :: "rat option"
  cq_stream :: bool
  cq_tools :: "tool_definition list option"
  cq_tool_choice :: "tool_choice option"
  cq_response_format :: "response_format option"

definition tools_of :: "chat_request \<Rightarrow> tool_definition list" where
  "tools_of q = (case cq_tools q of None \<Rightarrow> [] | Some ts \<Rightarrow> ts)"

text \<open>
  The replay of the history: the sets \<open>pending\<close> and \<open>seen\<close> of tool-call
  identifiers, None when a check raises.
\<close>

fun replay_calls :: "string list \<Rightarrow> tool_call list \<Rightarrow> string set \<times> string set
    \<Rightarrow> (string set \<times> string set) option" where
  "replay_calls names [] (pending, seen) = Some (pending, seen)"
| "replay_calls names (c # cs) (pending, seen) =
     (if tc_id c \<in> seen \<or> tc_name c \<notin> set names then None
      else replay_calls names cs (insert (tc_id c) pending, insert (tc_id c) seen))"

definition replay_result :: "chat_message \<Rightarrow> string set \<Rightarrow> string set option" where
  "replay_result m pending =
     (if pending \<noteq> {} \<and> cm_role m \<noteq> RTool then None
      else if cm_role m = RTool
      then (case cm_tool_call_id m of None \<Rightarrow> None
            | Some i \<Rightarrow> if i \<notin> pending then None else Some (pending - {i}))
      else Some pending)"

fun replay :: "string list \<Rightarrow> chat_message list \<Rightarrow> string set \<times> string set
    \<Rightarrow> (string set \<times> string set) option" where
  "replay names [] st = Some st"
| "replay names (m # ms) (pending, seen) =
     (case replay_result m pending of None \<Rightarrow> None
      | Some pending' \<Rightarrow>
          (case replay_calls names (calls_of m) (pending', seen) of None \<Rightarrow> None
           | Some st \<Rightarrow> replay names ms st))"

definition history_ok :: "chat_request \<Rightarrow> bool" where
  "history_ok q =
     (case replay (map td_name (tools_of q)) (cq_messages q) ({}, {}) of
        None \<Rightarrow> False | Some (pending, seen) \<Rightarrow> pending = {})"

definition combinations :: "chat_request \<Rightarrow> bool" where
  "combinations q =
     (let names = map td_name (tools_of q) in
        distinct names \<and> \<not> (cq_tool_choice q \<noteq> None \<and> names = [])
      \<and> (case cq_tool_choice q of Some (TcNamed n) \<Rightarrow> n \<in> set names | _ \<Rightarrow> True)
      \<and> (case cq_response_format q of None \<Rightarrow> True
         | Some r \<Rightarrow> \<not> (rf_type r \<noteq> FtText \<and> (cq_stream q \<or> tools_of q \<noteq> [])))
      \<and> history_ok q)"

definition valid_request :: "chat_request \<Rightarrow> bool" where
  "valid_request q = (is_identifier (cq_model q)
     \<and> 1 \<le> length (cq_messages q) \<and> length (cq_messages q) \<le> 32
     \<and> list_all valid_message (cq_messages q)
     \<and> 1 \<le> cq_max_tokens q \<and> cq_max_tokens q \<le> 16384
     \<and> (case cq_temperature q of None \<Rightarrow> True | Some t \<Rightarrow> 0 \<le> t \<and> t \<le> 2)
     \<and> call_count_ok (cq_tools q) \<and> list_all (is_tool_name \<circ> td_name) (tools_of q)
     \<and> (case cq_response_format q of None \<Rightarrow> True | Some r \<Rightarrow> valid_response_format r)
     \<and> combinations q)"

section \<open>Completions\<close>

record completion_usage =
  us_prompt_tokens :: int
  us_completion_tokens :: int
  us_total_tokens :: int

definition valid_usage :: "completion_usage \<Rightarrow> bool" where
  "valid_usage u = (0 \<le> us_prompt_tokens u \<and> 0 \<le> us_completion_tokens u
     \<and> 0 \<le> us_total_tokens u
     \<and> us_total_tokens u = us_prompt_tokens u + us_completion_tokens u)"

datatype finish_reason = FrStop | FrLength | FrContentFilter | FrToolCalls

text \<open>\<open>choices\<close> holds exactly one choice, with index 0.\<close>

record chat_completion =
  cc_id :: string
  cc_created :: int
  cc_model :: string
  cc_content :: "string option"
  cc_tool_calls :: "tool_call list option"
  cc_finish_reason :: finish_reason
  cc_usage :: "completion_usage option"

definition valid_completion :: "chat_completion \<Rightarrow> bool" where
  "valid_completion c = (is_identifier (cc_id c) \<and> 0 \<le> cc_created c \<and> is_identifier (cc_model c)
     \<and> (case cc_content c of None \<Rightarrow> True | Some t \<Rightarrow> length t \<le> 1048576)
     \<and> call_count_ok (cc_tool_calls c)
     \<and> (case cc_tool_calls c of None \<Rightarrow> True | Some cs \<Rightarrow> list_all valid_tool_call cs)
     \<and> (case cc_usage c of None \<Rightarrow> True | Some u \<Rightarrow> valid_usage u))"

section \<open>Stream chunks\<close>

record function_delta =
  fd_name :: "string option"
  fd_arguments :: "string option"

record tool_call_delta =
  tl_index :: int
  tl_id :: "string option"
  tl_function :: "function_delta option"

record completion_delta =
  dl_role :: bool
  dl_content :: "string option"
  dl_tool_calls :: "tool_call_delta list option"

record chunk_choice =
  ch_delta :: completion_delta
  ch_finish_reason :: "finish_reason option"

text \<open>\<open>choices\<close> holds at most one choice.\<close>

record chat_chunk =
  ck_id :: string
  ck_created :: int
  ck_model :: string
  ck_choice :: "chunk_choice option"
  ck_usage :: "completion_usage option"

section \<open>What an accepted history is\<close>

text \<open>All tool-call identifiers of a history, and the identifiers its tool messages
  answer, in order.\<close>

definition issued_ids :: "chat_message list \<Rightarrow> string list" where
  "issued_ids ms = map tc_id (concat (map calls_of ms))"

definition answered_ids :: "chat_message list \<Rightarrow> string list" where
  "answered_ids ms = List.maps (\<lambda>m. if cm_role m = RTool
     then (case cm_tool_call_id m of None \<Rightarrow> [] | Some i \<Rightarrow> [i]) else []) ms"

lemma replay_calls_Some:
  "replay_calls names cs (pending, seen) = Some (pending', seen') \<Longrightarrow>
   pending' = pending \<union> set (map tc_id cs) \<and> seen' = seen \<union> set (map tc_id cs)
   \<and> distinct (map tc_id cs) \<and> set (map tc_id cs) \<inter> seen = {}
   \<and> set (map tc_name cs) \<subseteq> set names"
proof (induction cs arbitrary: pending seen)
  case (Cons c cs)
  have new: "\<not> (tc_id c \<in> seen \<or> tc_name c \<notin> set names)"
    using Cons.prems by (rule contrapos_pn) simp
  with Cons.prems have h: "tc_id c \<notin> seen" "tc_name c \<in> set names"
    "replay_calls names cs (insert (tc_id c) pending, insert (tc_id c) seen)
     = Some (pending', seen')"
    by simp_all
  from Cons.IH [OF h(3)] h(1,2) show ?case by auto
qed simp

lemma replay_Some:
  "replay names ms (pending, seen) = Some (pending', seen') \<Longrightarrow> pending \<subseteq> seen \<Longrightarrow>
   distinct (issued_ids ms) \<and> set (issued_ids ms) \<inter> seen = {}
   \<and> distinct (answered_ids ms)
   \<and> pending' = (pending \<union> set (issued_ids ms)) - set (answered_ids ms)
   \<and> set (answered_ids ms) \<subseteq> pending \<union> set (issued_ids ms)
   \<and> set (map tc_name (concat (map calls_of ms))) \<subseteq> set names"
proof (induction ms arbitrary: pending seen)
  case Nil
  then show ?case by (simp add: issued_ids_def answered_ids_def)
next
  case (Cons m ms)
  obtain p1 p2 s2 where r: "replay_result m pending = Some p1"
    and c: "replay_calls names (calls_of m) (p1, seen) = Some (p2, s2)"
    and rest: "replay names ms (p2, s2) = Some (pending', seen')"
    using Cons.prems(1) by (auto split: option.splits prod.splits)
  note calls = replay_calls_Some [OF c]
  have p1: "p1 = pending - set (answered_ids [m])" "set (answered_ids [m]) \<subseteq> pending"
    by (cases "cm_role m = RTool"; cases "cm_tool_call_id m";
        use r in \<open>simp add: replay_result_def answered_ids_def split: if_split_asm\<close>)+
  have "p2 \<subseteq> s2" using calls p1 Cons.prems(2) by auto
  note IH = Cons.IH [OF rest this]
  have i: "issued_ids (m # ms) = map tc_id (calls_of m) @ issued_ids ms"
    and a: "answered_ids (m # ms) = answered_ids [m] @ answered_ids ms"
    by (simp_all add: issued_ids_def answered_ids_def)
  have d1: "distinct (answered_ids [m])"
    by (simp add: answered_ids_def split: option.splits)
  have new1: "set (map tc_id (calls_of m)) \<inter> set (answered_ids [m]) = {}"
    and new2: "set (issued_ids ms) \<inter> set (answered_ids [m]) = {}"
    and new3: "set (issued_ids ms) \<inter> set (map tc_id (calls_of m)) = {}"
    using calls p1 IH Cons.prems(2) by blast+
  have "set (answered_ids ms) \<inter> set (answered_ids [m]) = {}"
    using IH calls p1 new1 new2 by blast
  then show ?case unfolding i a using IH calls p1 d1 new1 new2 new3 Cons.prems(2) by auto
qed


definition ex_call :: tool_call where
  "ex_call = \<lparr>tc_id = ''c1'', tc_name = ''lookup'', tc_arguments = ''{}''\<rparr>"

definition ex_request :: chat_request where
  "ex_request = \<lparr>cq_model = ''m'', cq_messages =
     [\<lparr>cm_role = RUser, cm_content = Some ''hi'', cm_tool_calls = None, cm_tool_call_id = None\<rparr>,
      \<lparr>cm_role = RAssistant, cm_content = None, cm_tool_calls = Some [ex_call],
       cm_tool_call_id = None\<rparr>,
      \<lparr>cm_role = RTool, cm_content = Some ''42'', cm_tool_calls = None,
       cm_tool_call_id = Some ''c1''\<rparr>],
     cq_max_tokens = 16, cq_temperature = None, cq_stream = False,
     cq_tools = Some [\<lparr>td_name = ''lookup'', td_description = None,
       td_parameters = ex_schema\<rparr>],
     cq_tool_choice = Some TcAuto, cq_response_format = None\<rparr>"


end
