(* ===== verification/Grant_Contracts.thy ===== *)
theory Grant_Contracts
  imports Exec_Contracts
begin

text \<open>
  The records of \<open>execution_contracts.py\<close> and \<open>evidence_contracts.py\<close> that carry
  authority: admissions, transitions, aliases, application keys, credentials,
  grants, endpoints with their prices, and target configurations.
\<close>

section \<open>Admissions and transitions\<close>

definition is_hex_digit :: "char \<Rightarrow> bool" where
  "is_hex_digit c = (let n = (of_char c :: nat) in (48 \<le> n \<and> n \<le> 57) \<or> (97 \<le> n \<and> n \<le> 102))"

definition is_hex :: "nat \<Rightarrow> string \<Rightarrow> bool" where
  "is_hex k s = (length s = k \<and> list_all is_hex_digit s)"

record sandbox_admission =
  sa_id :: string
  sa_tenant_id :: string
  sa_policy :: version_ref
  sa_policy_digest :: string
  sa_configuration_ids :: "string list"
  sa_credential_reference_ids :: "string list"
  sa_allowed_tool_ids :: "string list"
  sa_authorization_reference :: string
  sa_budget_reference :: string
  sa_privacy :: "bool fact"
  sa_license_policy :: "bool fact"
  sa_weights_access :: "bool fact"
  sa_capabilities :: "bool fact"
  sa_spending :: "bool fact"
  sa_expires_at :: int

datatype policy_status = PsDraft | PsSandboxEnabled | PsDisabled

record policy_transition =
  pt_policy :: version_ref
  pt_sequence :: int
  pt_status :: policy_status
  pt_admission_id :: "string option"
  pt_actor_id :: string
  pt_occurred_at :: int

record transition_request =
  tq_expected_sequence :: int
  tq_status :: policy_status
  tq_admission_id :: "string option"

definition valid_transition_request :: "transition_request \<Rightarrow> bool" where
  "valid_transition_request q = (1 \<le> tq_expected_sequence q \<and> tq_status q \<noteq> PsDraft
     \<and> opt_identifier (tq_admission_id q))"

record policy_view =
  vw_policy :: executable_policy
  vw_transition :: policy_transition

record route_alias =
  al_id :: string
  al_policy :: version_ref
  al_node_id :: string
  al_configuration_id :: string
  al_created_at :: int

section \<open>Application keys\<close>

record application_key =
  ak_id :: string
  ak_tenant_id :: string
  ak_prefix :: string
  ak_scopes :: "scope list"
  ak_alias_ids :: "string list"
  ak_workflow_policies :: "version_ref list"
  ak_created_at :: int
  ak_expires_at :: int
  ak_revoked_at :: "int option"

definition is_key_prefix :: "string \<Rightarrow> bool" where
  "is_key_prefix s = (take 4 s = ''bbx_'' \<and> length s = 12 \<and> list_all is_alnum (drop 4 s))"

definition key_dates :: "application_key \<Rightarrow> bool" where
  "key_dates k =
     (\<not> (ak_expires_at k \<le> ak_created_at k
         \<or> (case ak_revoked_at k of None \<Rightarrow> False | Some r \<Rightarrow> r < ak_created_at k))
      \<and> distinct (ak_scopes k) \<and> distinct (ak_alias_ids k))"

definition valid_key :: "application_key \<Rightarrow> bool" where
  "valid_key k = (is_identifier (ak_id k) \<and> is_identifier (ak_tenant_id k)
     \<and> is_key_prefix (ak_prefix k) \<and> ak_scopes k \<noteq> []
     \<and> list_all is_identifier (ak_alias_ids k) \<and> list_all valid_ref (ak_workflow_policies k)
     \<and> key_dates k)"

section \<open>Credentials and grants\<close>

datatype adapter = AdOpenrouter | AdLocalOllama | AdOpenaiCompatible

record credential_reference =
  cr_id :: string
  cr_tenant_id :: string
  cr_adapter_id :: adapter
  cr_secret_reference :: "string option"
  cr_approval_reference :: string
  cr_expires_at :: int

record runtime_grant =
  gr_id :: string
  gr_tenant_id :: string
  gr_configuration_ids :: "string list"
  gr_credential_reference_ids :: "string list"
  gr_allowed_data_classes :: "data_class list"
  gr_budget_reference :: string
  gr_permission_reference :: string
  gr_expires_at :: int

section \<open>Prices, endpoints and targets\<close>

datatype price_unit = PuToken | PuRequest | PuImage | PuSearch | PuUnknown

text \<open>\<open>raw_amount\<close> is a decimal numeral; \<open>Decimal(raw_amount)\<close> is the rational it
  denotes.\<close>

record price_component =
  pc_component :: string
  pc_amount :: rat
  pc_usd :: bool
  pc_unit :: price_unit
  pc_usd_per_million_tokens :: "rat option"

definition finite_price :: "price_component \<Rightarrow> bool" where
  "finite_price p = (\<not> (pc_unit p = PuUnknown \<and> pc_usd p) \<and> 0 \<le> pc_amount p
     \<and> pc_usd_per_million_tokens p
       = (if pc_unit p = PuToken then Some (pc_amount p * 1000000) else None))"

record endpoint =
  en_id :: string
  en_artifact_id :: string
  en_routing_model_id :: string
  en_endpoint_tag :: string
  en_supported_parameters :: "string list fact"
  en_context_tokens :: "int fact"
  en_max_prompt_tokens :: "int fact"
  en_max_completion_tokens :: "int fact"
  en_region :: "string fact"
  en_privacy :: "string fact"
  en_provider_restrictions :: "string fact"
  en_prices :: "price_component list"
  en_conditional_pricing :: "string fact"

definition effective_output_limit :: "endpoint \<Rightarrow> int \<Rightarrow> int option res" where
  "effective_output_limit e input_tokens =
     (if input_tokens < 0 then Inl ValueError
      else Inr (case (fact_value (en_context_tokens e), fact_value (en_max_completion_tokens e),
                      fact_value (en_max_prompt_tokens e)) of
                  (Some context, Some output, Some prompt) \<Rightarrow>
                    if prompt < input_tokens \<or> context \<le> input_tokens then Some 0
                    else Some (min output (context - input_tokens))
                | _ \<Rightarrow> None))"

record local_deployment =
  ld_model_tag :: string
  ld_weights_digest :: "string fact"
  ld_supported_parameters :: "string list fact"
  ld_context_tokens :: "int fact"
  ld_max_output_tokens :: "int fact"
  ld_privacy :: "string fact"

record target =
  tg_configuration :: candidate
  tg_catalog_id :: string
  tg_endpoint :: "endpoint option"
  tg_local :: "local_deployment option"
  tg_observed_run_ids :: "string list"
  tg_limitations :: "string list"
  tg_approved_endpoint_id :: "string option"
  tg_expires_at :: "int option"
  tg_token_envelope_approved :: "bool fact option"

definition target_deployment :: "target \<Rightarrow> bool" where
  "target_deployment t =
     ((tg_endpoint t = None) \<noteq> (tg_local t = None)
      \<and> (case tg_endpoint t of None \<Rightarrow> True
         | Some e \<Rightarrow> en_artifact_id e = cfg_artifact_id (tg_configuration t)
                     \<and> list_all finite_price (en_prices e)))"

lemma effective_output_limit_bounds:
  assumes "effective_output_limit e n = Inr (Some l)" and "0 < m" and "m \<le> l"
  shows "\<exists>context output prompt. fact_value (en_context_tokens e) = Some context
     \<and> fact_value (en_max_completion_tokens e) = Some output
     \<and> fact_value (en_max_prompt_tokens e) = Some prompt
     \<and> m \<le> output \<and> n + m \<le> context \<and> n \<le> prompt"
  using assms by (auto simp: effective_output_limit_def split: if_splits option.splits)

end
