(* ===== verification/Run_Contracts.thy ===== *)
theory Run_Contracts
  imports Grant_Contracts Chat_Contracts
begin

text \<open>
  The records of \<open>execution_contracts.py\<close>, \<open>runtime_contracts.py\<close> and
  \<open>execution_ports.py\<close> that accounts for executions: usage, decision traces,
  attempts, runs, run events, stored outputs, imported samples, queued contexts,
  the request context, and the sum type of what the record table holds.
\<close>

section \<open>Usage, traces, attempts\<close>

datatype usage_state = UsReserved | UsReconciled | UsUncertain

record usage_reconciliation =
  ur_reservation_id :: string
  ur_reserved_micro_usd :: int
  ur_actual_micro_usd :: "int option"
  ur_state :: usage_state
  ur_tokens :: "completion_usage option"
  ur_observed_at :: int

definition valid_usage_record :: "usage_reconciliation \<Rightarrow> bool" where
  "valid_usage_record u = (is_identifier (ur_reservation_id u) \<and> 0 \<le> ur_reserved_micro_usd u
     \<and> (case ur_actual_micro_usd u of None \<Rightarrow> True | Some a \<Rightarrow> 0 \<le> a)
     \<and> (ur_state u = UsReconciled) = (ur_actual_micro_usd u \<noteq> None))"

record decision_trace =
  dt_request_id :: string
  dt_tenant_id :: string
  dt_policy :: version_ref
  dt_transition_sequence :: int
  dt_alias_id :: "string option"
  dt_node_id :: string
  dt_configuration_id :: "string option"
  dt_catalog_id :: string
  dt_prompt :: "version_ref option"
  dt_admission_id :: string
  dt_evidence_ids :: "string list"
  dt_requested_endpoint :: "string option"
  dt_served_model :: "string fact"
  dt_served_endpoint :: "string fact"
  dt_quality :: quality_label
  dt_routing_decision_id :: "string option"
  dt_router_policy_ref :: "version_ref option"
  dt_workflow_version :: "int option"
  dt_catalog_digest :: "string option"
  dt_capability_schema :: "string option"

datatype gateway_error = PartialFailure | AccountingUncertain | InvalidRequestStopped

datatype attempt_status = AtReserved | AtDispatched | AtSucceeded | AtFailed | AtCancelled
  | AtUncertain

datatype recovery = RvFallback | RvRepair

record run_attempt =
  ra_id :: string
  ra_run_id :: string
  ra_node_id :: string
  ra_attempt :: int
  ra_status :: attempt_status
  ra_trace :: decision_trace
  ra_usage :: usage_reconciliation
  ra_output_reference :: "string option"
  ra_error :: "gateway_error option"
  ra_latency_ms :: "int option"
  ra_gateway_overhead_ms :: "int option"
  ra_upstream_ms :: "int option"
  ra_failure_kind :: "failure_kind option"
  ra_fallback_reason :: "failure_kind option"
  ra_recovery_action :: "recovery option"
  ra_validation :: "validation_observation list"

section \<open>Runs and events\<close>

datatype run_status = RsQueued | RsRunning | RsAwaitingApproval | RsSucceeded | RsFailed
  | RsCancelled | RsUncertain

record sandbox_run =
  rn_id :: string
  rn_policy :: version_ref
  rn_status :: run_status
  rn_created_at :: int
  rn_attempt_ids :: "string list"
  rn_output_reference :: "string option"
  rn_quality :: quality_label

record run_request =
  rq_policy :: version_ref
  rq_inputs :: "json dict"
  rq_sample_reference :: "string option"

datatype event_body = EvStatus sandbox_run | EvUsage usage_reconciliation | EvError gateway_error

record run_event =
  ev_run_id :: string
  ev_sequence :: int
  ev_body :: event_body

definition valid_event :: "run_event \<Rightarrow> bool" where
  "valid_event e = (is_identifier (ev_run_id e) \<and> 1 \<le> ev_sequence e
     \<and> (case ev_body e of EvStatus r \<Rightarrow> ev_run_id e = rn_id r | _ \<Rightarrow> True))"

section \<open>Private payloads\<close>

record stored_output =
  so_id :: string
  so_run_id :: string
  so_node_id :: string
  so_value :: json
  so_created_at :: int
  so_expires_at :: int

abbreviation micros :: "int \<Rightarrow> int" where
  "micros seconds \<equiv> seconds * 1000000"

definition output_retention :: "stored_output \<Rightarrow> bool" where
  "output_retention v = (let d = so_expires_at v - so_created_at v in
     0 < d \<and> d \<le> micros (30 * 86400))"

datatype processing = PrLocalOnly | PrApprovedHosted

record imported_sample =
  is_id :: string
  is_inputs :: "json dict"
  is_expected_output :: "json option"
  is_observed_output :: "json option"
  is_source_label :: string
  is_imported_at :: int
  is_data_class :: data_class
  is_processing :: processing
  is_retention_days :: int
  is_output_schema :: "json_schema option"
  is_expected_reviewed :: bool

definition sample_bounded :: "(imported_sample \<Rightarrow> nat) \<Rightarrow> imported_sample \<Rightarrow> bool" where
  "sample_bounded dump_bytes v = (dump_bytes v \<le> 65536
     \<and> \<not> (is_expected_reviewed v \<and> is_expected_output v = None)
     \<and> 1 \<le> is_retention_days v \<and> is_retention_days v \<le> 30)"

section \<open>Requests in flight\<close>

record queued_context =
  qc_tenant_id :: string
  qc_principal_id :: string
  qc_request_id :: string
  qc_idempotency_key :: string
  qc_deadline :: int
  qc_application_key :: "application_key option"

text \<open>
  \<open>RequestContext\<close>.  \<open>check_cancelled\<close> is a callback of the caller; here it is the
  value it would raise, read again at each call.
\<close>

record request_context =
  cx_tenant_id :: string
  cx_principal_id :: string
  cx_request_id :: string
  cx_idempotency_key :: string
  cx_deadline :: int
  cx_application_key :: "application_key option"

record inference_result =
  ir_completion :: chat_completion
  ir_actual_micro_usd :: "int option"
  ir_usage :: "completion_usage option"
  ir_trace :: decision_trace

section \<open>Comparisons and outcomes\<close>

record comparison_request =
  cmp_sample_ids :: "string list"
  cmp_policies :: "version_ref list"
  cmp_budget :: execution_budget

definition comparison_distinct :: "comparison_request \<Rightarrow> bool" where
  "comparison_distinct c = (distinct (cmp_sample_ids c)
     \<and> distinct (map (\<lambda>p. (vr_id p, vr_version p)) (cmp_policies c))
     \<and> 1 \<le> length (cmp_sample_ids c) \<and> length (cmp_sample_ids c) \<le> 20
     \<and> 2 \<le> length (cmp_policies c) \<and> length (cmp_policies c) \<le> 4
     \<and> valid_budget (cmp_budget c))"

datatype cell_status = CsNotRun | CsCompleted | CsFailed | CsBlocked

record comparison_cell =
  cl_sample_id :: string
  cl_policy :: version_ref
  cl_run_id :: "string option"
  cl_status :: cell_status
  cl_output_reference :: "string option"
  cl_attempt_usages :: "usage_reconciliation list"

record comparison_result =
  cx_cmp_id :: string
  cx_cmp_request :: comparison_request
  cx_cmp_cells :: "comparison_cell list"

record execution_outcome =
  eo_run_id :: string
  eo_policy :: version_ref
  eo_catalog_id :: string
  eo_decision_id :: "string option"
  eo_status :: run_status
  eo_validation_passed :: "bool option"
  eo_failed_validations :: int
  eo_attempt_count :: int
  eo_attempt_latency_ms :: "int option"
  eo_known_cost_micro_usd :: int
  eo_unknown_cost_attempts :: int
  eo_fallback_count :: int
  eo_repair_count :: int
  eo_synthetic :: bool

section \<open>What a record holds\<close>

text \<open>
  A row of \<open>sandbox_records\<close> carries the JSON of one contract; reading it back
  validates it against the class its kind names, which gives the value written.
  The payload is therefore the value itself, tagged by its class.
\<close>

datatype payload =
    PlPolicy executable_policy
  | PlTransition policy_transition
  | PlAdmission sandbox_admission
  | PlAlias route_alias
  | PlKey application_key
  | PlPrompt prompt_revision
  | PlRun sandbox_run
  | PlAttempt run_attempt
  | PlTrace decision_trace
  | PlEvent run_event
  | PlQueuedContext queued_context
  | PlComparison comparison_result
  | PlOutcome execution_outcome

datatype private_payload = PpRunRequest run_request | PpOutput stored_output
  | PpSample imported_sample

end
