(* ===== verification/Security.thy ===== *)
theory Security
  imports Run_Contracts
begin

text \<open>
  \<open>execution_security.py\<close>: the deterministic guards.  A guard that denies raises
  \<open>DomainError(UNSUPPORTED, 403)\<close>; it returns nothing otherwise.  \<open>dumps_bytes\<close> is
  the length of \<open>json.dumps(values, allow_nan=False).encode()\<close>, None when it raises;
  \<open>digest\<close> is the policy digest of \<open>execution_contracts.py\<close>.
\<close>

definition denied :: "'a res" where
  "denied = err UNSUPPORTED 403"

definition deny_if :: "bool \<Rightarrow> unit res" where
  "deny_if b = (if b then denied else ok ())"

lemma deny_if_ok [simp]: "deny_if b = Inr u \<longleftrightarrow> \<not> b"
  by (simp add: deny_if_def denied_def)

lemma deny_if_simps [simp]: "deny_if True = denied" "deny_if False = Inr ()"
  by (simp_all add: deny_if_def)

lemma denied_not_ok [simp]: "denied \<noteq> Inr x" "Inr x \<noteq> denied"
  by (simp_all add: denied_def)

lemma rbind_denied [simp]: "rbind denied f = denied"
  by (simp add: denied_def)

text \<open>Guards in sequence: the first that denies decides.\<close>

fun guards :: "unit res list \<Rightarrow> unit res" where
  "guards [] = ok ()"
| "guards (g # gs) = rbind g (\<lambda>_. guards gs)"

lemma guards_ok [simp]: "guards gs = Inr u \<longleftrightarrow> list_all is_ok gs"
  by (induction gs) (auto simp: rbind_Inr_iff is_ok_iff)

declare guards.simps [simp del]

section \<open>Typed inputs\<close>

definition value_has_type :: "value_type \<Rightarrow> json \<Rightarrow> bool" where
  "value_has_type t v = (case t of
     VtText \<Rightarrow> (case v of JStr _ \<Rightarrow> True | _ \<Rightarrow> False)
   | VtBoolean \<Rightarrow> (case v of JBool _ \<Rightarrow> True | _ \<Rightarrow> False)
   | VtNumber \<Rightarrow> (case v of JInt _ \<Rightarrow> True | JFloat _ \<Rightarrow> True | _ \<Rightarrow> False)
   | VtJson \<Rightarrow> True)"

definition bounded_json :: "(json dict \<Rightarrow> nat option) \<Rightarrow> json dict \<Rightarrow> bool" where
  "bounded_json dumps_bytes values =
     (case dumps_bytes values of None \<Rightarrow> False | Some n \<Rightarrow> n \<le> 65536)"

definition validate_inputs :: "(json dict \<Rightarrow> nat option) \<Rightarrow> value_type dict \<Rightarrow> json dict
    \<Rightarrow> unit res" where
  "validate_inputs dumps_bytes types values =
     guards
       [deny_if (\<not> bounded_json dumps_bytes values),
        deny_if (set (dict_keys types) \<noteq> set (dict_keys values)),
        deny_if (\<not> list_all (\<lambda>(field, kind). case map_of values field of None \<Rightarrow> False
                     | Some v \<Rightarrow> value_has_type kind v) types)]"

section \<open>Aliases and admissions\<close>

definition validate_alias :: "executable_policy \<Rightarrow> route_alias \<Rightarrow> unit res" where
  "validate_alias p a =
     guards
       [deny_if ((ep_id p, ep_version p) \<noteq> (vr_id (al_policy a), vr_version (al_policy a))),
        (case List.find (\<lambda>s. es_node_id s = al_node_id a) (ep_stages p) of
           None \<Rightarrow> denied
         | Some s \<Rightarrow> deny_if (es_configuration_id s \<noteq> Some (al_configuration_id a)))]"

definition stage_configurations :: "executable_stage \<Rightarrow> string list" where
  "stage_configurations s =
     (case es_configuration_id s of None \<Rightarrow> [] | Some c \<Rightarrow> if c = [] then [] else [c])
     @ es_fallback_configuration_ids s"

definition policy_configurations :: "executable_policy \<Rightarrow> string list" where
  "policy_configurations p = concat (map stage_configurations (ep_stages p))"

definition policy_tools :: "executable_policy \<Rightarrow> string list" where
  "policy_tools p = concat (map es_allowed_tool_ids (ep_stages p))"

definition admission_facts :: "sandbox_admission \<Rightarrow> bool fact list" where
  "admission_facts a = [sa_privacy a, sa_license_policy a, sa_weights_access a,
     sa_capabilities a, sa_spending a]"

definition operational_kind :: "prov_kind \<Rightarrow> bool" where
  "operational_kind k = (k = PObserved \<or> k = PDocumented)"

definition check_fact :: "bool \<Rightarrow> bool fact \<Rightarrow> unit res" where
  "check_fact allow_synthetic f =
     guards
       [deny_if (fact_value f \<noteq> Some True \<or> prov_evidence_ids (fact_prov f) = []),
        deny_if (\<not> allow_synthetic \<and> \<not> operational_kind (prov_kind (fact_prov f)))]"

definition validate_admission :: "(executable_policy \<Rightarrow> string) \<Rightarrow> string \<Rightarrow> executable_policy
    \<Rightarrow> sandbox_admission \<Rightarrow> int \<Rightarrow> bool \<Rightarrow> unit res" where
  "validate_admission digest tenant p a now allow_synthetic =
     guards
       [deny_if (sa_tenant_id a \<noteq> tenant \<or> sa_expires_at a \<le> now),
        deny_if ((vr_id (sa_policy a), vr_version (sa_policy a)) \<noteq> (ep_id p, ep_version p)
                 \<or> sa_policy_digest a \<noteq> digest p),
        deny_if (set (policy_configurations p) \<noteq> set (sa_configuration_ids a)
                 \<or> set (policy_tools p) \<noteq> set (sa_allowed_tool_ids a)),
        guards (map (check_fact allow_synthetic) (admission_facts a))]"

definition authorize_sandbox :: "(executable_policy \<Rightarrow> string) \<Rightarrow> string \<Rightarrow> executable_policy
    \<Rightarrow> policy_transition \<Rightarrow> sandbox_admission \<Rightarrow> int \<Rightarrow> bool \<Rightarrow> unit res" where
  "authorize_sandbox digest tenant p t a now allow_synthetic =
     guards
       [deny_if (pt_status t \<noteq> PsSandboxEnabled \<or> pt_admission_id t \<noteq> Some (sa_id a)
                 \<or> pt_policy t \<noteq> sa_policy a),
        validate_admission digest tenant p a now allow_synthetic]"

section \<open>Application keys\<close>

definition authorize_application_key :: "string \<Rightarrow> application_key \<Rightarrow> scope \<Rightarrow> int
    \<Rightarrow> string option \<Rightarrow> executable_policy option \<Rightarrow> unit res" where
  "authorize_application_key tenant k sc now alias policy =
     guards
       [deny_if (ak_tenant_id k \<noteq> tenant \<or> ak_revoked_at k \<noteq> None \<or> ak_expires_at k \<le> now
                 \<or> now < ak_created_at k \<or> sc \<notin> set (ak_scopes k)),
        (case alias of None \<Rightarrow> ok () | Some a \<Rightarrow> deny_if (a \<notin> set (ak_alias_ids k))),
        (case policy of None \<Rightarrow> ok ()
         | Some p \<Rightarrow> deny_if (\<not> list_ex (\<lambda>r. (vr_id r, vr_version r) = (ep_id p, ep_version p))
                                  (ak_workflow_policies k)))]"

section \<open>What the guards let through\<close>

lemma is_ok_deny_if [simp]: "is_ok (deny_if b) \<longleftrightarrow> \<not> b"
  by (simp add: is_ok_iff)

lemma is_ok_denied [simp]: "\<not> is_ok denied"
  by (simp add: denied_def)

lemma is_ok_guards [simp]: "is_ok (guards gs) \<longleftrightarrow> list_all is_ok gs"
  by (simp add: is_ok_iff [of "guards gs"])

lemma validate_inputs_ok:
  "validate_inputs dumps_bytes types values = Inr u \<longleftrightarrow>
     bounded_json dumps_bytes values \<and> set (dict_keys types) = set (dict_keys values)
     \<and> (\<forall>(field, kind) \<in> set types.
          \<exists>v. map_of values field = Some v \<and> value_has_type kind v)"
  by (simp add: validate_inputs_def lookups_all)

lemma check_fact_ok:
  "is_ok (check_fact syn f) \<longleftrightarrow> fact_value f = Some True \<and> prov_evidence_ids (fact_prov f) \<noteq> []
     \<and> (syn \<or> operational_kind (prov_kind (fact_prov f)))"
  by (auto simp: check_fact_def)


end
