(* ===== verification/Tables.thy ===== *)
theory Tables
  imports Prelude
begin

text \<open>
  SQL as the code uses it.  A table is the list of its rows in insertion order.
  \<open>insert_row\<close> is INSERT under a primary key and the further CHECK, UNIQUE and
  FOREIGN KEY constraints of the migration; \<open>update_rows\<close> and \<open>delete_rows\<close> return
  the row count the code compares with 1; \<open>upsert_row\<close> is INSERT ... ON CONFLICT DO
  NOTHING; \<open>sql_max\<close> is \<open>SELECT MAX(...)\<close> with the \<open>or 0\<close> that follows it.  Every
  statement that belongs to one \<open>engine.begin()\<close> block is run inside \<open>transact\<close>.

  The locale \<open>append_only\<close> is the contract of a table of immutable versioned
  records, which its clients rely on: a value once stored is what every later
  lookup returns, whatever is appended in between.
\<close>

section \<open>Rows\<close>

definition upd_where :: "('r \<Rightarrow> bool) \<Rightarrow> ('r \<Rightarrow> 'r) \<Rightarrow> 'r list \<Rightarrow> 'r list" where
  "upd_where p f rows = map (\<lambda>r. if p r then f r else r) rows"

definition count_where :: "('r \<Rightarrow> bool) \<Rightarrow> 'r list \<Rightarrow> nat" where
  "count_where p rows = length (filter p rows)"

definition insert_row :: "('r \<Rightarrow> 'k) \<Rightarrow> ('r list \<Rightarrow> bool) \<Rightarrow> 'r \<Rightarrow> 'r list \<Rightarrow> unit res \<times> 'r list" where
  "insert_row key constraints r rows =
     (if constraints rows \<and> key r \<notin> set (map key rows) then (ok (), rows @ [r])
      else (Inl IntegrityError, rows))"

definition upsert_row :: "('r \<Rightarrow> 'k) \<Rightarrow> 'r \<Rightarrow> 'r list \<Rightarrow> unit res \<times> 'r list" where
  "upsert_row key r rows =
     (ok (), if key r \<in> set (map key rows) then rows else rows @ [r])"

definition update_rows :: "('r \<Rightarrow> bool) \<Rightarrow> ('r \<Rightarrow> 'r) \<Rightarrow> 'r list \<Rightarrow> nat res \<times> 'r list" where
  "update_rows p f rows = (ok (count_where p rows), upd_where p f rows)"

definition delete_rows :: "('r \<Rightarrow> bool) \<Rightarrow> 'r list \<Rightarrow> nat res \<times> 'r list" where
  "delete_rows p rows = (ok (count_where p rows), filter (\<lambda>r. \<not> p r) rows)"

text \<open>A statement on one table of the database.\<close>

definition on_table :: "('s \<Rightarrow> 't) \<Rightarrow> ('t \<Rightarrow> 's \<Rightarrow> 's) \<Rightarrow> ('t \<Rightarrow> 'a res \<times> 't) \<Rightarrow> ('s, 'a) op" where
  "on_table get put f s = (case f (get s) of (r, t) \<Rightarrow> (r, put t s))"

definition sql_max :: "int list \<Rightarrow> int" where
  "sql_max vs = (case vs of [] \<Rightarrow> 0 | v # ws \<Rightarrow> fold max ws v)"

definition scalar :: "'r list \<Rightarrow> 'r option" where
  "scalar rows = (case rows of [] \<Rightarrow> None | r # _ \<Rightarrow> Some r)"

text \<open>\<open>except IntegrityError: raise DomainError(CONFLICT, 409)\<close>.\<close>

definition conflict_on_integrity :: "('s, 'a) op \<Rightarrow> ('s, 'a) op" where
  "conflict_on_integrity m =
     catchM m (\<lambda>e. if e = IntegrityError then throw (DomainError CONFLICT 409) else throw e)"

section \<open>Facts about rows\<close>

lemma upd_where_simps [simp]:
  "upd_where p f [] = []"
  "upd_where p f (r # rows) = (if p r then f r else r) # upd_where p f rows"
  by (simp_all add: upd_where_def)

lemma upd_where_append [simp]: "upd_where p f (xs @ ys) = upd_where p f xs @ upd_where p f ys"
  by (simp add: upd_where_def)

lemma length_upd_where [simp]: "length (upd_where p f rows) = length rows"
  by (simp add: upd_where_def)

lemma set_upd_where: "set (upd_where p f rows) = (\<lambda>r. if p r then f r else r) ` set rows"
  by (simp add: upd_where_def)

lemma upd_where_id [simp]: "upd_where p (\<lambda>r. r) rows = rows"
  by (induction rows) auto

lemma upd_where_none: "(\<And>r. r \<in> set rows \<Longrightarrow> \<not> p r) \<Longrightarrow> upd_where p f rows = rows"
  by (induction rows) auto

lemma map_upd_where:
  "(\<And>r. r \<in> set rows \<Longrightarrow> p r \<Longrightarrow> g (f r) = g r) \<Longrightarrow> map g (upd_where p f rows) = map g rows"
  by (induction rows) auto

lemma upd_where_all:
  assumes "\<forall>r \<in> set rows. Q r" and "\<And>r. r \<in> set rows \<Longrightarrow> p r \<Longrightarrow> Q r \<Longrightarrow> Q (f r)"
  shows "\<forall>r \<in> set (upd_where p f rows). Q r"
  using assms by (auto simp: set_upd_where)

lemma count_where_simps [simp]:
  "count_where p [] = 0"
  "count_where p (r # rows) = (if p r then 1 else 0) + count_where p rows"
  by (simp_all add: count_where_def)

lemma count_where_append [simp]: "count_where p (xs @ ys) = count_where p xs + count_where p ys"
  by (simp add: count_where_def)

lemma count_where_0: "count_where p rows = 0 \<longleftrightarrow> (\<forall>r \<in> set rows. \<not> p r)"
  by (simp add: count_where_def filter_empty_conv)

lemma count_where_le_1:
  assumes "distinct (map key rows)" and "\<And>r. p r \<Longrightarrow> key r = k"
  shows "count_where p rows \<le> 1"
  using assms(1)
proof (induction rows)
  case (Cons r rows)
  have "count_where p rows = 0" if "p r"
    using Cons.prems assms(2) that by (fastforce simp: count_where_0)
  then show ?case using Cons by auto
qed simp

lemma count_where_1_row:
  assumes "distinct (map key rows)" and "\<And>r. p r \<Longrightarrow> key r = k" and "count_where p rows = 1"
  obtains r where "r \<in> set rows" "p r" "\<And>q. q \<in> set rows \<Longrightarrow> p q \<Longrightarrow> q = r"
proof -
  from assms(3) obtain r where r: "r \<in> set rows" "p r"
    by (metis count_where_0 zero_neq_one)
  moreover have "q = r" if "q \<in> set rows" "p q" for q
    using that r assms(1,2) by (metis distinct_map inj_on_def)
  ultimately show ?thesis using that by blast
qed

text \<open>Sums over a table when one row changes.\<close>

lemma sum_upd_where:
  "(\<Sum>r\<leftarrow>upd_where p f rows. (g r :: int))
     = (\<Sum>r\<leftarrow>rows. g r) + (\<Sum>r\<leftarrow>filter p rows. g (f r) - g r)"
  by (induction rows) auto

lemma key_unique:
  "distinct (map key rows) \<Longrightarrow> a \<in> set rows \<Longrightarrow> b \<in> set rows \<Longrightarrow> key a = key b \<Longrightarrow> a = b"
  by (metis distinct_map inj_onD)

lemma filter_key:
  assumes "distinct (map key rows)" and "r \<in> set rows"
  shows "filter (\<lambda>q. key q = key r) rows = [r]"
  using assms
proof (induction rows)
  case (Cons q rows)
  show ?case
  proof (cases "r = q")
    case True
    then have "filter (\<lambda>s. key s = key r) rows = []"
      using Cons.prems True by (auto simp: filter_empty_conv) (metis image_eqI)
    then show ?thesis using True by simp
  next
    case False
    then have "key q \<noteq> key r" using Cons.prems by (auto simp: image_iff)
    then show ?thesis using Cons False by auto
  qed
qed simp

lemma scalar_simps [simp]: "scalar [] = None" "scalar (r # rows) = Some r"
  by (simp_all add: scalar_def)

lemma scalar_in: "scalar (filter p rows) = Some r \<Longrightarrow> r \<in> set rows \<and> p r"
  by (cases "filter p rows") (auto simp: filter_eq_Cons_iff)

lemma scalar_None: "scalar (filter p rows) = None \<longleftrightarrow> (\<forall>r \<in> set rows. \<not> p r)"
  by (cases "filter p rows") (auto simp: filter_empty_conv filter_eq_Cons_iff)

lemma scalar_key:
  "distinct (map key rows) \<Longrightarrow> r \<in> set rows \<Longrightarrow> scalar (filter (\<lambda>q. key q = key r) rows) = Some r"
  by (simp add: filter_key)

lemma fold_max: "fold max (ws :: int list) v = Max (set (v # ws))"
  by (rule Max.set_eq_fold [symmetric])

lemma sql_max_Max: "sql_max vs = (if vs = [] then 0 else Max (set vs))"
  by (cases vs) (simp_all add: sql_max_def fold_max)

lemma sql_max_ge: "v \<in> set vs \<Longrightarrow> v \<le> sql_max vs"
  by (auto simp: sql_max_Max)

lemma sql_max_in: "vs \<noteq> [] \<Longrightarrow> sql_max vs \<in> set vs"
  using Max_in [of "set vs"] by (simp add: sql_max_Max)

lemma sql_max_cong: "set xs = set ys \<Longrightarrow> sql_max xs = sql_max ys"
  by (cases xs; cases ys) (simp_all add: sql_max_Max)

lemma sql_max_insert: "0 \<le> v \<Longrightarrow> (\<And>x. x \<in> set vs \<Longrightarrow> 0 \<le> x) \<Longrightarrow> sql_max (vs @ [v]) = max (sql_max vs) v"
  by (cases "vs = []") (simp_all add: sql_max_Max max.commute)

section \<open>Statements run\<close>

lemma on_table_ok_iff:
  "on_table get put f s = (Inr x, s') \<longleftrightarrow> (\<exists>t. f (get s) = (Inr x, t) \<and> s' = put t s)"
  by (auto simp: on_table_def split: prod.splits)

lemma insert_row_ok_iff [simp]:
  "insert_row key c r rows = (Inr u, t) \<longleftrightarrow> c rows \<and> key r \<notin> key ` set rows \<and> t = rows @ [r]"
  by (auto simp: insert_row_def)

lemma upsert_row_ok_iff [simp]:
  "upsert_row key r rows = (Inr u, t) \<longleftrightarrow>
     t = (if key r \<in> key ` set rows then rows else rows @ [r])"
  by (auto simp: upsert_row_def)

lemma update_rows_ok_iff [simp]:
  "update_rows p f rows = (Inr n, t) \<longleftrightarrow> n = count_where p rows \<and> t = upd_where p f rows"
  by (auto simp: update_rows_def)

lemma delete_rows_ok_iff [simp]:
  "delete_rows p rows = (Inr n, t) \<longleftrightarrow> n = count_where p rows \<and> t = filter (\<lambda>r. \<not> p r) rows"
  by (auto simp: delete_rows_def)

lemma catchM_ok_iff:
  "catchM m h s = (Inr x, t) \<longleftrightarrow>
     m s = (Inr x, t) \<or> (\<exists>e s'. m s = (Inl e, s') \<and> h e s' = (Inr x, t))"
  by (auto simp: catchM_def split: prod.splits sum.splits)

lemma conflict_ok_iff [simp]:
  "conflict_on_integrity m s = (Inr x, t) \<longleftrightarrow> m s = (Inr x, t)"
  by (auto simp: conflict_on_integrity_def catchM_ok_iff split: if_splits)

lemma conflict_state [simp]: "snd (conflict_on_integrity m s) = snd (m s)"
  by (simp add: conflict_on_integrity_def catchM_def split: prod.split sum.split)

lemma conflict_no_integrity: "conflict_on_integrity m s \<noteq> (Inl IntegrityError, t)"
  by (auto simp: conflict_on_integrity_def catchM_def split: prod.splits sum.splits if_splits)

context effect_order
begin

lemma rel_on_table:
  "(\<And>s r t. f (get s) = (r, t) \<Longrightarrow> R s (put t s)) \<Longrightarrow> relates R (on_table get put f)"
  by (simp add: relates_def on_table_def split: prod.split)

lemma rel_conflict: "relates R m \<Longrightarrow> relates R (conflict_on_integrity m)"
  by (simp add: relates_def)

end

lemma pres_conflict: "preserves P m \<Longrightarrow> preserves P (conflict_on_integrity m)"
  by (simp add: preserves_def relates_def)

lemma pres_on_table:
  "(\<And>s r t. P s \<Longrightarrow> f (get s) = (r, t) \<Longrightarrow> P (put t s)) \<Longrightarrow> preserves P (on_table get put f)"
  by (simp add: preserves_def relates_def on_table_def split: prod.split)

text \<open>
  An operation in a transaction keeps an invariant when its successful runs do:
  a run that raises is rolled back.
\<close>

lemma pres_transact_ok:
  "(\<And>s x t. P s \<Longrightarrow> m s = (Inr x, t) \<Longrightarrow> P t) \<Longrightarrow> preserves P (transact m)"
  by (rule preservesI) (auto simp: transact_def split: prod.split sum.split)

lemma relates_transact_ok:
  "(\<And>s. R s s) \<Longrightarrow> (\<And>s x t. m s = (Inr x, t) \<Longrightarrow> R s t) \<Longrightarrow> relates R (transact m)"
  by (rule relatesI) (auto simp: transact_def split: prod.split sum.split)

section \<open>Frames\<close>

text \<open>\<open>keeps part m\<close>: \<open>m\<close> does not change the part of the state that \<open>part\<close> reads.\<close>

definition keeps :: "('s \<Rightarrow> 'v) \<Rightarrow> ('s, 'a) op \<Rightarrow> bool" where
  "keeps part m = relates (\<lambda>s t. part t = part s) m"

interpretation kp: effect_order "\<lambda>s t. part t = part s" for part :: "'s \<Rightarrow> 'v"
  by unfold_locales auto

lemma keeps_on_table:
  "(\<And>s t. part (put t s) = part s) \<Longrightarrow> keeps part (on_table get put f)"
  by (simp add: keeps_def relates_def on_table_def split: prod.split)

lemma keepsD: "keeps part m \<Longrightarrow> part (snd (m s)) = part s"
  by (simp add: keeps_def relates_def)

lemma keeps_run: "keeps part m \<Longrightarrow> m s = (r, t) \<Longrightarrow> part t = part s"
  using keepsD [of part m s] by simp

lemma keeps_pres:
  "keeps part m \<Longrightarrow> (\<And>s t. part t = part s \<Longrightarrow> P s \<Longrightarrow> P t) \<Longrightarrow> preserves P m"
  by (rule preservesI) (auto dest: keepsD)

lemma keeps_relates:
  "keeps part m \<Longrightarrow> (\<And>s t. part t = part s \<Longrightarrow> R s t) \<Longrightarrow> relates R m"
  by (rule relatesI) (auto dest: keepsD)

lemma transact_state: "snd (transact m s) = s \<or> snd (transact m s) = snd (m s)"
  by (auto simp: transact_def split: prod.split sum.split)

text \<open>An atomic operation leaves the state alone when it raises.\<close>

definition atomic :: "('s, 'a) op \<Rightarrow> bool" where
  "atomic m = (\<forall>s e t. m s = (Inl e, t) \<longrightarrow> t = s)"

lemma atomicD: "atomic m \<Longrightarrow> m s = (Inl e, t) \<Longrightarrow> t = s"
  by (simp add: atomic_def)

lemma atomic_transact: "atomic (transact m)"
  by (auto simp: atomic_def dest: transact_err)

lemma atomic_conflict: "atomic m \<Longrightarrow> atomic (conflict_on_integrity m)"
  unfolding atomic_def
  by (auto simp: conflict_on_integrity_def catchM_def split: prod.splits sum.splits if_splits)

lemma atomic_guard: "atomic m \<Longrightarrow> atomic (thenM (guardM b e) m)"
  by (auto simp: atomic_def guard_then split: if_splits)

lemmas atomic_rules = atomic_guard atomic_conflict atomic_transact

lemma atomic_pres:
  "atomic m \<Longrightarrow> (\<And>s x t. P s \<Longrightarrow> m s = (Inr x, t) \<Longrightarrow> P t) \<Longrightarrow> preserves P m"
proof (rule preservesI)
  fix s assume a: "atomic m" "\<And>s x t. P s \<Longrightarrow> m s = (Inr x, t) \<Longrightarrow> P t" "P s"
  obtain r t where "m s = (r, t)" by (cases "m s")
  then show "P (snd (m s))" using a by (cases r) (auto dest: atomicD)
qed

lemmas keeps_rules = kp.rel_rules [folded keeps_def] kp.rel_conflict [folded keeps_def]

section \<open>Immutable versioned records\<close>

locale append_only =
  fixes look :: "'s \<Rightarrow> 'k \<Rightarrow> 'v option"
    and app :: "'k \<Rightarrow> 'v \<Rightarrow> ('s, unit) op"
  assumes app_new: "app k v s = (Inr u, t) \<Longrightarrow> look t k = Some v"
    and app_keeps: "look s k' = Some v' \<Longrightarrow> look (snd (app k v s)) k' = Some v'"
    and app_same: "look s k = Some v \<Longrightarrow> app k v s = (Inr (), s)"
    and app_other: "look s k = Some v' \<Longrightarrow> v' \<noteq> v \<Longrightarrow> app k v s = (Inl (DomainError CONFLICT 409), s)"
    and app_only: "k' \<noteq> k \<Longrightarrow> look (snd (app k v s)) k' = look s k'"
begin

definition grows :: "'s \<Rightarrow> 's \<Rightarrow> bool" where
  "grows s t \<longleftrightarrow> (\<forall>k v. look s k = Some v \<longrightarrow> look t k = Some v)"

lemma grows_refl: "grows s s"
  and grows_trans: "grows s t \<Longrightarrow> grows t u \<Longrightarrow> grows s u"
  by (auto simp: grows_def)

lemma app_grows: "relates grows (app k v)"
  by (simp add: relates_def grows_def app_keeps)

text \<open>Storing the same value twice is one store, and the second never conflicts.\<close>

lemma app_idempotent: "app k v s = (Inr u, t) \<Longrightarrow> app k v t = (Inr (), t)"
  by (blast intro: app_same app_new)

text \<open>Two writers of the same version with different values: the later one is refused.\<close>

lemma app_conflict:
  "app k v s = (Inr u, t) \<Longrightarrow> v' \<noteq> v \<Longrightarrow> app k v' t = (Inl (DomainError CONFLICT 409), t)"
  by (metis app_new app_other)

end

end
