(* ===== verification/Planning_Storage.thy ===== *)
theory Planning_Storage
  imports Tables Catalog
begin

text \<open>
  \<open>storage.py\<close> and \<open>planning_storage.py\<close>: the tables of revisions 1 and 2 of the
  schema (records, jobs, submissions, provider calls, approval budgets) and every
  method that reads or writes them.  \<open>time.time()\<close>, \<open>uuid4().hex\<close> and the SHA-256
  digests of canonical JSON are arguments.  \<open>PlanInput\<close> keeps the edited workflow,
  the one field the storage inspects, and the JSON of its other fields.

  Two guarantees are proved over every sequence of these methods: an approval's
  held amount never passes its cap and is exactly what its provider calls
  reserved, and a planning job that has reserved a paid call is never leased a
  second time.
\<close>

section \<open>Jobs, plans and results\<close>

datatype job_status = JsQueued | JsRunning | JsSucceeded | JsFailed | JsCancelled | JsUncertain

datatype job_operation = JoRecommendation | JoPlanning

datatype accounting = AcNotStarted | AcReserved | AcKnown | AcUncertain

record job =
  jb_id :: string
  jb_workflow_id :: string
  jb_workflow_version :: int
  jb_status :: job_status
  jb_operation :: job_operation
  jb_served_configuration :: "json dict"
  jb_phase :: string
  jb_progress :: "string list"
  jb_reserved_usd :: rat
  jb_accounted_usd :: "rat option"
  jb_accounting :: accounting
  jb_attempts :: int
  jb_recommendation_id :: "string option"
  jb_error :: "error_code option"
  jb_created_at :: int
  jb_updated_at :: int

text \<open>\<open>Job(...)\<close> with the defaults of the class.\<close>

definition new_job :: "string \<Rightarrow> string \<Rightarrow> int \<Rightarrow> job_status \<Rightarrow> string \<Rightarrow> int \<Rightarrow> job" where
  "new_job i workflow version status phase now =
     \<lparr> jb_id = i, jb_workflow_id = workflow, jb_workflow_version = version, jb_status = status,
       jb_operation = JoPlanning, jb_served_configuration = [], jb_phase = phase,
       jb_progress = [], jb_reserved_usd = 0, jb_accounted_usd = None,
       jb_accounting = AcNotStarted, jb_attempts = 0, jb_recommendation_id = None,
       jb_error = None, jb_created_at = now, jb_updated_at = now \<rparr>"

record plan_input =
  pi_edited_workflow :: "workflow option"
  pi_rest :: json

record plan_version =
  pn_id :: string
  pn_version :: int
  pn_input :: plan_input
  pn_input_hash :: string

datatype result_status = PxNeedsClarification | PxBlocked | PxProvisional | PxDeterministic

record planning_result =
  px_plan_id :: string
  px_version :: int
  px_workflow :: "workflow option"
  px_catalog :: "catalog option"
  px_recommendation :: "recommendation option"
  px_status :: result_status
  px_fixture :: bool

definition exact_versions :: "planning_result \<Rightarrow> bool" where
  "exact_versions r =
     ((case px_workflow r of None \<Rightarrow> True
       | Some w \<Rightarrow> (wf_id w, wf_version w) = (px_plan_id r, px_version r))
      \<and> (case px_recommendation r of None \<Rightarrow> True
         | Some c \<Rightarrow> (rc_workflow_id c, rc_workflow_version c) = (px_plan_id r, px_version r)))"

record plan_view =
  pw_plan :: plan_version
  pw_latest_version :: int
  pw_stale :: bool
  pw_job :: job
  pw_result :: "planning_result option"

section \<open>The tables\<close>

datatype stored = StPlan plan_version | StResult planning_result | StWorkflow workflow
  | StRecommendation recommendation | StCatalog catalog | StJson json

record stored_row =
  st_kind :: string
  st_id :: string
  st_version :: int
  st_owner :: string
  st_payload :: stored

record job_row =
  jr_id :: string
  jr_owner :: string
  jr_status :: job_status
  jr_updated_at :: int
  jr_attempts :: int
  jr_payload :: job

record submission_row =
  sb_owner :: string
  sb_request_key :: string
  sb_input_hash :: string
  sb_plan_id :: string
  sb_version :: int
  sb_job_id :: string

datatype call_state = ClReserved | ClKnown | ClUncertain

record call_row =
  cl_id :: string
  cl_owner :: string
  cl_job_id :: string
  cl_role :: string
  cl_approval_id :: string
  cl_state :: call_state
  cl_reserved :: int
  cl_actual :: "int option"

record approval_row =
  ap_id :: string
  ap_cap :: int
  ap_held :: int

record plan_db =
  pd_records :: "stored_row list"
  pd_jobs :: "job_row list"
  pd_submissions :: "submission_row list"
  pd_calls :: "call_row list"
  pd_approvals :: "approval_row list"

definition empty_plan_db :: plan_db where
  "empty_plan_db = \<lparr> pd_records = [], pd_jobs = [], pd_submissions = [], pd_calls = [],
     pd_approvals = [] \<rparr>"

definition stored_key :: "stored_row \<Rightarrow> string \<times> string \<times> int" where
  "stored_key r = (st_kind r, st_id r, st_version r)"

definition submission_key :: "submission_row \<Rightarrow> string \<times> string" where
  "submission_key r = (sb_owner r, sb_request_key r)"

abbreviation on_stored where
  "on_stored \<equiv> on_table pd_records (\<lambda>t s. s\<lparr> pd_records := t \<rparr>)"
abbreviation on_jobs where
  "on_jobs \<equiv> on_table pd_jobs (\<lambda>t s. s\<lparr> pd_jobs := t \<rparr>)"
abbreviation on_submissions where
  "on_submissions \<equiv> on_table pd_submissions (\<lambda>t s. s\<lparr> pd_submissions := t \<rparr>)"
abbreviation on_calls where
  "on_calls \<equiv> on_table pd_calls (\<lambda>t s. s\<lparr> pd_calls := t \<rparr>)"
abbreviation on_approvals where
  "on_approvals \<equiv> on_table pd_approvals (\<lambda>t s. s\<lparr> pd_approvals := t \<rparr>)"

definition insert_stored :: "string \<Rightarrow> string \<Rightarrow> int \<Rightarrow> string \<Rightarrow> stored \<Rightarrow> (plan_db, unit) op" where
  "insert_stored kind i version owner payload =
     on_stored (insert_row stored_key (\<lambda>_. 0 < version)
       \<lparr> st_kind = kind, st_id = i, st_version = version, st_owner = owner,
         st_payload = payload \<rparr>)"

definition insert_job :: "string \<Rightarrow> job \<Rightarrow> (plan_db, unit) op" where
  "insert_job owner j = on_jobs (insert_row jr_id (\<lambda>_. True)
     \<lparr> jr_id = jb_id j, jr_owner = owner, jr_status = jb_status j,
       jr_updated_at = jb_updated_at j, jr_attempts = jb_attempts j, jr_payload = j \<rparr>)"

definition insert_submission :: "submission_row \<Rightarrow> (plan_db, unit) op" where
  "insert_submission r = on_submissions (insert_row submission_key (\<lambda>_. True) r)"

text \<open>\<open>UPDATE jobs SET status, updated_at, attempts, payload WHERE p\<close>.\<close>

definition write_job :: "(job_row \<Rightarrow> bool) \<Rightarrow> job \<Rightarrow> (plan_db, nat) op" where
  "write_job p j = on_jobs (update_rows p (\<lambda>r. r\<lparr> jr_status := jb_status j,
     jr_updated_at := jb_updated_at j, jr_attempts := jb_attempts j, jr_payload := j \<rparr>))"

section \<open>Records\<close>

definition put :: "string \<Rightarrow> string \<Rightarrow> string \<Rightarrow> stored \<Rightarrow> int \<Rightarrow> (plan_db, unit) op" where
  "put owner kind i payload version = conflict_on_integrity (transact (
     bindM (getsM (\<lambda>s. map_option st_owner
              (scalar (filter (\<lambda>r. st_kind r = kind \<and> st_id r = i) (pd_records s)))))
       (\<lambda>existing. thenM
          (guardM (case existing of None \<Rightarrow> True | Some e \<Rightarrow> e = owner) (DomainError NOT_FOUND 404))
          (insert_stored kind i version owner payload))))"

definition find_stored :: "string \<Rightarrow> string \<Rightarrow> string \<Rightarrow> int \<Rightarrow> plan_db \<Rightarrow> stored option" where
  "find_stored owner kind i version s = map_option st_payload (scalar
     (filter (\<lambda>r. st_kind r = kind \<and> st_id r = i \<and> st_version r = version \<and> st_owner r = owner)
        (pd_records s)))"

definition get_stored :: "string \<Rightarrow> string \<Rightarrow> string \<Rightarrow> int \<Rightarrow> plan_db \<Rightarrow> stored res" where
  "get_stored owner kind i version s =
     (case find_stored owner kind i version s of None \<Rightarrow> err NOT_FOUND 404 | Some v \<Rightarrow> ok v)"

section \<open>Jobs\<close>

definition enqueue :: "string \<Rightarrow> job \<Rightarrow> (plan_db, unit) op" where
  "enqueue owner j = transact (insert_job owner j)"

definition get_job :: "string \<Rightarrow> string \<Rightarrow> plan_db \<Rightarrow> job res" where
  "get_job owner i s =
     (case scalar (filter (\<lambda>r. jr_id r = i \<and> jr_owner r = owner) (pd_jobs s)) of
        None \<Rightarrow> err NOT_FOUND 404 | Some r \<Rightarrow> ok (jr_payload r))"

definition lease :: int where
  "lease = 60000000"

definition claimable :: "int \<Rightarrow> job_row \<Rightarrow> bool" where
  "claimable now r = (jr_status r = JsQueued
     \<or> (jr_status r = JsRunning \<and> jr_updated_at r < now - lease))"

definition next_claimable :: "int \<Rightarrow> plan_db \<Rightarrow> job_row option" where
  "next_claimable now s = scalar (sort_key jr_updated_at (filter (claimable now) (pd_jobs s)))"

definition calls_of :: "string \<Rightarrow> string \<Rightarrow> plan_db \<Rightarrow> call_row list" where
  "calls_of owner j s = filter (\<lambda>c. cl_job_id c = j \<and> cl_owner c = owner) (pd_calls s)"

definition claim_row :: "int \<Rightarrow> job_row \<Rightarrow> plan_db \<Rightarrow> (string \<times> job) option res \<times> plan_db" where
  "claim_row now row s =
     (let old = jr_payload row;
          same = (\<lambda>r. jr_id r = jb_id old \<and> jr_status r = jb_status old
                       \<and> jr_attempts r = jb_attempts old) in
      if jb_operation old = JoPlanning \<and> jb_attempts old \<noteq> 0
         \<and> calls_of (jr_owner row) (jb_id old) s \<noteq> [] then
        thenM (write_job same (old\<lparr> jb_status := JsUncertain,
                 jb_phase := ''requires_reconciliation'', jb_accounting := AcUncertain,
                 jb_updated_at := now, jb_error := Some UNSUPPORTED \<rparr>)) (ret None) s
      else if 3 \<le> jb_attempts old then
        thenM (write_job same (old\<lparr> jb_status := JsFailed, jb_updated_at := now,
                 jb_error := Some INTERNAL \<rparr>)) (ret None) s
      else
        let claimed = old\<lparr> jb_status := JsRunning, jb_attempts := jb_attempts old + 1,
                           jb_updated_at := now \<rparr> in
        bindM (write_job same claimed)
          (\<lambda>n. ret (if n \<noteq> 1 then None else Some (jr_owner row, claimed))) s)"

definition claim :: "int \<Rightarrow> (plan_db, (string \<times> job) option) op" where
  "claim now = transact (\<lambda>s. case next_claimable now s of
     None \<Rightarrow> ret None s | Some row \<Rightarrow> claim_row now row s)"

definition leased_by :: "string \<Rightarrow> job \<Rightarrow> job_row \<Rightarrow> bool" where
  "leased_by owner j r = (jr_id r = jb_id j \<and> jr_owner r = owner \<and> jr_status r = JsRunning
     \<and> jr_attempts r = jb_attempts j)"

definition lost_lease :: "nat \<Rightarrow> (plan_db, unit) op" where
  "lost_lease n = guardM (n = 1) (DomainError CONFLICT 409)"

definition finish_recommendation :: "int \<Rightarrow> string \<Rightarrow> job \<Rightarrow> recommendation \<Rightarrow> catalog
    \<Rightarrow> (plan_db, unit) op" where
  "finish_recommendation now owner j r c =
     (let finished = j\<lparr> jb_status := JsSucceeded, jb_recommendation_id := Some (rc_id r),
                        jb_updated_at := now \<rparr> in
      transact (thenM (bindM (write_job (leased_by owner j) finished) lost_lease)
        (thenM (insert_stored ''recommendation'' (rc_id r) 1 owner (StRecommendation r))
               (insert_stored ''catalog'' (rc_id r) 1 owner (StCatalog c)))))"

definition fail :: "int \<Rightarrow> string \<Rightarrow> job \<Rightarrow> (plan_db, unit) op" where
  "fail now owner j = transact (thenM
     (write_job (leased_by owner j)
        (j\<lparr> jb_status := JsFailed, jb_updated_at := now, jb_error := Some INTERNAL \<rparr>))
     (ret ()))"

section \<open>Plans\<close>

definition plan_versions :: "string \<Rightarrow> string \<Rightarrow> plan_db \<Rightarrow> int list" where
  "plan_versions owner i s = map st_version
     (filter (\<lambda>r. st_kind r = ''plan'' \<and> st_id r = i \<and> st_owner r = owner) (pd_records s))"

definition scalar_one :: "'r list \<Rightarrow> 'r res" where
  "scalar_one rows = (case rows of [] \<Rightarrow> Inl NoResultFound | [r] \<Rightarrow> Inr r
     | _ \<Rightarrow> Inl MultipleResultsFound)"

text \<open>\<open>X.model_validate_json\<close> of a stored payload: the value, if it is an X.\<close>

definition as_plan :: "stored \<Rightarrow> plan_version res" where
  "as_plan v = (case v of StPlan p \<Rightarrow> ok p | _ \<Rightarrow> Inl ValueError)"

definition as_result :: "stored \<Rightarrow> planning_result res" where
  "as_result v = (case v of StResult p \<Rightarrow> ok p | _ \<Rightarrow> Inl ValueError)"

definition plan_view :: "string \<Rightarrow> string \<Rightarrow> int \<Rightarrow> plan_db \<Rightarrow> plan_view res" where
  "plan_view owner i version s =
     rbind (rbind (get_stored owner ''plan'' i version s) as_plan) (\<lambda>plan.
     let latest = sql_max (plan_versions owner i s) in
     rbind (scalar_one (map sb_job_id (filter (\<lambda>r. sb_owner r = owner \<and> sb_plan_id r = i
              \<and> sb_version r = version) (pd_submissions s)))) (\<lambda>job_id.
     rbind (get_job owner job_id s) (\<lambda>j.
     rbind (if jb_status j = JsSucceeded
            then rbind (rbind (get_stored owner ''planning_result'' (jb_id j) 1 s) as_result)
                   (\<lambda>r. ok (Some r))
            else ok None) (\<lambda>result.
     ok \<lparr> pw_plan = plan, pw_latest_version = latest, pw_stale = (version \<noteq> latest),
          pw_job = j, pw_result = result \<rparr>))))"

definition viewM :: "string \<Rightarrow> string \<Rightarrow> int \<Rightarrow> (plan_db, plan_view) op" where
  "viewM owner i version = bindM (getsM (plan_view owner i version)) liftM"

definition insert_workflow :: "string \<Rightarrow> planning_result \<Rightarrow> (plan_db, unit) op" where
  "insert_workflow owner r = (case px_workflow r of None \<Rightarrow> ret ()
     | Some w \<Rightarrow> insert_stored ''workflow'' (wf_id w) (wf_version w) owner (StWorkflow w))"

definition publish_deterministic :: "int \<Rightarrow> string \<Rightarrow> (plan_input \<Rightarrow> string) \<Rightarrow> string \<Rightarrow> plan_input
    \<Rightarrow> planning_result \<Rightarrow> (plan_db, plan_view) op" where
  "publish_deterministic now uuid input_digest owner value r =
     (let j = new_job uuid (px_plan_id r) (px_version r) JsSucceeded ''deterministic_local'' now;
          h = input_digest value;
          plan = \<lparr> pn_id = px_plan_id r, pn_version = px_version r, pn_input = value,
                   pn_input_hash = h \<rparr> in
      thenM (transact
        (thenM (insert_stored ''plan'' (px_plan_id r) (px_version r) owner (StPlan plan))
        (thenM (insert_stored ''planning_result'' uuid 1 owner (StResult r))
        (thenM (insert_workflow owner r)
        (thenM (insert_job owner j)
          (insert_submission \<lparr> sb_owner = owner, sb_request_key = uuid, sb_input_hash = h,
             sb_plan_id = px_plan_id r, sb_version = px_version r, sb_job_id = uuid \<rparr>))))))
      (viewM owner (px_plan_id r) (px_version r)))"

definition pending_jobs :: "string \<Rightarrow> plan_db \<Rightarrow> nat" where
  "pending_jobs owner s = count_where
     (\<lambda>r. jr_owner r = owner \<and> jr_status r \<in> {JsQueued, JsRunning}) (pd_jobs s)"

definition next_version :: "string \<Rightarrow> string option \<Rightarrow> int option \<Rightarrow> plan_db \<Rightarrow> int res" where
  "next_version owner plan_id prior s = (case plan_id of None \<Rightarrow> ok 1
     | Some i \<Rightarrow> (case plan_versions owner i s of [] \<Rightarrow> err NOT_FOUND 404
         | vs \<Rightarrow> if Some (sql_max vs) \<noteq> prior then err CONFLICT 409 else ok (sql_max vs + 1)))"

definition find_submission :: "string \<Rightarrow> string \<Rightarrow> plan_db \<Rightarrow> submission_row option" where
  "find_submission owner key s = scalar
     (filter (\<lambda>r. sb_owner r = owner \<and> sb_request_key r = key) (pd_submissions s))"

definition new_submission :: "int \<Rightarrow> string \<Rightarrow> string \<Rightarrow> string \<Rightarrow> string \<Rightarrow> string \<Rightarrow> plan_input
    \<Rightarrow> string option \<Rightarrow> int option \<Rightarrow> (plan_db, string \<times> int) op" where
  "new_submission now new_plan new_job_id h owner key value plan_id prior =
     thenM (bindM (getsM (pending_jobs owner)) (\<lambda>n. guardM (n < 4) (DomainError CONFLICT 429)))
     (bindM (bindM (getsM (next_version owner plan_id prior)) liftM) (\<lambda>version.
      let chosen = (case plan_id of None \<Rightarrow> new_plan | Some i \<Rightarrow> if i = [] then new_plan else i) in
      thenM (guardM (case pi_edited_workflow value of None \<Rightarrow> True
               | Some w \<Rightarrow> wf_id w = chosen \<and> wf_version w = version) (DomainError INVALID 422))
      (thenM (insert_stored ''plan'' chosen version owner (StPlan
                \<lparr> pn_id = chosen, pn_version = version, pn_input = value, pn_input_hash = h \<rparr>))
      (thenM (insert_job owner (new_job new_job_id chosen version JsQueued ''queued'' now))
      (thenM (insert_submission \<lparr> sb_owner = owner, sb_request_key = key, sb_input_hash = h,
                sb_plan_id = chosen, sb_version = version, sb_job_id = new_job_id \<rparr>)
        (ret (chosen, version)))))))"

definition submit :: "int \<Rightarrow> string \<Rightarrow> string \<Rightarrow> (plan_input \<Rightarrow> string option \<Rightarrow> int option \<Rightarrow> string)
    \<Rightarrow> string \<Rightarrow> string \<Rightarrow> plan_input \<Rightarrow> string option \<Rightarrow> int option \<Rightarrow> (plan_db, plan_view) op" where
  "submit now new_plan new_job_id digest owner key value plan_id prior =
     (let h = digest value plan_id prior in
      bindM (conflict_on_integrity (transact
        (bindM (getsM (find_submission owner key)) (\<lambda>old. case old of
           Some r \<Rightarrow> thenM (guardM (sb_input_hash r = h) (DomainError CONFLICT 409))
                       (ret (sb_plan_id r, sb_version r))
         | None \<Rightarrow> new_submission now new_plan new_job_id h owner key value plan_id prior))))
      (\<lambda>(chosen, version). viewM owner chosen version))"

text \<open>\<open>update_job(owner, job, **changes)\<close>: \<open>changes\<close> is what the keywords do to the job.\<close>

definition update_job :: "int \<Rightarrow> string \<Rightarrow> job \<Rightarrow> (job \<Rightarrow> job) \<Rightarrow> (plan_db, job) op" where
  "update_job now owner j changes =
     (let updated = (changes j)\<lparr> jb_updated_at := now \<rparr> in
      thenM (transact (bindM
        (on_jobs (update_rows (\<lambda>r. jr_id r = jb_id j \<and> jr_owner r = owner
              \<and> jr_status r = jb_status j \<and> jr_attempts r = jb_attempts j)
           (\<lambda>r. r\<lparr> jr_status := jb_status updated, jr_updated_at := now, jr_payload := updated \<rparr>)))
        lost_lease)) (ret updated))"

definition cancel :: "int \<Rightarrow> string \<Rightarrow> string \<Rightarrow> int \<Rightarrow> (plan_db, plan_view) op" where
  "cancel now owner i version =
     bindM (viewM owner i version) (\<lambda>v.
     thenM (if jb_status (pw_job v) \<in> {JsQueued, JsRunning}
            then thenM (update_job now owner (pw_job v) (\<lambda>j. j\<lparr> jb_status := JsCancelled,
                    jb_phase := ''cancelled'',
                    jb_accounting := (if jb_accounting j = AcReserved then AcUncertain
                                      else jb_accounting j) \<rparr>)) (ret ())
            else ret ())
       (viewM owner i version))"

definition status_phase :: "result_status \<Rightarrow> string" where
  "status_phase s = (case s of PxNeedsClarification \<Rightarrow> ''needs_clarification''
     | PxBlocked \<Rightarrow> ''blocked'' | PxProvisional \<Rightarrow> ''provisional''
     | PxDeterministic \<Rightarrow> ''deterministic'')"

definition complete_planning :: "int \<Rightarrow> string \<Rightarrow> job \<Rightarrow> planning_result \<Rightarrow> (plan_db, unit) op" where
  "complete_planning now owner j value =
     thenM (guardM ((px_plan_id value, px_version value) = (jb_workflow_id j, jb_workflow_version j))
              (DomainError CONFLICT 409))
     (transact
       (thenM (bindM (write_job (leased_by owner j) (j\<lparr> jb_status := JsSucceeded,
                  jb_phase := status_phase (px_status value), jb_updated_at := now \<rparr>)) lost_lease)
       (thenM (insert_stored ''planning_result'' (jb_id j) 1 owner (StResult value))
       (thenM (insert_workflow owner value)
         (case (px_recommendation value, px_catalog value) of
            (Some r, Some c) \<Rightarrow>
              thenM (insert_stored ''recommendation'' (rc_id r) 1 owner (StRecommendation r))
                    (insert_stored ''catalog'' (rc_id r) 1 owner (StCatalog c))
          | _ \<Rightarrow> ret ())))))"

section \<open>Paid calls\<close>

definition reserved_by :: "string \<Rightarrow> string \<Rightarrow> plan_db \<Rightarrow> int" where
  "reserved_by owner j s = sum_list (map cl_reserved (calls_of owner j s))"

definition reserve_call :: "string \<Rightarrow> string \<Rightarrow> job \<Rightarrow> string \<Rightarrow> string \<Rightarrow> int \<Rightarrow> int \<Rightarrow> int option
    \<Rightarrow> (plan_db, string) op" where
  "reserve_call uuid owner j role approval amount cap candidate_cap =
     thenM (guardM (\<not> (amount \<le> 0 \<or> cap < amount)) (DomainError UNSUPPORTED 400))
     (transact
       (thenM (bindM (on_jobs (update_rows (leased_by owner j) (\<lambda>r. r))) lost_lease)
       (thenM (bindM (getsM (reserved_by owner (jb_id j))) (\<lambda>used.
                 guardM (used + amount \<le> (case candidate_cap of None \<Rightarrow> cap | Some c \<Rightarrow> c))
                   (DomainError UNSUPPORTED 400)))
       (thenM (on_approvals (upsert_row ap_id \<lparr> ap_id = approval, ap_cap = cap, ap_held = 0 \<rparr>))
       (thenM (bindM (on_approvals (update_rows
                   (\<lambda>r. ap_id r = approval \<and> ap_cap r = cap \<and> ap_held r + amount \<le> ap_cap r)
                   (\<lambda>r. r\<lparr> ap_held := ap_held r + amount \<rparr>)))
                 (\<lambda>n. guardM (n = 1) (DomainError UNSUPPORTED 400)))
       (thenM (on_calls (insert_row cl_id (\<lambda>_. True)
                 \<lparr> cl_id = uuid, cl_owner = owner, cl_job_id = jb_id j, cl_role = role,
                   cl_approval_id = approval, cl_state = ClReserved, cl_reserved = amount,
                   cl_actual = None \<rparr>))
         (ret uuid)))))))"

definition settle_call :: "string \<Rightarrow> int option \<Rightarrow> (plan_db, unit) op" where
  "settle_call i actual = transact (thenM
     (on_calls (update_rows (\<lambda>r. cl_id r = i \<and> cl_state r = ClReserved)
        (\<lambda>r. r\<lparr> cl_state := (if actual = None then ClUncertain else ClKnown),
               cl_actual := actual \<rparr>)))
     (ret ()))"

definition has_uncertain_call :: "string \<Rightarrow> job \<Rightarrow> plan_db \<Rightarrow> bool" where
  "has_uncertain_call owner j s =
     list_ex (\<lambda>c. cl_state c \<in> {ClReserved, ClUncertain}) (calls_of owner (jb_id j) s)"

definition safe_failure :: "int \<Rightarrow> string \<Rightarrow> job \<Rightarrow> bool \<Rightarrow> (plan_db, unit) op" where
  "safe_failure now owner j uncertain = thenM
     (update_job now owner j (\<lambda>j. j\<lparr> jb_status := (if uncertain then JsUncertain else JsFailed),
        jb_phase := (if uncertain then ''requires_reconciliation'' else ''failed''),
        jb_error := Some UNSUPPORTED,
        jb_accounting := (if uncertain then AcUncertain else jb_accounting j) \<rparr>))
     (ret ())"

end
