(* ===== verification/Planning_Safety.thy ===== *)
theory Planning_Safety
  imports Planning_Storage
begin

text \<open>
  Safety of the planning storage over every sequence of its methods: the step
  relation \<open>plan_step\<close> runs any of them with any arguments (a worker's job being a
  copy of a stored one), and the invariants are proved by rule induction.
\<close>

lemmas run_ok = bindM_ok_iff thenM_ok_iff on_table_ok_iff lost_lease_def

section \<open>What successful calls do\<close>

definition call_row_of :: "string \<Rightarrow> string \<Rightarrow> job \<Rightarrow> string \<Rightarrow> string \<Rightarrow> int \<Rightarrow> call_row" where
  "call_row_of uuid owner j role approval amount =
     \<lparr> cl_id = uuid, cl_owner = owner, cl_job_id = jb_id j, cl_role = role,
       cl_approval_id = approval, cl_state = ClReserved, cl_reserved = amount, cl_actual = None \<rparr>"

definition with_approval :: "string \<Rightarrow> int \<Rightarrow> approval_row list \<Rightarrow> approval_row list" where
  "with_approval approval cap rows =
     (if approval \<in> ap_id ` set rows then rows
      else rows @ [\<lparr> ap_id = approval, ap_cap = cap, ap_held = 0 \<rparr>])"

definition has_room :: "string \<Rightarrow> int \<Rightarrow> int \<Rightarrow> approval_row \<Rightarrow> bool" where
  "has_room approval cap amount r =
     (ap_id r = approval \<and> ap_cap r = cap \<and> ap_held r + amount \<le> ap_cap r)"

lemma reserve_call_ok:
  assumes "reserve_call uuid owner j role approval amount cap cc s = (Inr i, t)"
  shows "0 < amount" "amount \<le> cap"
    "count_where (leased_by owner j) (pd_jobs s) = 1"
    "reserved_by owner (jb_id j) s + amount \<le> (case cc of None \<Rightarrow> cap | Some c \<Rightarrow> c)"
    "count_where (has_room approval cap amount) (with_approval approval cap (pd_approvals s)) = 1"
    "uuid \<notin> cl_id ` set (pd_calls s)"
    "t = s\<lparr> pd_approvals := upd_where (has_room approval cap amount)
              (\<lambda>r. r\<lparr> ap_held := ap_held r + amount \<rparr>)
              (with_approval approval cap (pd_approvals s)),
            pd_calls := pd_calls s @ [call_row_of uuid owner j role approval amount] \<rparr>"
  using assms
  by (auto simp: reserve_call_def run_ok with_approval_def has_room_def [abs_def]
      call_row_of_def)

section \<open>Frames\<close>

text \<open>Everything but \<open>reserve_call\<close> and \<open>settle_call\<close> leaves the paid tables alone.\<close>

definition same_paid :: "plan_db \<Rightarrow> plan_db \<Rightarrow> bool" where
  "same_paid s t = (pd_calls t = pd_calls s \<and> pd_approvals t = pd_approvals s)"

interpretation paid: effect_order same_paid
  by unfold_locales (auto simp: same_paid_def)

lemma paid_tables:
  "relates same_paid (on_stored f)" "relates same_paid (on_jobs g)"
  "relates same_paid (on_submissions h)"
  by (rule paid.rel_on_table, simp add: same_paid_def)+

lemmas paid_rules = paid.rel_rules paid.rel_conflict paid_tables

lemma paid_inserts:
  "relates same_paid (insert_stored k i v ow p)" "relates same_paid (insert_job ow j)"
  "relates same_paid (insert_submission r)" "relates same_paid (write_job q j)"
  "relates same_paid (insert_workflow ow res)"
  by (auto simp: insert_stored_def insert_job_def insert_submission_def write_job_def
      insert_workflow_def intro!: paid_rules)

lemma paid_view: "relates same_paid (viewM ow i v)"
  by (auto simp: viewM_def intro!: paid_rules)

lemma paid_lost: "relates same_paid (lost_lease n)"
  by (auto simp: lost_lease_def intro!: paid_rules)

lemma paid_claim_row: "relates same_paid (claim_row now row)"
proof (rule relatesI)
  fix s
  show "same_paid s (snd (claim_row now row s))"
    unfolding claim_row_def Let_def
    by (simp only: if_distrib [where f = snd] if_distrib [where f = "same_paid s"])
      (auto simp: thenM_run bindM_run write_job_def on_table_def update_rows_def same_paid_def)
qed

lemma paid_claim: "relates same_paid (claim now)"
  unfolding claim_def
proof (rule paid.rel_transact, rule relatesI)
  fix s
  show "same_paid s (snd (case next_claimable now s of None \<Rightarrow> ret None s
      | Some row \<Rightarrow> claim_row now row s))"
    using paid_claim_row [of now] by (cases "next_claimable now s")
      (auto simp: relates_def same_paid_def)
qed

lemma paid_methods:
  "relates same_paid (put ow k i p v)"
  "relates same_paid (enqueue ow j)"
  "relates same_paid (finish_recommendation now ow j r c)"
  "relates same_paid (fail now ow j)"
  "relates same_paid (publish_deterministic now u h ow inp res)"
  "relates same_paid (update_job now ow j ch)"
  "relates same_paid (complete_planning now ow j res)"
  by (auto simp: put_def enqueue_def finish_recommendation_def fail_def
      publish_deterministic_def update_job_def complete_planning_def Let_def
      intro!: paid_rules paid_inserts paid_view paid_lost split: option.split)

lemma paid_submit: "relates same_paid (submit now np nj dg ow key inp pid prior)"
  unfolding submit_def new_submission_def Let_def
  by (intro paid_rules paid_inserts paid_view paid_lost)

section \<open>Steps\<close>

text \<open>A worker holds jobs it read from the table.\<close>

definition knows :: "string \<Rightarrow> job \<Rightarrow> plan_db \<Rightarrow> bool" where
  "knows owner j s = list_ex (\<lambda>r. jr_id r = jb_id j \<and> jr_owner r = owner
     \<and> jb_operation (jr_payload r) = jb_operation j) (pd_jobs s)"

text \<open>The keyword changes of the callers never touch the identity of a job, its
  attempt count or its operation, and never start a job.\<close>

definition plain_change :: "(job \<Rightarrow> job) \<Rightarrow> bool" where
  "plain_change ch = (\<forall>j. jb_id (ch j) = jb_id j \<and> jb_attempts (ch j) = jb_attempts j
     \<and> jb_operation (ch j) = jb_operation j
     \<and> jb_status (ch j) \<in> {jb_status j, JsFailed, JsCancelled, JsUncertain})"

inductive plan_step :: "plan_db \<Rightarrow> plan_db \<Rightarrow> bool" where
  put: "plan_step s (snd (put ow k i p v s))"
| enqueue: "jb_status j = JsQueued \<Longrightarrow> jb_attempts j = 0 \<Longrightarrow> plan_step s (snd (enqueue ow j s))"
| claim: "plan_step s (snd (claim now s))"
| finish: "knows ow j s \<Longrightarrow> plan_step s (snd (finish_recommendation now ow j r c s))"
| fail: "knows ow j s \<Longrightarrow> plan_step s (snd (fail now ow j s))"
| publish: "plan_step s (snd (publish_deterministic now u h ow inp res s))"
| submit: "plan_step s (snd (submit now np nj dg ow key inp pid prior s))"
| update: "knows ow j s \<Longrightarrow> plain_change ch \<Longrightarrow> plan_step s (snd (update_job now ow j ch s))"
| complete: "knows ow j s \<Longrightarrow> plan_step s (snd (complete_planning now ow j res s))"
| reserve: "knows ow j s \<Longrightarrow> jb_operation j = JoPlanning
    \<Longrightarrow> plan_step s (snd (reserve_call u ow j role ap amount cap cc s))"
| settle: "plan_step s (snd (settle_call i actual s))"

inductive plan_reachable :: "plan_db \<Rightarrow> bool" where
  start: "plan_reachable empty_plan_db"
| step: "plan_reachable s \<Longrightarrow> plan_step s t \<Longrightarrow> plan_reachable t"

section \<open>The approval ledger\<close>

definition reserved_for :: "string \<Rightarrow> call_row list \<Rightarrow> int" where
  "reserved_for approval calls = (\<Sum>c\<leftarrow>calls. if cl_approval_id c = approval then cl_reserved c else 0)"

definition held_exact :: "call_row list \<Rightarrow> approval_row \<Rightarrow> bool" where
  "held_exact calls a = (ap_held a \<le> ap_cap a \<and> ap_held a = reserved_for (ap_id a) calls)"

definition approval_ledger :: "approval_row list \<Rightarrow> call_row list \<Rightarrow> bool" where
  "approval_ledger as calls = (distinct (map ap_id as) \<and> list_all (held_exact calls) as
     \<and> list_all (\<lambda>c. 0 < cl_reserved c \<and> cl_approval_id c \<in> ap_id ` set as) calls)"

definition approvals_sound :: "plan_db \<Rightarrow> bool" where
  "approvals_sound s = approval_ledger (pd_approvals s) (pd_calls s)"

lemma reserved_for_simps [simp]:
  "reserved_for a [] = 0"
  "reserved_for a (xs @ ys) = reserved_for a xs + reserved_for a ys"
  "reserved_for a [c] = (if cl_approval_id c = a then cl_reserved c else 0)"
  by (simp_all add: reserved_for_def)

lemma reserved_for_none: "a \<notin> cl_approval_id ` set calls \<Longrightarrow> reserved_for a calls = 0"
  by (induction calls) (auto simp: reserved_for_def)

lemma approvals_same_paid: "same_paid s t \<Longrightarrow> approvals_sound s \<Longrightarrow> approvals_sound t"
  by (simp add: same_paid_def approvals_sound_def)

lemma with_approval_ledger:
  assumes "approval_ledger as calls" and "0 \<le> cap"
  shows "approval_ledger (with_approval a cap as) calls"
proof (cases "a \<in> ap_id ` set as")
  case True
  then show ?thesis using assms by (simp add: with_approval_def)
next
  case False
  then have "reserved_for a calls = 0"
    using assms(1) by (intro reserved_for_none) (auto simp: approval_ledger_def list_all_iff)
  then have "held_exact calls \<lparr> ap_id = a, ap_cap = cap, ap_held = 0 \<rparr>"
    using assms(2) by (simp add: held_exact_def)
  then show ?thesis
    using assms False by (auto simp: with_approval_def approval_ledger_def list_all_iff)
qed

lemma held_exact_step:
  assumes "held_exact calls q" and "cl_approval_id c = ap" and "cl_reserved c = amount"
    and "has_room ap cap amount q \<longleftrightarrow> ap_id q = ap"
  shows "held_exact (calls @ [c])
    (if has_room ap cap amount q then q\<lparr> ap_held := ap_held q + amount \<rparr> else q)"
  using assms by (auto simp: held_exact_def has_room_def)

lemma reserve_ledger:
  assumes led: "approval_ledger as calls" and amount: "0 < amount"
    and one: "count_where (has_room ap cap amount) as = 1"
    and c: "cl_approval_id c = ap" "cl_reserved c = amount"
  shows "approval_ledger (upd_where (has_room ap cap amount)
            (\<lambda>r. r\<lparr> ap_held := ap_held r + amount \<rparr>) as) (calls @ [c])"
    (is "approval_ledger (upd_where ?p ?f as) _")
proof -
  have d: "distinct (map ap_id as)" using led by (simp add: approval_ledger_def)
  have room: "\<And>q. ?p q \<Longrightarrow> ap_id q = ap" by (simp add: has_room_def)
  obtain r where r: "r \<in> set as" "?p r"
    by (rule count_where_1_row [OF d room one])
  have only: "?p q \<longleftrightarrow> ap_id q = ap" if "q \<in> set as" for q
    using key_unique [OF d that r(1)] r(2) by (auto simp: has_room_def)
  have ids: "map ap_id (upd_where ?p ?f as) = map ap_id as"
    by (rule map_upd_where) simp
  then have idset: "ap_id ` set (upd_where ?p ?f as) = ap_id ` set as"
    by (metis set_map)
  have "held_exact (calls @ [c]) (if ?p q then ?f q else q)" if "q \<in> set as" for q
  proof (rule held_exact_step [OF _ c only [OF that]])
    show "held_exact calls q" using led that by (simp add: approval_ledger_def list_all_iff)
  qed
  then have "list_all (held_exact (calls @ [c])) (upd_where ?p ?f as)"
    by (simp only: upd_where_def list_all_iff set_map ball_simps) blast
  moreover have "ap \<in> ap_id ` set as" using r by (auto simp: has_room_def)
  ultimately show ?thesis
    using led d c amount unfolding approval_ledger_def ids idset by auto
qed

lemma reserve_call_err:
  "reserve_call u ow j role ap amount cap cc s = (Inl e, t) \<Longrightarrow> t = s"
  by (auto simp: reserve_call_def thenM_run guardM_run dest: transact_err split: if_splits)

lemma reserve_call_sound:
  assumes "approvals_sound s"
  shows "approvals_sound (snd (reserve_call u ow j role ap amount cap cc s))"
proof (cases "reserve_call u ow j role ap amount cap cc s")
  case (Pair r t)
  show ?thesis
  proof (cases r)
    case (Inl e)
    then show ?thesis using reserve_call_err [OF Pair [unfolded Inl]] Pair assms by simp
  next
    case (Inr i)
    note ok = reserve_call_ok [OF Pair [unfolded Inr]]
    have w: "approval_ledger (with_approval ap cap (pd_approvals s)) (pd_calls s)"
      using with_approval_ledger ok(1,2) assms by (simp add: approvals_sound_def)
    show ?thesis
      using reserve_ledger [OF w ok(1,5), of "call_row_of u ow j role ap amount"] ok(7) Pair
      by (simp add: call_row_of_def approvals_sound_def)
  qed
qed

lemma settle_call_run:
  "settle_call i actual s = (Inr (), s\<lparr> pd_calls := upd_where
     (\<lambda>r. cl_id r = i \<and> cl_state r = ClReserved)
     (\<lambda>r. r\<lparr> cl_state := (if actual = None then ClUncertain else ClKnown),
            cl_actual := actual \<rparr>) (pd_calls s) \<rparr>)"
  by (simp add: settle_call_def transact_def thenM_run on_table_def update_rows_def)

lemma reserved_for_upd:
  "(\<And>r. cl_approval_id (f r) = cl_approval_id r \<and> cl_reserved (f r) = cl_reserved r) \<Longrightarrow>
   reserved_for a (upd_where p f calls) = reserved_for a calls"
  by (induction calls) (auto simp: reserved_for_def)

lemma settle_call_sound: "approvals_sound s \<Longrightarrow> approvals_sound (snd (settle_call i actual s))"
  by (auto simp: settle_call_run approvals_sound_def approval_ledger_def list_all_iff
      held_exact_def reserved_for_upd set_upd_where)

lemma paid_step:
  "plan_step s t \<Longrightarrow> same_paid s t
     \<or> (\<exists>u ow j role ap amount cap cc. t = snd (reserve_call u ow j role ap amount cap cc s)
          \<and> knows ow j s \<and> jb_operation j = JoPlanning)
     \<or> (\<exists>i actual. t = snd (settle_call i actual s))"
  by (erule plan_step.cases)
    (hypsubst, (blast intro: paid_methods [THEN rel_snd] paid_submit [THEN rel_snd]
      paid_claim [THEN rel_snd])+)

lemma approvals_sound_reachable: "plan_reachable s \<Longrightarrow> approvals_sound s"
proof (induction rule: plan_reachable.induct)
  case start
  then show ?case by (simp add: approvals_sound_def approval_ledger_def empty_plan_db_def)
next
  case (step s t)
  then show ?case
    using paid_step [of s t] approvals_same_paid reserve_call_sound settle_call_sound by blast
qed

section \<open>Leases\<close>

definition job_write :: "job \<Rightarrow> job_row \<Rightarrow> job_row" where
  "job_write j r = r\<lparr> jr_status := jb_status j, jr_updated_at := jb_updated_at j,
     jr_attempts := jb_attempts j, jr_payload := j \<rparr>"

text \<open>A row and the job it stores agree; a running job has been claimed, at most
  three times.\<close>

definition row_sound :: "job_row \<Rightarrow> bool" where
  "row_sound r = (jr_id r = jb_id (jr_payload r) \<and> jr_status r = jb_status (jr_payload r)
     \<and> jr_attempts r = jb_attempts (jr_payload r) \<and> 0 \<le> jr_attempts r \<and> jr_attempts r \<le> 3
     \<and> (jr_status r = JsRunning \<longrightarrow> 1 \<le> jr_attempts r))"

definition jobs_sound :: "job_row list \<Rightarrow> bool" where
  "jobs_sound js = (distinct (map jr_id js) \<and> list_all row_sound js)"

text \<open>What one method does to the job table: nothing, a fresh job, or one job
  rewritten without losing its identity, its operation or its attempts.\<close>

inductive jobs_step :: "job_row list \<Rightarrow> job_row list \<Rightarrow> bool" where
  same: "jobs_step js js"
| fresh: "row_sound r \<Longrightarrow> jr_id r \<notin> jr_id ` set js \<Longrightarrow> jobs_step js (js @ [r])"
| rewrite: "(\<And>r. r \<in> set js \<Longrightarrow> p r \<Longrightarrow> jr_id r = jb_id j
      \<and> jb_operation (jr_payload r) = jb_operation j \<and> jr_attempts r \<le> jb_attempts j
      \<and> jb_attempts j \<le> 3 \<and> (jb_status j = JsRunning \<longrightarrow> 1 \<le> jb_attempts j))
    \<Longrightarrow> jobs_step js (upd_where p (job_write j) js)"

definition backed :: "job_row list \<Rightarrow> call_row \<Rightarrow> bool" where
  "backed js c = list_ex (\<lambda>r. jr_id r = cl_job_id c \<and> jr_owner r = cl_owner c
     \<and> jb_operation (jr_payload r) = JoPlanning \<and> 1 \<le> jr_attempts r) js"

lemma job_write_sels [simp]:
  "jr_id (job_write j r) = jr_id r" "jr_owner (job_write j r) = jr_owner r"
  "jr_status (job_write j r) = jb_status j" "jr_attempts (job_write j r) = jb_attempts j"
  "jr_payload (job_write j r) = j"
  by (simp_all add: job_write_def)

lemma jobs_step_sound: "jobs_step js js' \<Longrightarrow> jobs_sound js \<Longrightarrow> jobs_sound js'"
proof (induction rule: jobs_step.induct)
  case (rewrite js p j)
  have "map jr_id (upd_where p (job_write j) js) = map jr_id js"
    by (rule map_upd_where) simp
  moreover have "row_sound (if p r then job_write j r else r)" if "r \<in> set js" for r
  proof -
    have "row_sound r" using rewrite.prems that by (simp add: jobs_sound_def list_all_iff)
    then show ?thesis using rewrite.hyps [OF that] by (auto simp: row_sound_def)
  qed
  ultimately show ?case
    using rewrite.prems by (simp only: jobs_sound_def list_all_iff set_upd_where) blast
qed (auto simp: jobs_sound_def)

lemma jobs_step_backed: "jobs_step js js' \<Longrightarrow> backed js c \<Longrightarrow> backed js' c"
proof (induction rule: jobs_step.induct)
  case (rewrite js p j)
  then obtain r where r: "r \<in> set js" "jr_id r = cl_job_id c" "jr_owner r = cl_owner c"
    "jb_operation (jr_payload r) = JoPlanning" "1 \<le> jr_attempts r"
    by (auto simp: backed_def list_ex_iff)
  let ?r = "if p r then job_write j r else r"
  have "?r \<in> set (upd_where p (job_write j) js)" using r(1) by (auto simp: set_upd_where)
  moreover have "jr_id ?r = cl_job_id c" "jr_owner ?r = cl_owner c"
    "jb_operation (jr_payload ?r) = JoPlanning" "1 \<le> jr_attempts ?r"
    using r rewrite.hyps [OF r(1)] by auto
  ultimately show ?case by (auto simp: backed_def list_ex_iff)
qed (auto simp: backed_def)

subsection \<open>Every method takes a step on the job table\<close>

definition same_jobs :: "plan_db \<Rightarrow> plan_db \<Rightarrow> bool" where
  "same_jobs s t = (pd_jobs t = pd_jobs s)"

interpretation jobs: effect_order same_jobs
  by unfold_locales (auto simp: same_jobs_def)

lemma jobs_tables:
  "relates same_jobs (on_stored f)" "relates same_jobs (on_submissions h)"
  "relates same_jobs (on_calls g)" "relates same_jobs (on_approvals k)"
  by (rule jobs.rel_on_table, simp add: same_jobs_def)+

lemmas jobs_rules = jobs.rel_rules jobs.rel_conflict jobs_tables

lemma jobs_frames:
  "relates same_jobs (insert_stored k i v ow p)" "relates same_jobs (insert_submission r)"
  "relates same_jobs (insert_workflow ow res)" "relates same_jobs (viewM ow i v)"
  "relates same_jobs (lost_lease n)" "relates same_jobs (put ow k i p v)"
  "relates same_jobs (settle_call i actual)"
  by (auto simp: insert_stored_def insert_submission_def insert_workflow_def viewM_def
      lost_lease_def put_def settle_call_def intro!: jobs_rules split: option.split)

lemma write_job_run:
  "write_job p j s = (Inr (count_where p (pd_jobs s)),
     s\<lparr> pd_jobs := upd_where p (job_write j) (pd_jobs s) \<rparr>)"
  by (simp add: write_job_def on_table_def update_rows_def job_write_def [abs_def])

text \<open>A rewrite of one job followed by statements on other tables, in one transaction.\<close>

lemma write_then:
  assumes w: "\<And>s. pd_jobs (snd (m s)) = pd_jobs s
      \<or> pd_jobs (snd (m s)) = upd_where p (job_write j) (pd_jobs s)"
    and k: "relates same_jobs k"
  shows "pd_jobs (snd (transact (thenM m k) s)) = pd_jobs s
    \<or> pd_jobs (snd (transact (thenM m k) s)) = upd_where p (job_write j) (pd_jobs s)"
proof -
  have "pd_jobs (snd (k t)) = pd_jobs t" for t
    using k by (simp add: relates_def same_jobs_def)
  then show ?thesis
    using w [of s] by (auto simp: transact_def thenM_run split: prod.split sum.split)
      (metis snd_conv)+
qed

lemma write_lease:
  "pd_jobs (snd (bindM (write_job p j) lost_lease s)) = upd_where p (job_write j) (pd_jobs s)"
  by (simp add: bindM_run write_job_run lost_lease_def guardM_run)

lemma write_plain:
  "pd_jobs (snd (thenM (write_job p j) (ret x) s)) = upd_where p (job_write j) (pd_jobs s)"
  by (simp add: thenM_run write_job_run)

text \<open>A leaseholder closing its job: nothing happens, or its row ends.\<close>

definition closes :: "string \<Rightarrow> job \<Rightarrow> plan_db \<Rightarrow> plan_db \<Rightarrow> bool" where
  "closes ow j s t = (pd_jobs t = pd_jobs s
    \<or> (\<exists>j'. pd_jobs t = upd_where (leased_by ow j) (job_write j') (pd_jobs s)
        \<and> jb_id j' = jb_id j \<and> jb_attempts j' = jb_attempts j
        \<and> jb_operation j' = jb_operation j \<and> jb_status j' \<noteq> JsRunning))"

lemma closesI:
  assumes "\<And>s. pd_jobs (snd (m s)) = upd_where (leased_by ow j) (job_write j') (pd_jobs s)"
    and "relates same_jobs k" and "jb_id j' = jb_id j" "jb_attempts j' = jb_attempts j"
    "jb_operation j' = jb_operation j" "jb_status j' \<noteq> JsRunning"
  shows "closes ow j s (snd (transact (thenM m k) s))"
  using write_then [of m "leased_by ow j" j' k s] assms unfolding closes_def by blast

lemma finish_closes: "closes ow j s (snd (finish_recommendation now ow j r c s))"
  unfolding finish_recommendation_def Let_def
  by (rule closesI [OF write_lease]) (auto intro!: jobs_rules jobs_frames)

lemma fail_closes: "closes ow j s (snd (fail now ow j s))"
  unfolding fail_def
proof -
  let ?j = "j\<lparr>jb_status := JsFailed, jb_updated_at := now, jb_error := Some INTERNAL\<rparr>"
  have "closes ow j s (snd (transact (thenM (thenM (write_job (leased_by ow j) ?j) (ret ())) (ret ())) s))"
    by (rule closesI [OF write_plain]) (auto intro!: jobs_rules)
  then show "closes ow j s (snd (transact (thenM (write_job (leased_by ow j) ?j) (ret ())) s))"
    by (simp add: transact_def thenM_run write_job_run)
qed

lemma complete_closes: "closes ow j s (snd (complete_planning now ow j res s))"
proof -
  let ?rest = "thenM (insert_stored ''planning_result'' (jb_id j) 1 ow (StResult res))
       (thenM (insert_workflow ow res)
         (case (px_recommendation res, px_catalog res) of
            (Some r, Some c) \<Rightarrow>
              thenM (insert_stored ''recommendation'' (rc_id r) 1 ow (StRecommendation r))
                    (insert_stored ''catalog'' (rc_id r) 1 ow (StCatalog c))
          | _ \<Rightarrow> ret ()))"
  have "relates same_jobs ?rest"
    by (auto intro!: jobs_rules jobs_frames split: option.split)
  then have "closes ow j s (snd (transact (thenM (bindM (write_job (leased_by ow j)
      (j\<lparr> jb_status := JsSucceeded, jb_phase := status_phase (px_status res),
          jb_updated_at := now \<rparr>)) lost_lease) ?rest) s))"
    by (rule closesI [OF write_lease]) auto
  moreover have "closes ow j s s" by (simp add: closes_def)
  ultimately show ?thesis
    unfolding complete_planning_def guard_then if_distrib [where f = snd] by simp
qed

text \<open>Claiming rewrites the row it selected.\<close>

definition claims :: "job_row \<Rightarrow> job_row list \<Rightarrow> job_row list \<Rightarrow> bool" where
  "claims row js js' = (\<exists>j'. js' = upd_where (\<lambda>r. jr_id r = jb_id (jr_payload row)
        \<and> jr_status r = jb_status (jr_payload row) \<and> jr_attempts r = jb_attempts (jr_payload row))
        (job_write j') js
      \<and> jb_id j' = jb_id (jr_payload row) \<and> jb_operation j' = jb_operation (jr_payload row)
      \<and> (jb_attempts j' = jb_attempts (jr_payload row) \<and> jb_status j' \<noteq> JsRunning
         \<or> jb_attempts j' = jb_attempts (jr_payload row) + 1 \<and> jb_attempts j' \<le> 3))"

lemma claimsI:
  assumes "jb_id j' = jb_id (jr_payload row)" "jb_operation j' = jb_operation (jr_payload row)"
    and "jb_attempts j' = jb_attempts (jr_payload row) \<and> jb_status j' \<noteq> JsRunning
         \<or> jb_attempts j' = jb_attempts (jr_payload row) + 1 \<and> jb_attempts j' \<le> 3"
  shows "claims row js (upd_where (\<lambda>r. jr_id r = jb_id (jr_payload row)
        \<and> jr_status r = jb_status (jr_payload row) \<and> jr_attempts r = jb_attempts (jr_payload row))
        (job_write j') js)"
  using assms unfolding claims_def by blast

lemma claim_row_claims: "claims row (pd_jobs s) (pd_jobs (snd (claim_row now row s)))"
proof -
  let ?old = "jr_payload row"
  consider (paid) "jb_operation ?old = JoPlanning \<and> jb_attempts ?old \<noteq> 0
         \<and> calls_of (jr_owner row) (jb_id ?old) s \<noteq> []"
    | (exhausted) "\<not> (jb_operation ?old = JoPlanning \<and> jb_attempts ?old \<noteq> 0
         \<and> calls_of (jr_owner row) (jb_id ?old) s \<noteq> [])" "3 \<le> jb_attempts ?old"
    | (free) "\<not> (jb_operation ?old = JoPlanning \<and> jb_attempts ?old \<noteq> 0
         \<and> calls_of (jr_owner row) (jb_id ?old) s \<noteq> [])" "\<not> 3 \<le> jb_attempts ?old"
    by blast
  then show ?thesis
  proof cases
    case paid
    then show ?thesis
      by (simp add: claim_row_def Let_def thenM_run write_job_run claimsI)
  next
    case exhausted
    then show ?thesis
      by (simp only: claim_row_def Let_def if_False if_True thenM_run write_job_run)
        (simp add: claimsI)
  next
    case free
    then show ?thesis
      by (simp only: claim_row_def Let_def if_False bindM_run write_job_run)
        (simp add: claimsI)
  qed
qed

lemma claims_step:
  assumes sound: "jobs_sound js" and row: "row \<in> set js" and c: "claims row js js'"
  shows "jobs_step js js'"
proof -
  obtain j' where js': "js' = upd_where (\<lambda>r. jr_id r = jb_id (jr_payload row)
        \<and> jr_status r = jb_status (jr_payload row) \<and> jr_attempts r = jb_attempts (jr_payload row))
        (job_write j') js"
    and j': "jb_id j' = jb_id (jr_payload row)" "jb_operation j' = jb_operation (jr_payload row)"
      "jb_attempts j' = jb_attempts (jr_payload row) \<and> jb_status j' \<noteq> JsRunning
         \<or> jb_attempts j' = jb_attempts (jr_payload row) + 1 \<and> jb_attempts j' \<le> 3"
    using c unfolding claims_def by blast
  have rs: "row_sound row" using sound row by (simp add: jobs_sound_def list_all_iff)
  have same: "r = row" if "r \<in> set js" "jr_id r = jb_id (jr_payload row)" for r
    using key_unique [of jr_id js r row] sound row that rs by (simp add: jobs_sound_def row_sound_def)
  show ?thesis unfolding js'
  proof (rule jobs_step.rewrite, elim conjE)
    fix r assume "r \<in> set js" "jr_id r = jb_id (jr_payload row)"
    then have "r = row" by (rule same)
    then show "jr_id r = jb_id j' \<and> jb_operation (jr_payload r) = jb_operation j'
      \<and> jr_attempts r \<le> jb_attempts j' \<and> jb_attempts j' \<le> 3
      \<and> (jb_status j' = JsRunning \<longrightarrow> 1 \<le> jb_attempts j')"
      using rs j' by (auto simp: row_sound_def)
  qed
qed

lemma next_claimable_in:
  "next_claimable now s = Some row \<Longrightarrow> row \<in> set (pd_jobs s) \<and> claimable now row"
proof -
  assume n: "next_claimable now s = Some row"
  let ?xs = "sort_key jr_updated_at (filter (claimable now) (pd_jobs s))"
  have "row \<in> set ?xs" using n by (cases ?xs) (auto simp: next_claimable_def)
  then show ?thesis by simp
qed

lemma claim_step: "jobs_sound (pd_jobs s) \<Longrightarrow> jobs_step (pd_jobs s) (pd_jobs (snd (claim now s)))"
proof -
  assume sound: "jobs_sound (pd_jobs s)"
  show ?thesis
  proof (cases "next_claimable now s")
    case None
    then show ?thesis by (simp add: claim_def transact_def jobs_step.same)
  next
    case (Some row)
    have "pd_jobs (snd (claim now s)) = pd_jobs s
        \<or> snd (claim now s) = snd (claim_row now row s)"
      by (auto simp: claim_def transact_def Some split: prod.split sum.split)
    then show ?thesis
      using claims_step [OF sound _ claim_row_claims] next_claimable_in [OF Some]
      by (metis jobs_step.same)
  qed
qed

lemma leased_step:
  assumes sound: "jobs_sound js" and k: "\<And>r. p r \<Longrightarrow> jr_id r = jb_id j \<and> jr_attempts r = jb_attempts j
      \<and> (jb_status j' = JsRunning \<longrightarrow> jr_status r = JsRunning)"
    and known: "list_ex (\<lambda>r. jr_id r = jb_id j \<and> jb_operation (jr_payload r) = jb_operation j) js"
    and j': "jb_id j' = jb_id j" "jb_attempts j' = jb_attempts j" "jb_operation j' = jb_operation j"
  shows "jobs_step js (upd_where p (job_write j') js)"
proof (rule jobs_step.rewrite)
  fix r assume r: "r \<in> set js" "p r"
  obtain q where q: "q \<in> set js" "jr_id q = jb_id j" "jb_operation (jr_payload q) = jb_operation j"
    using known by (auto simp: list_ex_iff)
  have "r = q" using key_unique [of jr_id js r q] sound r q k by (simp add: jobs_sound_def)
  moreover have "row_sound r" using sound r by (simp add: jobs_sound_def list_all_iff)
  ultimately show "jr_id r = jb_id j' \<and> jb_operation (jr_payload r) = jb_operation j'
      \<and> jr_attempts r \<le> jb_attempts j' \<and> jb_attempts j' \<le> 3
      \<and> (jb_status j' = JsRunning \<longrightarrow> 1 \<le> jb_attempts j')"
    using k [OF r(2)] j' q by (auto simp: row_sound_def)
qed

lemma knows_ex: "knows ow j s \<Longrightarrow>
    list_ex (\<lambda>r. jr_id r = jb_id j \<and> jb_operation (jr_payload r) = jb_operation j) (pd_jobs s)"
  by (auto simp: knows_def list_ex_iff)

lemma closes_step:
  "closes ow j s t \<Longrightarrow> knows ow j s \<Longrightarrow> jobs_sound (pd_jobs s) \<Longrightarrow> jobs_step (pd_jobs s) (pd_jobs t)"
  unfolding closes_def
  by (elim disjE exE conjE; simp add: jobs_step.same)
    (rule leased_step [OF _ _ knows_ex]; simp add: leased_by_def)

lemma update_job_step:
  assumes "knows ow j s" and "plain_change ch" and sound: "jobs_sound (pd_jobs s)"
  shows "jobs_step (pd_jobs s) (pd_jobs (snd (update_job now ow j ch s)))"
proof -
  let ?p = "\<lambda>r. jr_id r = jb_id j \<and> jr_owner r = ow \<and> jr_status r = jb_status j
              \<and> jr_attempts r = jb_attempts j"
  let ?j = "(ch j)\<lparr> jb_updated_at := now \<rparr>"
  have ch: "jb_id ?j = jb_id j" "jb_attempts ?j = jb_attempts j" "jb_operation ?j = jb_operation j"
    "jb_status ?j = JsRunning \<Longrightarrow> jb_status j = JsRunning"
    using assms(2) by (auto simp: plain_change_def) (metis job_status.distinct)+
  have "upd_where ?p (\<lambda>r. r\<lparr> jr_status := jb_status ?j, jr_updated_at := now, jr_payload := ?j \<rparr>)
          (pd_jobs s) = upd_where ?p (job_write ?j) (pd_jobs s)"
    using ch(2) by (auto simp: upd_where_def job_write_def)
  then have "pd_jobs (snd (update_job now ow j ch s)) = pd_jobs s
     \<or> pd_jobs (snd (update_job now ow j ch s)) = upd_where ?p (job_write ?j) (pd_jobs s)"
    by (simp add: update_job_def Let_def thenM_run transact_def bindM_run on_table_def
        update_rows_def lost_lease_def guardM_run)
  then show ?thesis
    using leased_step [OF sound, of ?p j ?j] knows_ex [OF assms(1)] ch
    by (metis (mono_tags, lifting) jobs_step.same)
qed

subsection \<open>Composition\<close>

definition lease_kept :: "plan_db \<Rightarrow> plan_db \<Rightarrow> bool" where
  "lease_kept s t = (jobs_sound (pd_jobs s) \<longrightarrow> jobs_sound (pd_jobs t)
     \<and> (\<forall>c. backed (pd_jobs s) c \<longrightarrow> backed (pd_jobs t) c))"

interpretation lk: effect_order lease_kept
  by unfold_locales (auto simp: lease_kept_def)

lemma step_kept: "(jobs_sound (pd_jobs s) \<Longrightarrow> jobs_step (pd_jobs s) (pd_jobs t)) \<Longrightarrow> lease_kept s t"
  using jobs_step_sound jobs_step_backed unfolding lease_kept_def by blast

lemma same_jobs_kept: "relates same_jobs m \<Longrightarrow> relates lease_kept m"
  by (auto simp: relates_def same_jobs_def lease_kept_def)

lemma insert_job_kept:
  assumes "0 \<le> jb_attempts j" "jb_attempts j \<le> 3" "jb_status j \<noteq> JsRunning"
  shows "relates lease_kept (insert_job ow j)"
proof (rule relatesI, rule step_kept)
  fix s
  show "jobs_step (pd_jobs s) (pd_jobs (snd (insert_job ow j s)))"
    using assms
    by (auto simp: insert_job_def on_table_def insert_row_def row_sound_def
        intro!: jobs_step.same jobs_step.fresh)
qed

lemma new_job_sels [simp]: "jb_attempts (new_job i w v st ph now) = 0"
  "jb_status (new_job i w v st ph now) = st"
  by (simp_all add: new_job_def)

lemmas kept_rules = lk.rel_rules lk.rel_conflict jobs_frames [THEN same_jobs_kept]

lemma insert_methods_kept:
  "jb_status j = JsQueued \<Longrightarrow> jb_attempts j = 0 \<Longrightarrow> relates lease_kept (enqueue ow j)"
  "relates lease_kept (publish_deterministic now u h ow inp res)"
  "relates lease_kept (submit now np nj dg ow key inp pid prior)"
proof -
  show "relates lease_kept (publish_deterministic now u h ow inp res)"
    unfolding publish_deterministic_def Let_def
    by (intro kept_rules insert_job_kept) simp_all
  show "relates lease_kept (submit now np nj dg ow key inp pid prior)"
    unfolding submit_def new_submission_def Let_def
    by (intro kept_rules insert_job_kept) simp_all
qed (auto simp: enqueue_def intro!: lk.rel_transact insert_job_kept)

lemma reserve_jobs: "pd_jobs (snd (reserve_call u ow j role ap amount cap cc s)) = pd_jobs s"
proof (cases "reserve_call u ow j role ap amount cap cc s")
  case (Pair r t)
  then show ?thesis using reserve_call_err reserve_call_ok(7) by (cases r) fastforce+
qed

lemma plan_step_kept: "plan_step s t \<Longrightarrow> lease_kept s t"
proof (erule plan_step.cases; hypsubst)
  fix ow j r c now assume "knows ow j s"
  then show "lease_kept s (snd (finish_recommendation now ow j r c s))"
    by (intro step_kept closes_step [OF finish_closes])
next
  fix ow j now assume "knows ow j s"
  then show "lease_kept s (snd (fail now ow j s))"
    by (intro step_kept closes_step [OF fail_closes])
next
  fix ow j res now assume "knows ow j s"
  then show "lease_kept s (snd (complete_planning now ow j res s))"
    by (intro step_kept closes_step [OF complete_closes])
next
  fix ow j ch now assume "knows ow j s" "plain_change ch"
  then show "lease_kept s (snd (update_job now ow j ch s))"
    by (intro step_kept update_job_step)
next
  fix u ow j role ap amount cap cc
  show "lease_kept s (snd (reserve_call u ow j role ap amount cap cc s))"
    by (simp add: lease_kept_def reserve_jobs)
qed (auto intro: step_kept claim_step insert_methods_kept [THEN rel_snd]
    jobs_frames [THEN same_jobs_kept, THEN rel_snd])

section \<open>Calls are backed by a claimed planning job\<close>

definition lease_sound :: "plan_db \<Rightarrow> bool" where
  "lease_sound s = (jobs_sound (pd_jobs s) \<and> list_all (backed (pd_jobs s)) (pd_calls s))"

lemma reserve_backed:
  assumes sound: "jobs_sound (pd_jobs s)" and k: "knows ow j s" and pl: "jb_operation j = JoPlanning"
    and one: "count_where (leased_by ow j) (pd_jobs s) = 1"
  shows "backed (pd_jobs s) (call_row_of u ow j role ap amount)"
proof -
  have "\<exists>r \<in> set (pd_jobs s). leased_by ow j r"
    using one count_where_0 [of "leased_by ow j" "pd_jobs s"] by auto
  then obtain r where r: "r \<in> set (pd_jobs s)" "leased_by ow j r" by blast
  obtain q where q: "q \<in> set (pd_jobs s)" "jr_id q = jb_id j"
    "jb_operation (jr_payload q) = JoPlanning"
    using k pl by (auto simp: knows_def list_ex_iff)
  have "r = q" using key_unique [of jr_id "pd_jobs s" r q] sound r q
    by (simp add: jobs_sound_def leased_by_def)
  moreover have "row_sound r" using sound r by (simp add: jobs_sound_def list_all_iff)
  ultimately show ?thesis
    using r q by (auto simp: backed_def list_ex_iff call_row_of_def leased_by_def row_sound_def)
qed

lemma lease_sound_reachable: "plan_reachable s \<Longrightarrow> lease_sound s"
proof (induction rule: plan_reachable.induct)
  case start
  then show ?case by (simp add: lease_sound_def jobs_sound_def empty_plan_db_def)
next
  case (step s t)
  have kept: "jobs_sound (pd_jobs t)" "\<And>c. backed (pd_jobs s) c \<Longrightarrow> backed (pd_jobs t) c"
    using plan_step_kept [OF step.hyps(2)] step.IH by (auto simp: lease_kept_def lease_sound_def)
  from paid_step [OF step.hyps(2)] show ?case
  proof (elim disjE exE conjE)
    assume "same_paid s t"
    then show ?thesis using kept step.IH by (auto simp: lease_sound_def same_paid_def list_all_iff)
  next
    fix i actual assume t: "t = snd (settle_call i actual s)"
    have "backed js (c\<lparr> cl_state := a, cl_actual := b \<rparr>) = backed js c" for js c a b
      by (simp add: backed_def)
    then show ?thesis using kept step.IH
      by (auto simp: t settle_call_run lease_sound_def list_all_iff set_upd_where)
  next
    fix u ow j role ap amount cap cc
    assume t: "t = snd (reserve_call u ow j role ap amount cap cc s)"
      and k: "knows ow j s" "jb_operation j = JoPlanning"
    show ?thesis
    proof (cases "reserve_call u ow j role ap amount cap cc s")
      case (Pair r t')
      then show ?thesis
      proof (cases r)
        case (Inl e)
        then show ?thesis using reserve_call_err [OF Pair [unfolded Inl]] Pair t step.IH by simp
      next
        case (Inr i)
        note ok = reserve_call_ok [OF Pair [unfolded Inr]]
        have "backed (pd_jobs s) (call_row_of u ow j role ap amount)"
          using reserve_backed [OF _ k ok(3)] step.IH by (simp add: lease_sound_def)
        then show ?thesis using ok(7) Pair t step.IH by (simp add: lease_sound_def)
      qed
    qed
  qed
qed

section \<open>The guarantees\<close>

lemma claim_ok:
  assumes "claim now s = (Inr (Some (ow, j)), t)"
  obtains row where "row \<in> set (pd_jobs s)" "ow = jr_owner row"
    "jb_id j = jb_id (jr_payload row)" "jb_attempts j = jb_attempts (jr_payload row) + 1"
    "jb_attempts j \<le> 3" "jb_status j = JsRunning"
    "\<not> (jb_operation (jr_payload row) = JoPlanning \<and> jb_attempts (jr_payload row) \<noteq> 0
        \<and> calls_of (jr_owner row) (jb_id (jr_payload row)) s \<noteq> [])"
proof (cases "next_claimable now s")
  case None
  then show ?thesis using assms by (auto simp: claim_def)
next
  case (Some row)
  then have run: "claim_row now row s = (Inr (Some (ow, j)), t)"
    using assms by (simp add: claim_def)
  have "row \<in> set (pd_jobs s)" using next_claimable_in Some by blast
  then show ?thesis
    using run that [of row]
    by (auto simp: claim_row_def Let_def run_ok write_job_run split: if_splits)
qed


text \<open>
  C16. Approval budgets are exact: in every reachable state each recorded approval
  holds exactly the sum of what its provider calls reserved, within its cap, and
  every call names a recorded approval.
\<close>

theorem approval_ledger_exact:
  assumes "plan_reachable s"
  shows "approval_ledger (pd_approvals s) (pd_calls s)"
  using approvals_sound_reachable [OF assms] by (simp add: approvals_sound_def)

section \<open>A concrete run\<close>

text \<open>A plan is submitted, its job claimed, and a call of 40 of an approved 100 reserved.\<close>

definition ex_input :: plan_input where
  "ex_input = \<lparr> pi_edited_workflow = None, pi_rest = JNull \<rparr>"

definition ex_submitted :: plan_db where
  "ex_submitted = snd (submit 5 ''p'' ''j'' (\<lambda>_ _ _. ''h'') ''o'' ''k'' ex_input None None
     empty_plan_db)"

definition ex_job :: job where
  "ex_job = (new_job ''j'' ''p'' 1 JsQueued ''queued'' 5)\<lparr> jb_status := JsRunning,
     jb_attempts := 1, jb_updated_at := 9 \<rparr>"

definition ex_claimed :: plan_db where
  "ex_claimed = snd (claim 9 ex_submitted)"

definition ex_reserved :: plan_db where
  "ex_reserved = snd (reserve_call ''c'' ''o'' ex_job ''interpretation'' ''a'' 40 100 None ex_claimed)"

lemma ex_claim_run: "fst (claim 9 ex_submitted) = Inr (Some (''o'', ex_job))"
  by code_simp

lemma ex_reserved_state: "knows ''o'' ex_job ex_claimed \<and> jb_operation ex_job = JoPlanning
    \<and> map ap_held (pd_approvals ex_reserved) = [40] \<and> map ap_cap (pd_approvals ex_reserved) = [100]"
  by code_simp

lemma ex_reachable: "plan_reachable ex_submitted" "plan_reachable ex_claimed" "plan_reachable ex_reserved"
proof -
  show s: "plan_reachable ex_submitted"
    unfolding ex_submitted_def by (rule plan_reachable.step [OF plan_reachable.start plan_step.submit])
  show c: "plan_reachable ex_claimed"
    unfolding ex_claimed_def by (rule plan_reachable.step [OF s plan_step.claim])
  show "plan_reachable ex_reserved"
    unfolding ex_reserved_def using ex_reserved_state
    by (intro plan_reachable.step [OF c plan_step.reserve]) simp_all
qed


theorem approval_ledger_exact_witness:
  "approval_ledger (pd_approvals ex_reserved) (pd_calls ex_reserved)
     \<and> map ap_held (pd_approvals ex_reserved) = [40]"
  using approval_ledger_exact [OF ex_reachable(3)] ex_reserved_state by simp

end
