(* ===== verification/Store_Schema.thy ===== *)
theory Store_Schema
  imports Planning_Storage Security
begin

text \<open>
  The tables of revisions 3, 4 and 5 of the schema (\<open>migrations/__init__.py\<close>):
  immutable sandbox records, policy heads, budgets, reservations, key verifiers,
  private payloads, request states, the runtime queue and deployment health.  The
  database also holds the planning tables.  Primary keys, UNIQUE and CHECK
  constraints are those of the CREATE TABLE statements; the trigger that makes
  \<open>sandbox_records\<close> immutable appears as the absence of any update of that table.
  The FOREIGN KEY of the reservations never decides an insert, because the code
  updates the budget row in the same transaction first.
\<close>

section \<open>Rows\<close>

datatype rec_kind = KPolicy | KTransition | KAdmission | KAlias | KKey | KPrompt | KRun
  | KAttempt | KTrace | KEvent | KContext | KComparison | KOutcome

record rec_row =
  rw_owner :: string
  rw_kind :: rec_kind
  rw_id :: string
  rw_version :: int
  rw_payload :: payload

record head_row =
  hd_owner :: string
  hd_policy_id :: string
  hd_policy_version :: int
  hd_sequence :: int

record budget_row =
  bg_owner :: string
  bg_id :: string
  bg_cap :: int
  bg_held :: int

datatype reservation_state = ResReserved | ResUncertain | ResReconciled

record reservation_row =
  rs_owner :: string
  rs_id :: string
  rs_budget_id :: string
  rs_request_id :: string
  rs_reserved :: int
  rs_actual :: "int option"
  rs_state :: reservation_state

record verifier_row =
  vf_owner :: string
  vf_id :: string
  vf_verifier :: string

datatype payload_kind = PkQueuedInput | PkOutput | PkSample

record payload_row =
  py_owner :: string
  py_kind :: payload_kind
  py_id :: string
  py_expires_at :: int
  py_payload :: private_payload

record request_row =
  rt_owner :: string
  rt_request_key :: string
  rt_request_id :: string
  rt_input_hash :: string
  rt_state :: run_status

datatype queue_state = QsQueued | QsRunning | QsDone | QsUncertain

record queue_row =
  qu_owner :: string
  qu_id :: string
  qu_request_key :: string
  qu_principal_id :: string
  qu_key_id :: "string option"
  qu_deadline :: int
  qu_state :: queue_state
  qu_lease_until :: "int option"

record health_row =
  hl_owner :: string
  hl_configuration_id :: string
  hl_catalog_id :: string
  hl_failures :: int
  hl_successes :: int
  hl_total :: int
  hl_timeouts :: int
  hl_latency_total_ms :: int
  hl_open_until :: int
  hl_probe_until :: int
  hl_updated_at :: int

record db =
  db_records :: "rec_row list"
  db_heads :: "head_row list"
  db_budgets :: "budget_row list"
  db_reservations :: "reservation_row list"
  db_verifiers :: "verifier_row list"
  db_payloads :: "payload_row list"
  db_requests :: "request_row list"
  db_queue :: "queue_row list"
  db_health :: "health_row list"
  db_planning :: plan_db

definition empty_db :: db where
  "empty_db = \<lparr> db_records = [], db_heads = [], db_budgets = [], db_reservations = [],
     db_verifiers = [], db_payloads = [], db_requests = [], db_queue = [], db_health = [],
     db_planning = empty_plan_db \<rparr>"

section \<open>Keys\<close>

definition record_key :: "rec_row \<Rightarrow> string \<times> rec_kind \<times> string \<times> int" where
  "record_key r = (rw_owner r, rw_kind r, rw_id r, rw_version r)"

definition head_key :: "head_row \<Rightarrow> string \<times> string \<times> int" where
  "head_key r = (hd_owner r, hd_policy_id r, hd_policy_version r)"

definition budget_key :: "budget_row \<Rightarrow> string \<times> string" where
  "budget_key r = (bg_owner r, bg_id r)"

definition reservation_key :: "reservation_row \<Rightarrow> string \<times> string" where
  "reservation_key r = (rs_owner r, rs_id r)"

definition reservation_request :: "reservation_row \<Rightarrow> string \<times> string" where
  "reservation_request r = (rs_owner r, rs_request_id r)"

definition verifier_key :: "verifier_row \<Rightarrow> string \<times> string" where
  "verifier_key r = (vf_owner r, vf_id r)"

definition payload_key :: "payload_row \<Rightarrow> string \<times> payload_kind \<times> string" where
  "payload_key r = (py_owner r, py_kind r, py_id r)"

definition request_key :: "request_row \<Rightarrow> string \<times> string" where
  "request_key r = (rt_owner r, rt_request_key r)"

definition request_ident :: "request_row \<Rightarrow> string \<times> string" where
  "request_ident r = (rt_owner r, rt_request_id r)"

definition queue_key :: "queue_row \<Rightarrow> string \<times> string" where
  "queue_key r = (qu_owner r, qu_id r)"

definition health_key :: "health_row \<Rightarrow> string \<times> string \<times> string" where
  "health_key r = (hl_owner r, hl_configuration_id r, hl_catalog_id r)"

section \<open>Statements\<close>

abbreviation on_records where
  "on_records \<equiv> on_table db_records (\<lambda>t s. s\<lparr> db_records := t \<rparr>)"
abbreviation on_heads where
  "on_heads \<equiv> on_table db_heads (\<lambda>t s. s\<lparr> db_heads := t \<rparr>)"
abbreviation on_budgets where
  "on_budgets \<equiv> on_table db_budgets (\<lambda>t s. s\<lparr> db_budgets := t \<rparr>)"
abbreviation on_reservations where
  "on_reservations \<equiv> on_table db_reservations (\<lambda>t s. s\<lparr> db_reservations := t \<rparr>)"
abbreviation on_verifiers where
  "on_verifiers \<equiv> on_table db_verifiers (\<lambda>t s. s\<lparr> db_verifiers := t \<rparr>)"
abbreviation on_payloads where
  "on_payloads \<equiv> on_table db_payloads (\<lambda>t s. s\<lparr> db_payloads := t \<rparr>)"
abbreviation on_requests where
  "on_requests \<equiv> on_table db_requests (\<lambda>t s. s\<lparr> db_requests := t \<rparr>)"
abbreviation on_queue where
  "on_queue \<equiv> on_table db_queue (\<lambda>t s. s\<lparr> db_queue := t \<rparr>)"
abbreviation on_health where
  "on_health \<equiv> on_table db_health (\<lambda>t s. s\<lparr> db_health := t \<rparr>)"

text \<open>A statement whose row count nobody reads.\<close>

definition exec :: "(db, 'a) op \<Rightarrow> (db, unit) op" where
  "exec m = thenM m (ret ())"

definition insert_record :: "rec_row \<Rightarrow> (db, unit) op" where
  "insert_record r = on_records (insert_row record_key (\<lambda>_. 0 < rw_version r) r)"

definition insert_head :: "head_row \<Rightarrow> (db, unit) op" where
  "insert_head r = on_heads (insert_row head_key (\<lambda>_. 0 < hd_sequence r) r)"

definition insert_budget :: "budget_row \<Rightarrow> (db, unit) op" where
  "insert_budget r = on_budgets (insert_row budget_key (\<lambda>_. 0 \<le> bg_cap r \<and> 0 \<le> bg_held r) r)"

definition insert_reservation :: "reservation_row \<Rightarrow> (db, unit) op" where
  "insert_reservation r = on_reservations (insert_row reservation_key
     (\<lambda>rows. 0 \<le> rs_reserved r \<and> reservation_request r \<notin> reservation_request ` set rows) r)"

definition insert_verifier :: "verifier_row \<Rightarrow> (db, unit) op" where
  "insert_verifier r = on_verifiers (insert_row verifier_key (\<lambda>_. True) r)"

definition insert_payload :: "payload_row \<Rightarrow> (db, unit) op" where
  "insert_payload r = on_payloads (insert_row payload_key (\<lambda>_. True) r)"

definition insert_request :: "request_row \<Rightarrow> (db, unit) op" where
  "insert_request r = on_requests (insert_row request_key
     (\<lambda>rows. request_ident r \<notin> request_ident ` set rows) r)"

definition insert_queue :: "queue_row \<Rightarrow> (db, unit) op" where
  "insert_queue r = on_queue (insert_row queue_key (\<lambda>_. True) r)"

section \<open>Decimal numerals\<close>

definition digit :: "nat \<Rightarrow> char" where
  "digit d = char_of (48 + d)"

fun show_nat :: "nat \<Rightarrow> string" where
  "show_nat n = (if n < 10 then [digit n] else show_nat (n div 10) @ [digit (n mod 10)])"

definition show_int :: "int \<Rightarrow> string" where
  "show_int i = (if i < 0 then CHR ''-'' # show_nat (nat (- i)) else show_nat (nat i))"

declare show_nat.simps [simp del]

lemma digit_inj: "a < 10 \<Longrightarrow> b < 10 \<Longrightarrow> digit a = digit b \<longleftrightarrow> a = b"
proof -
  assume ab: "a < 10" "b < 10"
  have "of_char (digit a) = 48 + a" "of_char (digit b) = 48 + b"
    using ab by (simp_all add: digit_def)
  then show ?thesis by (metis add_left_cancel)
qed

lemma show_nat_nonempty: "show_nat n \<noteq> []"
  by (subst show_nat.simps) simp

lemma show_nat_inj: "show_nat a = show_nat b \<Longrightarrow> a = b"
proof (induction a arbitrary: b rule: show_nat.induct)
  case (1 a)
  show ?case
  proof (cases "a < 10")
    case True
    show ?thesis
    proof (cases "b < 10")
      case True
      then show ?thesis using "1.prems" \<open>a < 10\<close> digit_inj
        by (simp add: show_nat.simps [of a] show_nat.simps [of b])
    next
      case False
      then have "show_nat b = show_nat (b div 10) @ [digit (b mod 10)]"
        by (subst show_nat.simps) simp
      then show ?thesis using "1.prems" \<open>a < 10\<close> show_nat_nonempty [of "b div 10"]
        by (simp add: show_nat.simps [of a])
    qed
  next
    case False
    then have a: "show_nat a = show_nat (a div 10) @ [digit (a mod 10)]"
      by (subst show_nat.simps) simp
    show ?thesis
    proof (cases "b < 10")
      case True
      then show ?thesis using "1.prems" a show_nat_nonempty [of "a div 10"]
        by (simp add: show_nat.simps [of b])
    next
      case b: False
      then have "show_nat b = show_nat (b div 10) @ [digit (b mod 10)]"
        by (subst show_nat.simps) simp
      then have "show_nat (a div 10) = show_nat (b div 10)" "digit (a mod 10) = digit (b mod 10)"
        using "1.prems" a by simp_all
      then have "a div 10 = b div 10" "a mod 10 = b mod 10"
        using "1.IH" [OF False] digit_inj by auto
      then show ?thesis by (metis div_mod_decomp)
    qed
  qed
qed

lemma digits_code: "c \<in> set (show_nat n) \<Longrightarrow> 48 \<le> (of_char c :: nat) \<and> (of_char c :: nat) < 58"
proof (induction n rule: show_nat.induct)
  case (1 n)
  have dig: "of_char (digit d) = 48 + d" if "d < 10" for d
    using that by (simp add: digit_def)
  show ?case
  proof (cases "n < 10")
    case True
    then have "c = digit n" using "1.prems" by (simp add: show_nat.simps [of n])
    then show ?thesis using dig [OF True] True by simp
  next
    case False
    then have "c \<in> set (show_nat (n div 10)) \<or> c = digit (n mod 10)"
      using "1.prems" by (auto simp: show_nat.simps [of n])
    then show ?thesis using "1.IH" [OF False] dig [of "n mod 10"] by auto
  qed
qed

lemma show_int_chars: "CHR '':'' \<notin> set (show_int i)"
  using digits_code [of "CHR '':''"] by (auto simp: show_int_def)

lemma show_int_inj: "show_int i = show_int j \<Longrightarrow> i = j"
proof -
  assume eq: "show_int i = show_int j"
  have minus: "CHR ''-'' # xs \<noteq> show_nat n" for xs n
  proof
    assume "CHR ''-'' # xs = show_nat n"
    then have "CHR ''-'' \<in> set (show_nat n)" by (metis list.set_intros(1))
    then show False using digits_code [of "CHR ''-''" n] by simp
  qed
  consider "i < 0" "j < 0" | "0 \<le> i" "0 \<le> j" | "i < 0" "0 \<le> j" | "0 \<le> i" "j < 0"
    by linarith
  then show ?thesis
  proof cases
    case 1
    then show ?thesis using eq show_nat_inj [of "nat (- i)" "nat (- j)"] by (simp add: show_int_def)
  next
    case 2
    then show ?thesis using eq show_nat_inj [of "nat i" "nat j"] by (simp add: show_int_def)
  next
    case 3
    then show ?thesis using eq minus by (simp add: show_int_def)
  next
    case 4
    then show ?thesis using eq minus [symmetric] by (simp add: show_int_def)
  qed
qed

definition ref_text :: "version_ref \<Rightarrow> string" where
  "ref_text r = vr_id r @ '':'' @ show_int (vr_version r)"

lemma split_last:
  "xs @ c # us = ys @ c # vs \<Longrightarrow> c \<notin> set us \<Longrightarrow> c \<notin> set vs \<Longrightarrow> xs = ys \<and> us = vs"
proof (induction xs arbitrary: ys)
  case Nil
  then show ?case by (cases ys) auto
next
  case (Cons x xs)
  then show ?case by (cases ys) auto
qed

lemma ref_text_inj: "ref_text a = ref_text b \<Longrightarrow> a = b"
  using split_last [of "vr_id a" "CHR '':''" "show_int (vr_version a)" "vr_id b"]
    show_int_chars show_int_inj by (auto simp: ref_text_def intro!: version_ref.equality)

end
