(* ===== verification/Storage.thy ===== *)
theory Storage
  imports Store_Schema
begin

text \<open>
  \<open>execution_storage.py\<close>: every method of \<open>SandboxStorage\<close> as an operation on the
  database.  Each \<open>engine.begin()\<close> block is one \<open>transact\<close>; a method made of
  several transactions is their sequence, and what a transaction relies on having
  read before is an argument of it, so that the step relation of \<open>Storage_Safety\<close>
  can run it later, after other writers.  The clock readings of a method are its
  arguments \<open>now\<close>.  The external functions are collected in \<open>env\<close>: SHA-256 over a
  string, the policy digest, and the length of a payload's JSON; \<open>env_offline\<close> is
  \<open>offline_contract_test\<close>.
\<close>

record env =
  env_sha :: "string \<Rightarrow> string"
  env_digest :: "executable_policy \<Rightarrow> string"
  env_dump_bytes :: "private_payload \<Rightarrow> nat"
  env_offline :: bool

definition state_id :: "env \<Rightarrow> version_ref \<Rightarrow> string" where
  "state_id e r = env_sha e (ref_text r)"

section \<open>Records\<close>

definition find_record :: "string \<Rightarrow> rec_kind \<Rightarrow> string \<Rightarrow> int \<Rightarrow> db \<Rightarrow> payload option" where
  "find_record owner kind i version s = map_option rw_payload (scalar
     (filter (\<lambda>r. record_key r = (owner, kind, i, version)) (db_records s)))"

definition append_record :: "string \<Rightarrow> rec_kind \<Rightarrow> string \<Rightarrow> int \<Rightarrow> payload \<Rightarrow> (db, unit) op" where
  "append_record owner kind i version value =
     bindM (getsM (find_record owner kind i version)) (\<lambda>old. case old of
       Some p \<Rightarrow> guardM (p = value) (DomainError CONFLICT 409)
     | None \<Rightarrow> insert_record \<lparr> rw_owner = owner, rw_kind = kind, rw_id = i,
                 rw_version = version, rw_payload = value \<rparr>)"

definition versions :: "string \<Rightarrow> rec_kind \<Rightarrow> string \<Rightarrow> db \<Rightarrow> int list" where
  "versions owner kind i s = map rw_version
     (filter (\<lambda>r. rw_owner r = owner \<and> rw_kind r = kind \<and> rw_id r = i) (db_records s))"

definition is_latest :: "db \<Rightarrow> rec_row \<Rightarrow> bool" where
  "is_latest s r = (rw_version r = sql_max (versions (rw_owner r) (rw_kind r) (rw_id r) s))"

definition records :: "string \<Rightarrow> rec_kind \<Rightarrow> db \<Rightarrow> payload list" where
  "records owner kind s = map rw_payload (take 1000 (sort_key rw_id
     (filter (\<lambda>r. rw_owner r = owner \<and> rw_kind r = kind \<and> is_latest s r) (db_records s))))"

definition attempts :: "string \<Rightarrow> string \<Rightarrow> db \<Rightarrow> payload list" where
  "attempts owner run s = map rw_payload (take 1000 (sort_key rw_id
     (filter (\<lambda>r. rw_owner r = owner \<and> rw_kind r = KAttempt
        \<and> (case rw_payload r of PlAttempt a \<Rightarrow> ra_run_id a = run | _ \<Rightarrow> False)
        \<and> is_latest s r) (db_records s))))"

definition read_record :: "string \<Rightarrow> rec_kind \<Rightarrow> string \<Rightarrow> int \<Rightarrow> db \<Rightarrow> payload res" where
  "read_record owner kind i version s =
     (case find_record owner kind i version s of None \<Rightarrow> err NOT_FOUND 404 | Some p \<Rightarrow> ok p)"

text \<open>\<open>ORDER BY version DESC LIMIT 1\<close>: the row with the greatest version.\<close>

definition latest :: "string \<Rightarrow> rec_kind \<Rightarrow> string \<Rightarrow> db \<Rightarrow> (int \<times> payload) res" where
  "latest owner kind i s =
     (case versions owner kind i s of [] \<Rightarrow> err NOT_FOUND 404
      | vs \<Rightarrow> (let v = sql_max vs in
          case find_record owner kind i v s of None \<Rightarrow> err NOT_FOUND 404 | Some p \<Rightarrow> ok (v, p)))"

text \<open>\<open>X.model_validate_json(...)\<close> of a payload.\<close>

definition as_policy :: "payload \<Rightarrow> executable_policy res" where
  "as_policy p = (case p of PlPolicy x \<Rightarrow> ok x | _ \<Rightarrow> Inl ValueError)"
definition as_transition :: "payload \<Rightarrow> policy_transition res" where
  "as_transition p = (case p of PlTransition x \<Rightarrow> ok x | _ \<Rightarrow> Inl ValueError)"
definition as_admission :: "payload \<Rightarrow> sandbox_admission res" where
  "as_admission p = (case p of PlAdmission x \<Rightarrow> ok x | _ \<Rightarrow> Inl ValueError)"
definition as_alias :: "payload \<Rightarrow> route_alias res" where
  "as_alias p = (case p of PlAlias x \<Rightarrow> ok x | _ \<Rightarrow> Inl ValueError)"
definition as_key :: "payload \<Rightarrow> application_key res" where
  "as_key p = (case p of PlKey x \<Rightarrow> ok x | _ \<Rightarrow> Inl ValueError)"
definition as_run :: "payload \<Rightarrow> sandbox_run res" where
  "as_run p = (case p of PlRun x \<Rightarrow> ok x | _ \<Rightarrow> Inl ValueError)"
definition as_trace :: "payload \<Rightarrow> decision_trace res" where
  "as_trace p = (case p of PlTrace x \<Rightarrow> ok x | _ \<Rightarrow> Inl ValueError)"
definition as_event :: "payload \<Rightarrow> run_event res" where
  "as_event p = (case p of PlEvent x \<Rightarrow> ok x | _ \<Rightarrow> Inl ValueError)"
definition as_context :: "payload \<Rightarrow> queued_context res" where
  "as_context p = (case p of PlQueuedContext x \<Rightarrow> ok x | _ \<Rightarrow> Inl ValueError)"
definition as_run_request :: "private_payload \<Rightarrow> run_request res" where
  "as_run_request p = (case p of PpRunRequest x \<Rightarrow> ok x | _ \<Rightarrow> Inl ValueError)"
definition as_output :: "private_payload \<Rightarrow> stored_output res" where
  "as_output p = (case p of PpOutput x \<Rightarrow> ok x | _ \<Rightarrow> Inl ValueError)"
definition as_sample :: "private_payload \<Rightarrow> imported_sample res" where
  "as_sample p = (case p of PpSample x \<Rightarrow> ok x | _ \<Rightarrow> Inl ValueError)"

text \<open>A read that may raise, as an operation.\<close>

definition query :: "(db \<Rightarrow> 'a res) \<Rightarrow> (db, 'a) op" where
  "query q = bindM (getsM q) liftM"

definition save_prompt :: "string \<Rightarrow> prompt_revision \<Rightarrow> (db, prompt_revision) op" where
  "save_prompt owner p = thenM
     (case pr_parent p of None \<Rightarrow> ret ()
      | Some q \<Rightarrow> exec (query (read_record owner KPrompt (vr_id q) (vr_version q))))
     (thenM (transact (append_record owner KPrompt (pr_id p) (pr_version p) (PlPrompt p))) (ret p))"

definition save_run :: "string \<Rightarrow> sandbox_run \<Rightarrow> int \<Rightarrow> (db, unit) op" where
  "save_run owner r revision = transact (append_record owner KRun (rn_id r) revision (PlRun r))"

definition save_attempt :: "string \<Rightarrow> run_attempt \<Rightarrow> int \<Rightarrow> (db, unit) op" where
  "save_attempt owner a revision = thenM
     (guardM (dt_tenant_id (ra_trace a) = owner) (DomainError NOT_FOUND 404))
     (transact (append_record owner KAttempt (ra_id a) revision (PlAttempt a)))"

definition save_trace :: "string \<Rightarrow> decision_trace \<Rightarrow> (db, unit) op" where
  "save_trace owner d = thenM (guardM (dt_tenant_id d = owner) (DomainError NOT_FOUND 404))
     (transact (append_record owner KTrace (dt_request_id d) 1 (PlTrace d)))"

definition save_comparison :: "string \<Rightarrow> comparison_result \<Rightarrow> int \<Rightarrow> (db, unit) op" where
  "save_comparison owner c revision =
     transact (append_record owner KComparison (cx_cmp_id c) revision (PlComparison c))"

definition read_trace :: "string \<Rightarrow> string \<Rightarrow> db \<Rightarrow> decision_trace res" where
  "read_trace owner request s = rbind (read_record owner KTrace request 1 s) as_trace"

section \<open>Run events\<close>

definition save_event :: "string \<Rightarrow> run_event \<Rightarrow> (db, unit) op" where
  "save_event owner e =
     thenM (guardM (valid_event e) ValueError)
     (thenM (exec (query (latest owner KRun (ev_run_id e))))
     (transact (bindM (getsM (\<lambda>s. sql_max (versions owner KEvent (ev_run_id e) s))) (\<lambda>last.
        thenM (guardM (ev_sequence e = last + 1) (DomainError CONFLICT 409))
        (append_record owner KEvent (ev_run_id e) (ev_sequence e) (PlEvent e))))))"

definition event_page :: "string \<Rightarrow> string \<Rightarrow> int \<Rightarrow> db \<Rightarrow> payload list" where
  "event_page owner run after s = map rw_payload (take 1000 (sort_key rw_version
     (filter (\<lambda>r. rw_owner r = owner \<and> rw_kind r = KEvent \<and> rw_id r = run \<and> after < rw_version r)
        (db_records s))))"

definition events :: "string \<Rightarrow> string \<Rightarrow> int \<Rightarrow> (db, run_event list) op" where
  "events owner run after =
     thenM (exec (query (latest owner KRun run)))
     (thenM (guardM (0 \<le> after \<and> after \<le> 10000) (DomainError INVALID 422))
     (bindM (getsM (event_page owner run after)) (mapM (\<lambda>p. liftM (as_event p)))))"

section \<open>Policies and transitions\<close>

definition head_rows :: "string \<Rightarrow> version_ref \<Rightarrow> db \<Rightarrow> head_row list" where
  "head_rows owner r s =
     filter (\<lambda>h. head_key h = (owner, vr_id r, vr_version r)) (db_heads s)"

definition policy :: "env \<Rightarrow> string \<Rightarrow> version_ref \<Rightarrow> db \<Rightarrow> policy_view res" where
  "policy e owner r s =
     rbind (rbind (read_record owner KPolicy (vr_id r) (vr_version r) s) as_policy) (\<lambda>value.
     rbind (scalar_one (map hd_sequence (head_rows owner r s))) (\<lambda>sequence.
     rbind (rbind (read_record owner KTransition (state_id e r) sequence s) as_transition) (\<lambda>t.
     ok \<lparr> vw_policy = value, vw_transition = t \<rparr>)))"

definition policy_exists :: "env \<Rightarrow> string \<Rightarrow> version_ref \<Rightarrow> db \<Rightarrow> bool res" where
  "policy_exists e owner r s = (case policy e owner r s of
     Inr _ \<Rightarrow> ok True
   | Inl (DomainError c st) \<Rightarrow> if st = 404 then ok False else Inl (DomainError c st)
   | Inl x \<Rightarrow> Inl x)"

definition append_policy_tx :: "env \<Rightarrow> int \<Rightarrow> string \<Rightarrow> executable_policy \<Rightarrow> (db, unit) op" where
  "append_policy_tx e now owner p =
     (let r = \<lparr> vr_id = ep_id p, vr_version = ep_version p \<rparr> in
      bindM (getsM (\<lambda>s. sql_max (versions owner KPolicy (ep_id p) s))) (\<lambda>last.
         thenM (guardM (ep_version p \<le> last + 1) (DomainError CONFLICT 409))
         (thenM (append_record owner KPolicy (ep_id p) (ep_version p) (PlPolicy p))
         (if ep_version p = last + 1 then
            thenM (append_record owner KTransition (state_id e r) 1 (PlTransition
               \<lparr> pt_policy = r, pt_sequence = 1, pt_status = PsDraft, pt_admission_id = None,
                 pt_actor_id = owner, pt_occurred_at = now \<rparr>))
            (insert_head \<lparr> hd_owner = owner, hd_policy_id = ep_id p,
               hd_policy_version = ep_version p, hd_sequence = 1 \<rparr>)
          else ret ()))))"

definition append_policy :: "env \<Rightarrow> int \<Rightarrow> string \<Rightarrow> executable_policy \<Rightarrow> (db, policy_view) op" where
  "append_policy e now owner p =
     thenM (conflict_on_integrity (transact (append_policy_tx e now owner p)))
       (query (policy e owner \<lparr> vr_id = ep_id p, vr_version = ep_version p \<rparr>))"

definition pinned_result :: "plan_view \<Rightarrow> executable_policy \<Rightarrow> catalog res" where
  "pinned_result v p = (case pw_result v of
     None \<Rightarrow> err CONFLICT 409
   | Some r \<Rightarrow> (case px_catalog r of
       None \<Rightarrow> err CONFLICT 409
     | Some c \<Rightarrow> if Some (ep_workflow p) \<noteq> px_workflow r \<or> ep_catalog_id p \<noteq> cat_id c
                then err CONFLICT 409 else ok c))"

definition create_policy :: "env \<Rightarrow> int \<Rightarrow> string \<Rightarrow> executable_policy \<Rightarrow> (db, policy_view) op" where
  "create_policy e now owner p =
     bindM (query (\<lambda>s. plan_view owner (vr_id (ep_plan p)) (vr_version (ep_plan p)) (db_planning s)))
       (\<lambda>v. bindM (liftM (pinned_result v p)) (\<lambda>c.
        thenM (guardM (set (policy_configurations p) \<subseteq> set (map cfg_id (cat_configurations c)))
                 (DomainError INVALID 422))
        (append_policy e now owner p)))"

text \<open>The checks of \<open>transition\<close> before its transaction: the transition to store.\<close>

definition next_transition :: "env \<Rightarrow> int \<Rightarrow> int \<Rightarrow> string \<Rightarrow> version_ref \<Rightarrow> transition_request
    \<Rightarrow> policy_view \<Rightarrow> db \<Rightarrow> policy_transition res" where
  "next_transition e now now' owner r q v s =
     rbind (check (pt_sequence (vw_transition v) = tq_expected_sequence q
                   \<and> tq_status q \<noteq> pt_status (vw_transition v)) (DomainError CONFLICT 409)) (\<lambda>_.
     rbind (if tq_status q = PsSandboxEnabled then
              (case tq_admission_id q of None \<Rightarrow> err UNSUPPORTED 403
               | Some a \<Rightarrow> if a = [] then err UNSUPPORTED 403 else
                   rbind (rbind (read_record owner KAdmission a 1 s) as_admission) (\<lambda>adm.
                     validate_admission (env_digest e) owner (vw_policy v) adm now (env_offline e)))
            else check (tq_admission_id q = None) (DomainError INVALID 422)) (\<lambda>_.
     ok \<lparr> pt_policy = r, pt_sequence = tq_expected_sequence q + 1, pt_status = tq_status q,
          pt_admission_id = tq_admission_id q, pt_actor_id = owner, pt_occurred_at = now' \<rparr>))"

text \<open>The transaction of \<open>transition\<close>: compare-and-swap of the head, then the record.\<close>

definition swap_head :: "env \<Rightarrow> string \<Rightarrow> version_ref \<Rightarrow> policy_transition \<Rightarrow> (db, unit) op" where
  "swap_head e owner r t = transact
     (thenM (bindM (on_heads (update_rows
          (\<lambda>h. head_key h = (owner, vr_id r, vr_version r) \<and> hd_sequence h = pt_sequence t - 1)
          (\<lambda>h. h\<lparr> hd_sequence := pt_sequence t \<rparr>)))
        (\<lambda>n. guardM (n = 1) (DomainError CONFLICT 409)))
      (append_record owner KTransition (state_id e r) (pt_sequence t) (PlTransition t)))"

definition transition :: "env \<Rightarrow> int \<Rightarrow> int \<Rightarrow> string \<Rightarrow> version_ref \<Rightarrow> transition_request
    \<Rightarrow> (db, policy_view) op" where
  "transition e now now' owner r q =
     bindM (query (policy e owner r)) (\<lambda>v.
     bindM (query (next_transition e now now' owner r q v)) (\<lambda>t.
     thenM (swap_head e owner r t) (query (policy e owner r))))"

definition create_alias :: "env \<Rightarrow> string \<Rightarrow> route_alias \<Rightarrow> (db, route_alias) op" where
  "create_alias e owner a =
     bindM (query (policy e owner (al_policy a))) (\<lambda>v.
     thenM (liftM (validate_alias (vw_policy v) a))
     (thenM (conflict_on_integrity (transact (append_record owner KAlias (al_id a) 1 (PlAlias a))))
       (ret a)))"

definition stored_alias :: "string \<Rightarrow> string \<Rightarrow> db \<Rightarrow> route_alias res" where
  "stored_alias owner i s = rbind (read_record owner KAlias i 1 s) as_alias"

section \<open>Budgets\<close>

definition provision_in :: "string \<Rightarrow> string \<Rightarrow> int \<Rightarrow> (db, unit) op" where
  "provision_in owner i cap =
     thenM (guardM (0 \<le> cap \<and> cap \<le> 1000000) ValueError)
       (insert_budget \<lparr> bg_owner = owner, bg_id = i, bg_cap = cap, bg_held = 0 \<rparr>)"

definition provision_budget :: "string \<Rightarrow> string \<Rightarrow> int \<Rightarrow> (db, unit) op" where
  "provision_budget owner i cap = transact (provision_in owner i cap)"

definition budget_cap :: "string \<Rightarrow> string \<Rightarrow> db \<Rightarrow> int res" where
  "budget_cap owner i s =
     scalar_one (map bg_cap (filter (\<lambda>b. budget_key b = (owner, i)) (db_budgets s)))"

definition hold :: "string \<Rightarrow> string \<Rightarrow> int \<Rightarrow> (db, nat) op" where
  "hold owner i amount = on_budgets (update_rows
     (\<lambda>b. budget_key b = (owner, i) \<and> bg_held b + amount \<le> bg_cap b)
     (\<lambda>b. b\<lparr> bg_held := bg_held b + amount \<rparr>))"

definition reserve :: "string \<Rightarrow> string \<Rightarrow> string \<Rightarrow> string \<Rightarrow> int \<Rightarrow> (db, unit) op" where
  "reserve owner budget_id reservation_id request_id amount =
     thenM (guardM (0 \<le> amount \<and> amount \<le> 1000000) ValueError)
     (conflict_on_integrity (transact
       (thenM (bindM (hold owner budget_id amount)
                 (\<lambda>n. guardM (n = 1) (DomainError UNSUPPORTED 429)))
          (insert_reservation \<lparr> rs_owner = owner, rs_id = reservation_id,
             rs_budget_id = budget_id, rs_request_id = request_id, rs_reserved = amount,
             rs_actual = None, rs_state = ResReserved \<rparr>))))"

definition find_reservation :: "string \<Rightarrow> string \<Rightarrow> db \<Rightarrow> reservation_row option" where
  "find_reservation owner i s =
     scalar (filter (\<lambda>r. reservation_key r = (owner, i)) (db_reservations s))"

definition freeze :: "string \<Rightarrow> string \<Rightarrow> (db, unit) op" where
  "freeze owner budget_id = exec (on_budgets (update_rows
     (\<lambda>b. budget_key b = (owner, budget_id)) (\<lambda>b. b\<lparr> bg_held := bg_cap b \<rparr>)))"

definition settle :: "string \<Rightarrow> string \<Rightarrow> reservation_row \<Rightarrow> int option \<Rightarrow> (db, unit) op" where
  "settle owner i row actual = bindM
     (on_reservations (update_rows
        (\<lambda>r. reservation_key r = (owner, i) \<and> rs_state r = rs_state row)
        (\<lambda>r. r\<lparr> rs_state := (if actual = None then ResUncertain else ResReconciled),
               rs_actual := actual \<rparr>)))
     (\<lambda>n. guardM (n = 1) (DomainError CONFLICT 409))"

definition over :: "int option \<Rightarrow> reservation_row \<Rightarrow> bool" where
  "over actual row = (case actual of None \<Rightarrow> False | Some a \<Rightarrow> rs_reserved row < a)"

definition reconcile_tx :: "string \<Rightarrow> string \<Rightarrow> int option \<Rightarrow> (db, unit) op" where
  "reconcile_tx owner i actual =
     bindM (getsM (find_reservation owner i)) (\<lambda>found. case found of
        None \<Rightarrow> throw (DomainError NOT_FOUND 404)
      | Some row \<Rightarrow>
          if rs_state row = ResReconciled
          then guardM (rs_actual row = actual) (DomainError CONFLICT 409)
          else if over actual row
          then thenM (freeze owner (rs_budget_id row)) (settle owner i row None)
          else settle owner i row actual)"

definition reconcile :: "string \<Rightarrow> string \<Rightarrow> int option \<Rightarrow> (db, unit) op" where
  "reconcile owner i actual =
     thenM (guardM (case actual of None \<Rightarrow> True | Some a \<Rightarrow> 0 \<le> a) ValueError)
     (transact (reconcile_tx owner i actual))"

section \<open>Application keys\<close>

fun split_colon :: "string \<Rightarrow> string list" where
  "split_colon [] = [[]]"
| "split_colon (c # cs) = (if c = CHR '':'' then [] # split_colon cs
     else (case split_colon cs of w # ws \<Rightarrow> (c # w) # ws | [] \<Rightarrow> [[c]]))"

definition is_decimal :: "char \<Rightarrow> bool" where
  "is_decimal c = (let n = (of_char c :: nat) in 48 \<le> n \<and> n \<le> 57)"

text \<open>\<open>pbkdf2_sha256:[1-9][0-9]{5,6}:[a-f0-9]{32}:[a-f0-9]{64}\<close>\<close>

definition verifier_format :: "string \<Rightarrow> bool" where
  "verifier_format v = (case split_colon v of
     [name, rounds, salt, expected] \<Rightarrow> name = ''pbkdf2_sha256''
       \<and> (length rounds = 6 \<or> length rounds = 7) \<and> list_all is_decimal rounds
       \<and> rounds ! 0 \<noteq> CHR ''0'' \<and> is_hex 32 salt \<and> is_hex 64 expected
   | _ \<Rightarrow> False)"

definition save_application_key :: "string \<Rightarrow> application_key \<Rightarrow> string \<Rightarrow> int option
    \<Rightarrow> (db, unit) op" where
  "save_application_key owner k verifier cap =
     thenM (guardM (ak_tenant_id k = owner \<and> verifier_format verifier) ValueError)
     (conflict_on_integrity (transact
       (thenM (case cap of None \<Rightarrow> ret () | Some c \<Rightarrow> provision_in owner (''key-'' @ ak_id k) c)
       (thenM (append_record owner KKey (ak_id k) 1 (PlKey k))
         (insert_verifier \<lparr> vf_owner = owner, vf_id = ak_id k, vf_verifier = verifier \<rparr>)))))"

definition key_record :: "string \<Rightarrow> string \<Rightarrow> db \<Rightarrow> (application_key \<times> string) res" where
  "key_record owner i s =
     rbind (latest owner KKey i s) (\<lambda>(_, raw).
     rbind (scalar_one (map vf_verifier (filter (\<lambda>v. verifier_key v = (owner, i)) (db_verifiers s))))
       (\<lambda>verifier. rbind (as_key raw) (\<lambda>k. ok (k, verifier))))"

definition revoke_key :: "string \<Rightarrow> string \<Rightarrow> int \<Rightarrow> (db, application_key) op" where
  "revoke_key owner i now =
     bindM (query (latest owner KKey i)) (\<lambda>(version, raw).
     bindM (liftM (as_key raw)) (\<lambda>k.
       if ak_revoked_at k \<noteq> None then ret k
       else (let k' = k\<lparr> ak_revoked_at := Some now \<rparr> in
         thenM (guardM (valid_key k') ValueError)
         (thenM (conflict_on_integrity (transact
                   (append_record owner KKey i (version + 1) (PlKey k'))))
           (ret k')))))"

section \<open>Private payloads\<close>

definition save_payload :: "env \<Rightarrow> string \<Rightarrow> payload_kind \<Rightarrow> string \<Rightarrow> private_payload \<Rightarrow> int
    \<Rightarrow> (db, unit) op" where
  "save_payload e owner kind i value expiry =
     thenM (guardM (env_dump_bytes e value \<le> 65536) (DomainError INVALID 413))
     (conflict_on_integrity (transact (insert_payload \<lparr> py_owner = owner, py_kind = kind,
        py_id = i, py_expires_at = expiry, py_payload = value \<rparr>)))"

definition read_payload :: "int \<Rightarrow> string \<Rightarrow> payload_kind \<Rightarrow> string \<Rightarrow> db \<Rightarrow> private_payload res" where
  "read_payload now owner kind i s =
     (case scalar (filter (\<lambda>p. payload_key p = (owner, kind, i) \<and> now < py_expires_at p)
             (db_payloads s)) of
        None \<Rightarrow> err NOT_FOUND 404 | Some p \<Rightarrow> ok (py_payload p))"

definition purge_expired_payloads :: "int \<Rightarrow> (db, nat) op" where
  "purge_expired_payloads now = transact (on_payloads (delete_rows (\<lambda>p. py_expires_at p \<le> now)))"

definition import_sample :: "env \<Rightarrow> int \<Rightarrow> string \<Rightarrow> imported_sample \<Rightarrow> (db, imported_sample) op" where
  "import_sample e now owner v =
     thenM (guardM (\<bar>now - is_imported_at v\<bar> \<le> micros 60) (DomainError INVALID 422))
     (thenM (save_payload e owner PkSample (is_id v) (PpSample v)
               (is_imported_at v + micros (is_retention_days v * 86400)))
       (ret v))"

definition read_sample :: "int \<Rightarrow> string \<Rightarrow> string \<Rightarrow> db \<Rightarrow> imported_sample res" where
  "read_sample now owner i s = rbind (read_payload now owner PkSample i s) as_sample"

definition save_output :: "env \<Rightarrow> string \<Rightarrow> stored_output \<Rightarrow> (db, unit) op" where
  "save_output e owner v = save_payload e owner PkOutput (so_id v) (PpOutput v) (so_expires_at v)"

definition read_output :: "int \<Rightarrow> string \<Rightarrow> string \<Rightarrow> db \<Rightarrow> stored_output res" where
  "read_output now owner i s = rbind (read_payload now owner PkOutput i s) as_output"

definition outputs_for_run :: "int \<Rightarrow> string \<Rightarrow> string \<Rightarrow> db \<Rightarrow> private_payload list" where
  "outputs_for_run now owner run s = map py_payload (take 1000 (sort_key py_id
     (filter (\<lambda>p. py_owner p = owner \<and> py_kind p = PkOutput
        \<and> (case py_payload p of PpOutput o' \<Rightarrow> so_run_id o' = run | _ \<Rightarrow> False)
        \<and> now < py_expires_at p) (db_payloads s))))"

section \<open>Requests\<close>

definition is_idempotency_key :: "string \<Rightarrow> bool" where
  "is_idempotency_key k = (8 \<le> length k \<and> length k \<le> 80 \<and> list_all is_word_char k)"

definition find_request :: "string \<Rightarrow> string \<Rightarrow> db \<Rightarrow> request_row option" where
  "find_request owner key s = scalar (filter (\<lambda>r. request_key r = (owner, key)) (db_requests s))"

text \<open>With the caller's connection (inside its transaction) and with its own.\<close>

definition register_in :: "string \<Rightarrow> string \<Rightarrow> string \<Rightarrow> string \<Rightarrow> (db, string \<times> bool) op" where
  "register_in owner key request_id input_hash =
     bindM (getsM (find_request owner key)) (\<lambda>row. case row of
       Some r \<Rightarrow> thenM (guardM (rt_input_hash r = input_hash) (DomainError CONFLICT 409))
                   (ret (rt_request_id r, False))
     | None \<Rightarrow> thenM (insert_request \<lparr> rt_owner = owner, rt_request_key = key,
                 rt_request_id = request_id, rt_input_hash = input_hash, rt_state = RsQueued \<rparr>)
                 (ret (request_id, True)))"

definition register_with :: "(db, string \<times> bool) op \<Rightarrow> string \<Rightarrow> string \<Rightarrow> (db, string \<times> bool) op" where
  "register_with body key input_hash =
     thenM (guardM (is_idempotency_key key \<and> is_hex 64 input_hash) (DomainError INVALID 422))
       (conflict_on_integrity body)"

definition register_request :: "string \<Rightarrow> string \<Rightarrow> string \<Rightarrow> string \<Rightarrow> (db, string \<times> bool) op" where
  "register_request owner key request_id input_hash =
     register_with (transact (register_in owner key request_id input_hash)) key input_hash"

definition request_rows :: "string \<Rightarrow> string \<Rightarrow> db \<Rightarrow> request_row list" where
  "request_rows owner i s = filter (\<lambda>r. request_ident r = (owner, i)) (db_requests s)"

definition request_state :: "string \<Rightarrow> string \<Rightarrow> db \<Rightarrow> run_status res" where
  "request_state owner i s = (case scalar (request_rows owner i s) of
     None \<Rightarrow> err NOT_FOUND 404 | Some r \<Rightarrow> ok (rt_state r))"

definition request_transitions :: "run_status \<Rightarrow> run_status list" where
  "request_transitions s = (case s of
     RsQueued \<Rightarrow> [RsRunning, RsCancelled]
   | RsRunning \<Rightarrow> [RsSucceeded, RsFailed, RsCancelled, RsUncertain, RsAwaitingApproval]
   | _ \<Rightarrow> [])"

definition advance_request :: "string \<Rightarrow> string \<Rightarrow> run_status \<Rightarrow> run_status \<Rightarrow> (db, unit) op" where
  "advance_request owner i expected state =
     thenM (guardM (state \<in> set (request_transitions expected)) (DomainError CONFLICT 409))
     (transact (bindM (on_requests (update_rows
          (\<lambda>r. request_ident r = (owner, i) \<and> rt_state r = expected)
          (\<lambda>r. r\<lparr> rt_state := state \<rparr>)))
        (\<lambda>n. guardM (n = 1) (DomainError CONFLICT 409))))"

text \<open>\<open>UPDATE sandbox_requests SET state='uncertain' ... AND state IN ('queued','running')\<close>\<close>

definition doubt_request :: "string \<Rightarrow> string \<Rightarrow> (db, unit) op" where
  "doubt_request owner i = exec (on_requests (update_rows
     (\<lambda>r. request_ident r = (owner, i) \<and> rt_state r \<in> {RsQueued, RsRunning})
     (\<lambda>r. r\<lparr> rt_state := RsUncertain \<rparr>)))"

section \<open>The runtime queue\<close>

definition enqueue_runtime :: "int \<Rightarrow> queued_context \<Rightarrow> run_request \<Rightarrow> sandbox_run \<Rightarrow> string
    \<Rightarrow> (db, string \<times> bool) op" where
  "enqueue_runtime now c value run input_hash = transact
     (bindM (register_with (register_in (qc_tenant_id c) (qc_idempotency_key c) (rn_id run) input_hash)
               (qc_idempotency_key c) input_hash) (\<lambda>(i, created).
      if \<not> created then ret (i, False) else
      thenM (append_record (qc_tenant_id c) KRun (rn_id run) 1 (PlRun run))
      (thenM (append_record (qc_tenant_id c) KContext (rn_id run) 1 (PlQueuedContext c))
      (thenM (insert_payload \<lparr> py_owner = qc_tenant_id c, py_kind = PkQueuedInput, py_id = rn_id run,
                py_expires_at = now + micros 120, py_payload = PpRunRequest value \<rparr>)
      (thenM (insert_queue \<lparr> qu_owner = qc_tenant_id c, qu_id = rn_id run,
                qu_request_key = qc_idempotency_key c, qu_principal_id = qc_principal_id c,
                qu_key_id = map_option ak_id (qc_application_key c), qu_deadline = qc_deadline c,
                qu_state = QsQueued, qu_lease_until = None \<rparr>)
        (ret (rn_id run, True)))))))"

definition lapsed :: "int \<Rightarrow> queue_row \<Rightarrow> bool" where
  "lapsed now q = ((qu_state q = QsRunning
        \<and> (case qu_lease_until q of None \<Rightarrow> False | Some t \<Rightarrow> t < now))
     \<or> (qu_state q = QsQueued \<and> qu_deadline q < now))"

definition doubt_entry :: "string \<times> string \<Rightarrow> (db, unit) op" where
  "doubt_entry k = thenM
     (exec (on_queue (update_rows (\<lambda>q. queue_key q = k) (\<lambda>q. q\<lparr> qu_state := QsUncertain \<rparr>))))
     (doubt_request (fst k) (snd k))"

definition ready_entries :: "int \<Rightarrow> db \<Rightarrow> (string \<times> string) list" where
  "ready_entries now s = map queue_key (take 20 (sort_key qu_deadline
     (filter (\<lambda>q. qu_state q = QsQueued \<and> now < qu_deadline q) (db_queue s))))"

text \<open>Try the entries in turn; stop at the first whose update hit a row.\<close>

fun take_first :: "int \<Rightarrow> (string \<times> string) list \<Rightarrow> (db, (string \<times> string) option) op" where
  "take_first until [] = ret None"
| "take_first until (k # ks) = bindM
     (on_queue (update_rows (\<lambda>q. queue_key q = k \<and> qu_state q = QsQueued)
        (\<lambda>q. q\<lparr> qu_state := QsRunning, qu_lease_until := Some until \<rparr>)))
     (\<lambda>n. if n = 1 then ret (Some k) else take_first until ks)"

definition claim_entry :: "int \<Rightarrow> (db, (string \<times> string) option) op" where
  "claim_entry now = transact
     (thenM (exec (on_payloads (delete_rows
               (\<lambda>p. py_kind p = PkQueuedInput \<and> py_expires_at p \<le> now))))
     (thenM (bindM (getsM (\<lambda>s. map queue_key (filter (lapsed now) (db_queue s))))
               (\<lambda>ks. forM ks doubt_entry))
     (bindM (getsM (ready_entries now)) (take_first (now + micros 125)))))"

definition finish_runtime :: "string \<Rightarrow> string \<Rightarrow> bool \<Rightarrow> (db, unit) op" where
  "finish_runtime owner i uncertain = transact
     (thenM (exec (on_queue (update_rows
               (\<lambda>q. queue_key q = (owner, i) \<and> qu_state q = QsRunning)
               (\<lambda>q. q\<lparr> qu_state := (if uncertain then QsUncertain else QsDone) \<rparr>))))
     (thenM (if uncertain then doubt_request owner i else ret ())
       (exec (on_payloads (delete_rows (\<lambda>p. payload_key p = (owner, PkQueuedInput, i)))))))"

definition claimed_work :: "int \<Rightarrow> string \<Rightarrow> string \<Rightarrow> db \<Rightarrow> (queued_context \<times> run_request) res" where
  "claimed_work now' owner i s =
     rbind (rbind (read_record owner KContext i 1 s) as_context) (\<lambda>c.
     rbind (rbind (read_payload now' owner PkQueuedInput i s) as_run_request) (\<lambda>v. ok (c, v)))"

definition claim_runtime :: "int \<Rightarrow> int \<Rightarrow> (db, (queued_context \<times> run_request) option) op" where
  "claim_runtime now now' =
     bindM (claim_entry now) (\<lambda>selected. case selected of
       None \<Rightarrow> ret None
     | Some (owner, i) \<Rightarrow>
         catchM (bindM (query (claimed_work now' owner i)) (\<lambda>w. ret (Some w)))
           (\<lambda>e. case e of
              DomainError c st \<Rightarrow> thenM (finish_runtime owner i True) (ret None)
            | _ \<Rightarrow> throw e))"

definition queue_claimed :: "string \<Rightarrow> string \<Rightarrow> db \<Rightarrow> bool" where
  "queue_claimed owner i s =
     (map_option qu_state (scalar (filter (\<lambda>q. queue_key q = (owner, i)) (db_queue s)))
        = Some QsRunning)"

end
