(* ===== verification/Storage_Steps.thy ===== *)
theory Storage_Steps
  imports Storage
begin

text \<open>
  Every sequence of storage operations, by any number of concurrent callers: a
  step of \<open>db_step\<close> is one method, or one transaction of a method that reads in an
  earlier one (\<open>swap_head\<close>, with any transition that was vetted when it was built).
  The frame lemmas say which tables each operation leaves alone; the theories that
  follow prove one invariant each over \<open>db_reachable\<close>.
\<close>

section \<open>Frames\<close>

lemma keeps_query: "keeps part (query q)"
  by (simp add: query_def keeps_rules)

lemma keeps_exec: "keeps part m \<Longrightarrow> keeps part (exec m)"
  by (simp add: exec_def keeps_rules)

lemma query_run [simp]: "query q s = (q s, s)"
  by (simp add: query_def bindM_run split: sum.split)

lemma query_ok_iff: "query q s = (Inr x, t) \<longleftrightarrow> q s = Inr x \<and> t = s"
  by auto

lemma exec_ok_iff: "exec m s = (Inr u, t) \<longleftrightarrow> (\<exists>x. m s = (Inr x, t))"
  by (auto simp: exec_def thenM_ok_iff)

definition money :: "db \<Rightarrow> budget_row list \<times> reservation_row list" where
  "money s = (db_budgets s, db_reservations s)"

definition flow :: "db \<Rightarrow> request_row list \<times> queue_row list" where
  "flow s = (db_requests s, db_queue s)"

lemma table_frames:
  "keeps money (on_records f)" "keeps flow (on_records f)" "keeps db_heads (on_records f)"
  "keeps money (on_heads g)" "keeps flow (on_heads g)" "keeps db_records (on_heads g)"
  "keeps flow (on_budgets h)" "keeps db_heads (on_budgets h)" "keeps db_records (on_budgets h)"
  "keeps flow (on_reservations k)" "keeps db_heads (on_reservations k)"
  "keeps db_records (on_reservations k)"
  "keeps money (on_verifiers l)" "keeps flow (on_verifiers l)" "keeps db_heads (on_verifiers l)"
  "keeps db_records (on_verifiers l)"
  "keeps money (on_payloads m)" "keeps flow (on_payloads m)" "keeps db_heads (on_payloads m)"
  "keeps db_records (on_payloads m)"
  "keeps money (on_requests n)" "keeps db_heads (on_requests n)" "keeps db_records (on_requests n)"
  "keeps money (on_queue p)" "keeps db_heads (on_queue p)" "keeps db_records (on_queue p)"
  "keeps money (on_health q)" "keeps flow (on_health q)" "keeps db_heads (on_health q)"
  "keeps db_records (on_health q)"
  by (rule keeps_on_table, simp add: money_def flow_def)+

lemmas frame_rules = keeps_rules keeps_exec keeps_query table_frames

lemma append_frames:
  "keeps money (append_record ow k i v p)" "keeps flow (append_record ow k i v p)"
  "keeps db_heads (append_record ow k i v p)"
  by (auto simp: append_record_def insert_record_def intro!: frame_rules split: option.split)

lemma insert_frames:
  "keeps money (insert_payload pr)" "keeps flow (insert_payload pr)"
  "keeps db_heads (insert_payload pr)" "keeps db_records (insert_payload pr)"
  "keeps money (insert_verifier vr)" "keeps flow (insert_verifier vr)"
  "keeps db_heads (insert_verifier vr)" "keeps db_records (insert_verifier vr)"
  "keeps money (insert_head hr)" "keeps flow (insert_head hr)" "keeps db_records (insert_head hr)"
  "keeps flow (insert_budget br)" "keeps db_heads (insert_budget br)"
  "keeps db_records (insert_budget br)"
  "keeps money (insert_request rr)" "keeps db_heads (insert_request rr)"
  "keeps db_records (insert_request rr)"
  "keeps money (insert_queue qr)" "keeps db_heads (insert_queue qr)"
  "keeps db_records (insert_queue qr)"
  "keeps flow (insert_reservation sr)" "keeps db_heads (insert_reservation sr)"
  "keeps db_records (insert_reservation sr)"
  by (simp_all add: insert_payload_def insert_verifier_def insert_head_def insert_budget_def
      insert_request_def insert_queue_def insert_reservation_def frame_rules)

lemmas all_frames = frame_rules append_frames insert_frames

text \<open>The methods that append records.\<close>

lemma save_event_frames:
  "keeps money (save_event ow e)" "keeps flow (save_event ow e)" "keeps db_heads (save_event ow e)"
  by (simp_all add: save_event_def all_frames)

lemma append_policy_frames:
  "keeps money (append_policy e now ow p)" "keeps flow (append_policy e now ow p)"
  by (simp_all add: append_policy_def append_policy_tx_def Let_def all_frames)

lemma create_policy_frames:
  "keeps money (create_policy e now ow p)" "keeps flow (create_policy e now ow p)"
  by (simp_all add: create_policy_def all_frames append_policy_frames)

lemma swap_head_frames:
  "keeps money (swap_head e ow r t)" "keeps flow (swap_head e ow r t)"
  by (simp_all add: swap_head_def all_frames)

lemma alias_frames:
  "keeps money (create_alias e ow al)" "keeps flow (create_alias e ow al)"
  "keeps db_heads (create_alias e ow al)"
  by (simp_all add: create_alias_def all_frames)

lemma key_frames:
  "keeps flow (save_application_key ow key v cap)" "keeps db_heads (save_application_key ow key v cap)"
  "keeps money (revoke_key ow i now)" "keeps flow (revoke_key ow i now)"
  "keeps db_heads (revoke_key ow i now)"
  by (auto simp: save_application_key_def revoke_key_def provision_in_def Let_def
      intro!: all_frames split: option.split)

text \<open>Payloads, requests and the queue.\<close>

lemma payload_frames:
  "keeps money (save_payload e ow pk i v ex)" "keeps flow (save_payload e ow pk i v ex)"
  "keeps db_heads (save_payload e ow pk i v ex)" "keeps db_records (save_payload e ow pk i v ex)"
  "keeps money (purge_expired_payloads now)" "keeps flow (purge_expired_payloads now)"
  "keeps db_heads (purge_expired_payloads now)" "keeps db_records (purge_expired_payloads now)"
  by (simp_all add: save_payload_def purge_expired_payloads_def all_frames)

lemma doubt_frames:
  "keeps money (doubt_request ow i)" "keeps db_heads (doubt_request ow i)"
  "keeps db_records (doubt_request ow i)" "keeps money (doubt_entry k)"
  "keeps db_heads (doubt_entry k)" "keeps db_records (doubt_entry k)"
  by (simp_all add: doubt_request_def doubt_entry_def all_frames)

lemma take_first_frames:
  "keeps money (take_first u ks)" "keeps db_heads (take_first u ks)"
  "keeps db_records (take_first u ks)"
  by (induction ks) (auto intro!: all_frames)

lemma register_in_frames:
  "keeps money (register_in ow key i h)" "keeps db_heads (register_in ow key i h)"
  "keeps db_records (register_in ow key i h)"
  by (auto simp: register_in_def intro!: all_frames split: option.split)

lemma request_frames:
  "keeps money (register_request ow key i h)" "keeps db_heads (register_request ow key i h)"
  "keeps db_records (register_request ow key i h)"
  "keeps money (advance_request ow i x y)" "keeps db_heads (advance_request ow i x y)"
  "keeps db_records (advance_request ow i x y)"
  by (auto simp: register_request_def register_with_def advance_request_def
      intro!: all_frames register_in_frames)

lemma queue_frames:
  "keeps money (enqueue_runtime now c v r h)" "keeps db_heads (enqueue_runtime now c v r h)"
  "keeps money (claim_entry now)" "keeps db_heads (claim_entry now)" "keeps db_records (claim_entry now)"
  "keeps money (finish_runtime ow i b)" "keeps db_heads (finish_runtime ow i b)"
  "keeps db_records (finish_runtime ow i b)"
  by (auto simp: enqueue_runtime_def register_with_def claim_entry_def finish_runtime_def
      intro!: all_frames register_in_frames doubt_frames take_first_frames)

text \<open>Budgets.\<close>

lemma budget_frames:
  "keeps flow (provision_in ow i cap)" "keeps db_heads (provision_in ow i cap)"
  "keeps db_records (provision_in ow i cap)"
  "keeps flow (provision_budget ow i cap)" "keeps db_heads (provision_budget ow i cap)"
  "keeps db_records (provision_budget ow i cap)"
  by (simp_all add: provision_budget_def provision_in_def all_frames)

lemma reserve_frames:
  "keeps flow (reserve ow b i rq amount)" "keeps db_heads (reserve ow b i rq amount)"
  "keeps db_records (reserve ow b i rq amount)"
  by (simp_all add: reserve_def hold_def all_frames)

lemma reconcile_frames:
  "keeps flow (reconcile ow i actual)" "keeps db_heads (reconcile ow i actual)"
  "keeps db_records (reconcile ow i actual)"
  by (auto simp: reconcile_def reconcile_tx_def freeze_def settle_def intro!: all_frames split: option.split)

section \<open>Steps\<close>

text \<open>
  A transition is vetted against a database when its policy is stored there and,
  if it enables the sandbox, its admission is stored and passed the validator at
  some time; both facts survive every later step because records are immutable.
\<close>

definition admitted :: "env \<Rightarrow> string \<Rightarrow> version_ref \<Rightarrow> policy_transition \<Rightarrow> db \<Rightarrow> bool" where
  "admitted e ow r t s = (\<exists>p a adm now.
     find_record ow KPolicy (vr_id r) (vr_version r) s = Some (PlPolicy p)
     \<and> pt_admission_id t = Some a \<and> find_record ow KAdmission a 1 s = Some (PlAdmission adm)
     \<and> validate_admission (env_digest e) ow p adm now (env_offline e) = Inr ())"

definition vetted :: "env \<Rightarrow> string \<Rightarrow> version_ref \<Rightarrow> policy_transition \<Rightarrow> db \<Rightarrow> bool" where
  "vetted e ow r t s = (pt_policy t = r \<and> pt_actor_id t = ow
     \<and> (if pt_status t = PsSandboxEnabled then admitted e ow r t s else pt_admission_id t = None))"

text \<open>Records written by one append in a transaction, apart from policies,
  transitions, events and application keys, which have operations of their own.\<close>

definition plain_kind :: "rec_kind \<Rightarrow> bool" where
  "plain_kind k = (k \<notin> {KPolicy, KTransition, KEvent})"

inductive db_step :: "env \<Rightarrow> db \<Rightarrow> db \<Rightarrow> bool" for e where
  append: "plain_kind k \<Longrightarrow> k \<noteq> KKey \<Longrightarrow> db_step e s (snd (transact (append_record ow k i v p) s))"
| event: "db_step e s (snd (save_event ow ev s))"
| policy: "db_step e s (snd (append_policy e now ow p s))"
| swap: "vetted e ow r t s \<Longrightarrow> db_step e s (snd (swap_head e ow r t s))"
| new_alias: "db_step e s (snd (create_alias e ow al s))"
| provision: "db_step e s (snd (provision_budget ow i cap s))"
| reserve: "db_step e s (snd (reserve ow b i rq amount s))"
| reconcile: "db_step e s (snd (reconcile ow i actual s))"
| save_key: "db_step e s (snd (save_application_key ow key v copt s))"
| revoke: "db_step e s (snd (revoke_key ow i now s))"
| save_payload: "db_step e s (snd (save_payload e ow pk i pp ex s))"
| purge: "db_step e s (snd (purge_expired_payloads now s))"
| register: "db_step e s (snd (register_request ow rk i h s))"
| advance: "db_step e s (snd (advance_request ow i x y s))"
| enqueue: "db_step e s (snd (enqueue_runtime now c rq run h s))"
| claim: "db_step e s (snd (claim_entry now s))"
| finish: "db_step e s (snd (finish_runtime ow i u s))"
| health: "keeps (\<lambda>s. s\<lparr> db_health := [] \<rparr>) (m :: (db, unit) op) \<Longrightarrow> db_step e s (snd (m s))"
| planning: "keeps (\<lambda>s. s\<lparr> db_planning := empty_plan_db \<rparr>) (m :: (db, unit) op) \<Longrightarrow> db_step e s (snd (m s))"

inductive db_reachable :: "env \<Rightarrow> db \<Rightarrow> bool" for e where
  start: "db_reachable e empty_db"
| step: "db_reachable e s \<Longrightarrow> db_step e s t \<Longrightarrow> db_reachable e t"

lemma reachable_steps: "(db_step e)\<^sup>*\<^sup>* s t \<Longrightarrow> db_reachable e s \<Longrightarrow> db_reachable e t"
  by (induction rule: rtranclp_induct) (auto intro: db_reachable.step)

lemma health_update [simp]:
  "money (s\<lparr> db_health := h \<rparr>) = money s" "flow (s\<lparr> db_health := h \<rparr>) = flow s"
  "money (s\<lparr> db_planning := p \<rparr>) = money s" "flow (s\<lparr> db_planning := p \<rparr>) = flow s"
  by (simp_all add: money_def flow_def)

lemma other_tables:
  assumes "s\<lparr> db_health := [] \<rparr> = t\<lparr> db_health := [] \<rparr>
    \<or> s\<lparr> db_planning := empty_plan_db \<rparr> = t\<lparr> db_planning := empty_plan_db \<rparr>"
  shows "money s = money t \<and> flow s = flow t \<and> db_heads s = db_heads t \<and> db_records s = db_records t"
  using assms
proof
  assume eq: "s\<lparr> db_health := [] \<rparr> = t\<lparr> db_health := [] \<rparr>"
  show ?thesis
    using arg_cong [OF eq, of money] arg_cong [OF eq, of flow] arg_cong [OF eq, of db_heads]
      arg_cong [OF eq, of db_records] by simp
next
  assume eq: "s\<lparr> db_planning := empty_plan_db \<rparr> = t\<lparr> db_planning := empty_plan_db \<rparr>"
  show ?thesis
    using arg_cong [OF eq, of money] arg_cong [OF eq, of flow] arg_cong [OF eq, of db_heads]
      arg_cong [OF eq, of db_records] by simp
qed

lemma health_tables:
  "keeps (\<lambda>s. s\<lparr> db_health := [] \<rparr>) m \<Longrightarrow> money (snd (m s)) = money s \<and> flow (snd (m s)) = flow s
     \<and> db_heads (snd (m s)) = db_heads s \<and> db_records (snd (m s)) = db_records s"
  by (rule other_tables, rule disjI1, erule keepsD)

lemma planning_tables:
  "keeps (\<lambda>s. s\<lparr> db_planning := empty_plan_db \<rparr>) m \<Longrightarrow> money (snd (m s)) = money s
     \<and> flow (snd (m s)) = flow s \<and> db_heads (snd (m s)) = db_heads s
     \<and> db_records (snd (m s)) = db_records s"
  by (rule other_tables, rule disjI2, erule keepsD)

text \<open>Concrete external functions, for the examples of the theories that follow.\<close>

definition ex_env :: env where
  "ex_env = \<lparr> env_sha = (\<lambda>x. x), env_digest = (\<lambda>p. ep_id p), env_dump_bytes = (\<lambda>_. 2),
     env_offline = True \<rparr>"

end
