(* ===== verification/Budgets.thy ===== *)
theory Budgets
  imports Storage_Steps
begin

text \<open>
  Money in \<open>execution_storage.py\<close>: \<open>provision_budget\<close>, \<open>reserve\<close>, \<open>reconcile\<close>.  The
  ledger invariant holds in every reachable database; caps never change and holds
  never shrink; an overage freezes its budget for good.
\<close>

section \<open>The ledger\<close>

definition reserved_in :: "string \<times> string \<Rightarrow> reservation_row list \<Rightarrow> int" where
  "reserved_in k rs = (\<Sum>r\<leftarrow>rs. if (rs_owner r, rs_budget_id r) = k then rs_reserved r else 0)"

definition budget_covered :: "reservation_row list \<Rightarrow> budget_row \<Rightarrow> bool" where
  "budget_covered rs b = (0 \<le> bg_held b \<and> bg_held b \<le> bg_cap b \<and> bg_cap b \<le> 1000000
     \<and> reserved_in (budget_key b) rs \<le> bg_held b)"

definition reservation_sound :: "budget_row list \<Rightarrow> reservation_row \<Rightarrow> bool" where
  "reservation_sound bs r = ((rs_owner r, rs_budget_id r) \<in> budget_key ` set bs
     \<and> 0 \<le> rs_reserved r \<and> (rs_state r = ResReconciled \<longleftrightarrow> rs_actual r \<noteq> None)
     \<and> (case rs_actual r of None \<Rightarrow> True | Some a \<Rightarrow> 0 \<le> a \<and> a \<le> rs_reserved r))"

definition ledger :: "budget_row list \<Rightarrow> reservation_row list \<Rightarrow> bool" where
  "ledger bs rs = (distinct (map budget_key bs) \<and> distinct (map reservation_key rs)
     \<and> distinct (map reservation_request rs)
     \<and> list_all (budget_covered rs) bs \<and> list_all (reservation_sound bs) rs)"

definition funds_sound :: "db \<Rightarrow> bool" where
  "funds_sound s = ledger (db_budgets s) (db_reservations s)"

lemma reserved_in_simps [simp]:
  "reserved_in k [] = 0" "reserved_in k (xs @ ys) = reserved_in k xs + reserved_in k ys"
  "reserved_in k [r] = (if (rs_owner r, rs_budget_id r) = k then rs_reserved r else 0)"
  by (simp_all add: reserved_in_def)

lemma reserved_in_upd:
  "(\<And>r. rs_owner (f r) = rs_owner r \<and> rs_budget_id (f r) = rs_budget_id r
      \<and> rs_reserved (f r) = rs_reserved r) \<Longrightarrow> reserved_in k (upd_where p f rs) = reserved_in k rs"
  by (induction rs) (auto simp: reserved_in_def)

lemma reserved_in_none: "k \<notin> (\<lambda>r. (rs_owner r, rs_budget_id r)) ` set rs \<Longrightarrow> reserved_in k rs = 0"
  by (induction rs) (auto simp: reserved_in_def)

lemma funds_money: "keeps money m \<Longrightarrow> preserves funds_sound m"
  by (erule keeps_pres) (simp add: money_def funds_sound_def)

lemma key_upd:
  assumes "\<And>b. key (f b) = key b"
  shows "map key (upd_where p f bs) = map key bs" "key ` set (upd_where p f bs) = key ` set bs"
proof -
  show "map key (upd_where p f bs) = map key bs" using assms by (intro map_upd_where)
  then show "key ` set (upd_where p f bs) = key ` set bs" by (metis set_map)
qed

text \<open>Changing the holds of some budgets within their caps, never below what was held.\<close>

lemma ledger_hold:
  assumes led: "ledger bs rs" and key: "\<And>b. budget_key (f b) = budget_key b"
    and cap: "\<And>b. bg_cap (f b) = bg_cap b"
    and held: "\<And>b. b \<in> set bs \<Longrightarrow> p b \<Longrightarrow> bg_held b \<le> bg_held (f b) \<and> bg_held (f b) \<le> bg_cap b"
  shows "ledger (upd_where p f bs) rs"
proof -
  have "budget_covered rs (if p b then f b else b)" if b: "b \<in> set bs" for b
  proof -
    have "budget_covered rs b" using led b by (simp add: ledger_def list_all_iff)
    then show ?thesis using held [OF b] key cap by (auto simp: budget_covered_def)
  qed
  then have "list_all (budget_covered rs) (upd_where p f bs)"
    by (simp only: upd_where_def list_all_iff set_map ball_simps) blast
  moreover have "reservation_sound (upd_where p f bs) = reservation_sound bs"
    by (simp add: reservation_sound_def [abs_def] key_upd [of budget_key f, OF key])
  ultimately show ?thesis using led key_upd [of budget_key f, OF key] by (simp add: ledger_def)
qed

lemma ledger_settle:
  assumes led: "ledger bs rs" and p: "\<And>r. r \<in> set rs \<Longrightarrow> p r \<Longrightarrow> (case actual of None \<Rightarrow> True
     | Some a \<Rightarrow> 0 \<le> a \<and> a \<le> rs_reserved r)"
  shows "ledger bs (upd_where p (\<lambda>r. r\<lparr> rs_state := (if actual = None then ResUncertain
     else ResReconciled), rs_actual := actual \<rparr>) rs)" (is "ledger bs (upd_where p ?f rs)")
proof -
  have keys: "reservation_key (?f r) = reservation_key r"
    "reservation_request (?f r) = reservation_request r" for r
    by (simp_all add: reservation_key_def reservation_request_def)
  have "reserved_in k (upd_where p ?f rs) = reserved_in k rs" for k
    by (rule reserved_in_upd) simp
  then have cov: "budget_covered (upd_where p ?f rs) = budget_covered rs"
    by (simp add: budget_covered_def [abs_def])
  have "reservation_sound bs (if p r then ?f r else r)" if r: "r \<in> set rs" for r
  proof -
    have "reservation_sound bs r" using led r by (simp add: ledger_def list_all_iff)
    then show ?thesis using p [OF r] by (auto simp: reservation_sound_def split: option.splits)
  qed
  then have "list_all (reservation_sound bs) (upd_where p ?f rs)"
    by (simp only: upd_where_def list_all_iff set_map ball_simps) blast
  then show ?thesis
    using led key_upd(1) [of reservation_key ?f, OF keys(1)]
      key_upd(1) [of reservation_request ?f, OF keys(2)] by (simp add: ledger_def cov)
qed

lemma ledger_provision:
  assumes led: "ledger bs rs" and new: "budget_key b \<notin> budget_key ` set bs"
    and b: "bg_held b = 0" "0 \<le> bg_cap b" "bg_cap b \<le> 1000000"
  shows "ledger (bs @ [b]) rs"
proof -
  have "budget_key b \<notin> (\<lambda>r. (rs_owner r, rs_budget_id r)) ` set rs"
    using led new by (auto simp: ledger_def list_all_iff reservation_sound_def)
  then have "reserved_in (budget_key b) rs = 0" by (rule reserved_in_none)
  then show ?thesis
    using led new b by (auto simp: ledger_def budget_covered_def reservation_sound_def list_all_iff)
qed

lemma ledger_reserve:
  assumes led: "ledger bs rs" and amount: "0 \<le> amount"
    and one: "count_where (\<lambda>b. budget_key b = k \<and> bg_held b + amount \<le> bg_cap b) bs = 1"
    and r: "(rs_owner r, rs_budget_id r) = k" "rs_reserved r = amount" "rs_actual r = None"
      "rs_state r = ResReserved" "reservation_key r \<notin> reservation_key ` set rs"
      "reservation_request r \<notin> reservation_request ` set rs"
  shows "ledger (upd_where (\<lambda>b. budget_key b = k \<and> bg_held b + amount \<le> bg_cap b)
     (\<lambda>b. b\<lparr> bg_held := bg_held b + amount \<rparr>) bs) (rs @ [r])"
    (is "ledger (upd_where ?p ?f bs) _")
proof -
  have key: "\<And>b. budget_key (?f b) = budget_key b" by (simp add: budget_key_def)
  have l: "ledger (upd_where ?p ?f bs) rs"
    by (rule ledger_hold [OF led key]) (use amount in auto)
  have d: "distinct (map budget_key bs)" using led by (simp add: ledger_def)
  have room: "\<And>b. ?p b \<Longrightarrow> budget_key b = k" by simp
  obtain c where c: "c \<in> set bs" "?p c"
    by (rule count_where_1_row [OF d room one])
  have "budget_covered (rs @ [r]) (if ?p b then ?f b else b)" if b: "b \<in> set bs" for b
  proof -
    have cov: "budget_covered rs b" using led b by (simp add: ledger_def list_all_iff)
    have "budget_key b = k \<Longrightarrow> ?p b" using key_unique [OF d b c(1)] c(2) by auto
    then show ?thesis using cov r amount by (auto simp: budget_covered_def key)
  qed
  then have "list_all (budget_covered (rs @ [r])) (upd_where ?p ?f bs)"
    by (simp only: upd_where_def list_all_iff set_map ball_simps) blast
  moreover have "reservation_sound (upd_where ?p ?f bs) r"
  proof -
    have "k \<in> budget_key ` set bs" using c by auto
    then show ?thesis
      using r amount key_upd(2) [of budget_key ?f ?p bs, OF key]
      by (simp add: reservation_sound_def)
  qed
  ultimately show ?thesis using l r by (simp add: ledger_def)
qed

section \<open>The operations keep it\<close>

lemma provision_in_sound: "preserves funds_sound (provision_in ow i cap)"
  unfolding provision_in_def
proof (rule preservesI, unfold guard_then)
  fix s assume s: "funds_sound s"
  have "funds_sound (snd (insert_budget \<lparr> bg_owner = ow, bg_id = i, bg_cap = cap, bg_held = 0 \<rparr> s))"
    if "0 \<le> cap \<and> cap \<le> 1000000"
    using s that unfolding insert_budget_def on_table_def insert_row_def
    by (auto simp: funds_sound_def intro!: ledger_provision)
  then show "funds_sound (snd (if 0 \<le> cap \<and> cap \<le> 1000000
      then insert_budget \<lparr> bg_owner = ow, bg_id = i, bg_cap = cap, bg_held = 0 \<rparr> s
      else (Inl ValueError, s)))"
    using s by simp
qed

lemma provision_sound: "preserves funds_sound (provision_budget ow i cap)"
  unfolding provision_budget_def by (intro pres_rules provision_in_sound)

lemma save_key_sound: "preserves funds_sound (save_application_key ow k v cap)"
  unfolding save_application_key_def
  by (intro pres_rules pres_conflict provision_in_sound funds_money all_frames)

definition with_room :: "string \<Rightarrow> string \<Rightarrow> int \<Rightarrow> budget_row \<Rightarrow> bool" where
  "with_room ow b amount r = (budget_key r = (ow, b) \<and> bg_held r + amount \<le> bg_cap r)"

definition new_reservation :: "string \<Rightarrow> string \<Rightarrow> string \<Rightarrow> string \<Rightarrow> int \<Rightarrow> reservation_row" where
  "new_reservation ow b i rq amount = \<lparr> rs_owner = ow, rs_id = i, rs_budget_id = b,
     rs_request_id = rq, rs_reserved = amount, rs_actual = None, rs_state = ResReserved \<rparr>"

lemma reserve_ok_iff:
  "reserve ow b i rq amount s = (Inr u, t) \<longleftrightarrow>
     0 \<le> amount \<and> amount \<le> 1000000 \<and> count_where (with_room ow b amount) (db_budgets s) = 1
     \<and> (ow, i) \<notin> reservation_key ` set (db_reservations s)
     \<and> (ow, rq) \<notin> reservation_request ` set (db_reservations s)
     \<and> t = s\<lparr> db_budgets := upd_where (with_room ow b amount)
               (\<lambda>r. r\<lparr> bg_held := bg_held r + amount \<rparr>) (db_budgets s),
             db_reservations := db_reservations s @ [new_reservation ow b i rq amount] \<rparr>"
  by (auto simp: reserve_def hold_def insert_reservation_def bindM_ok_iff thenM_ok_iff
      on_table_ok_iff new_reservation_def with_room_def [abs_def] reservation_key_def
      reservation_request_def)

lemma reserve_atomic: "atomic (reserve ow b i rq amount)"
  unfolding reserve_def by (intro atomic_rules)

lemma reserve_sound: "preserves funds_sound (reserve ow b i rq amount)"
proof (rule atomic_pres [OF reserve_atomic])
  fix s u t assume s: "funds_sound s" and run: "reserve ow b i rq amount s = (Inr u, t)"
  note ok = run [unfolded reserve_ok_iff]
  have "ledger (upd_where (with_room ow b amount) (\<lambda>r. r\<lparr> bg_held := bg_held r + amount \<rparr>)
      (db_budgets s)) (db_reservations s @ [new_reservation ow b i rq amount])"
    using ledger_reserve [of "db_budgets s" "db_reservations s" amount "(ow, b)"
        "new_reservation ow b i rq amount"] s ok
    unfolding funds_sound_def with_room_def [abs_def]
    by (simp add: new_reservation_def reservation_key_def reservation_request_def)
  then show "funds_sound t" using ok by (simp add: funds_sound_def)
qed

section \<open>Reconciliation\<close>

lemma freeze_sound: "preserves funds_sound (freeze ow b)"
proof (rule preservesI)
  fix s assume s: "funds_sound s"
  have "ledger (upd_where (\<lambda>c. budget_key c = (ow, b)) (\<lambda>c. c\<lparr> bg_held := bg_cap c \<rparr>) (db_budgets s))
     (db_reservations s)"
    by (rule ledger_hold)
      (use s in \<open>auto simp: funds_sound_def budget_key_def ledger_def list_all_iff budget_covered_def\<close>)
  then show "funds_sound (snd (freeze ow b s))"
    by (simp add: freeze_def exec_def thenM_run on_table_def update_rows_def funds_sound_def)
qed

lemma find_reservation_row:
  assumes "find_reservation ow i s = Some row"
  shows "row \<in> set (db_reservations s) \<and> reservation_key row = (ow, i)"
  using scalar_in [OF assms [unfolded find_reservation_def]] by simp

lemma settle_run:
  "settle ow i row actual s = (let n = count_where (\<lambda>r. reservation_key r = (ow, i)
       \<and> rs_state r = rs_state row) (db_reservations s) in
     ((if n = 1 then Inr () else Inl (DomainError CONFLICT 409)),
      s\<lparr> db_reservations := upd_where (\<lambda>r. reservation_key r = (ow, i) \<and> rs_state r = rs_state row)
        (\<lambda>r. r\<lparr> rs_state := (if actual = None then ResUncertain else ResReconciled),
               rs_actual := actual \<rparr>) (db_reservations s) \<rparr>))"
  by (simp add: settle_def bindM_run on_table_def update_rows_def guardM_run Let_def)

lemma settle_sound:
  assumes s: "funds_sound s"
    and a: "\<And>r. r \<in> set (db_reservations s) \<Longrightarrow> reservation_key r = (ow, i) \<Longrightarrow>
       (case actual of None \<Rightarrow> True | Some a \<Rightarrow> 0 \<le> a \<and> a \<le> rs_reserved r)"
  shows "funds_sound (snd (settle ow i row actual s))"
  using ledger_settle [of "db_budgets s" "db_reservations s"
      "\<lambda>r. reservation_key r = (ow, i) \<and> rs_state r = rs_state row" actual] s a
  by (simp add: settle_run Let_def funds_sound_def)

lemma reconcile_tx_cases:
  obtains (missing) "find_reservation ow i s = None"
      "reconcile_tx ow i actual s = (Inl (DomainError NOT_FOUND 404), s)"
  | (settled) row where "find_reservation ow i s = Some row" "rs_state row = ResReconciled"
      "reconcile_tx ow i actual s
         = (if rs_actual row = actual then Inr () else Inl (DomainError CONFLICT 409), s)"
  | (over) row where "find_reservation ow i s = Some row" "rs_state row \<noteq> ResReconciled"
      "over actual row" "reconcile_tx ow i actual s
         = settle ow i row None (snd (freeze ow (rs_budget_id row) s))"
  | (within) row where "find_reservation ow i s = Some row" "rs_state row \<noteq> ResReconciled"
      "\<not> over actual row" "reconcile_tx ow i actual s = settle ow i row actual s"
proof (cases "find_reservation ow i s")
  case None
  then show ?thesis using that(1) by (simp add: reconcile_tx_def bindM_run)
next
  case (Some row)
  consider "rs_state row = ResReconciled" | "rs_state row \<noteq> ResReconciled" "over actual row"
    | "rs_state row \<noteq> ResReconciled" "\<not> over actual row" by blast
  then show ?thesis
  proof cases
    case 1
    then show ?thesis using that(2) Some by (simp add: reconcile_tx_def bindM_run guardM_run)
  next
    case 2
    then show ?thesis using that(3) Some
      by (simp add: reconcile_tx_def bindM_run thenM_run freeze_def exec_def on_table_def update_rows_def)
  next
    case 3
    then show ?thesis using that(4) Some by (simp add: reconcile_tx_def bindM_run)
  qed
qed

lemma reconcile_sound: "preserves funds_sound (reconcile ow i actual)"
proof (rule atomic_pres)
  show "atomic (reconcile ow i actual)" unfolding reconcile_def by (intro atomic_rules)
  fix s u t assume s: "funds_sound s" and run: "reconcile ow i actual s = (Inr u, t)"
  from run have pos: "case actual of None \<Rightarrow> True | Some a \<Rightarrow> 0 \<le> a"
    and tx: "t = snd (reconcile_tx ow i actual s)"
    by (auto simp: reconcile_def guard_then split: if_splits)
  have d: "distinct (map reservation_key (db_reservations s))"
    using s by (simp add: funds_sound_def ledger_def)
  show "funds_sound t"
  proof (cases rule: reconcile_tx_cases [of ow i s actual])
    case (over row)
    have "funds_sound (snd (freeze ow (rs_budget_id row) s))"
      by (rule preservesD [OF freeze_sound s])
    then have "funds_sound (snd (settle ow i row None (snd (freeze ow (rs_budget_id row) s))))"
      by (rule settle_sound) simp
    then show ?thesis using over tx by simp
  next
    case (within row)
    have "case actual of None \<Rightarrow> True | Some a \<Rightarrow> 0 \<le> a \<and> a \<le> rs_reserved r"
      if r: "r \<in> set (db_reservations s)" "reservation_key r = (ow, i)" for r
    proof -
      have "r = row" using key_unique [OF d r(1)] find_reservation_row [OF within(1)] r(2) by simp
      then show ?thesis using within pos by (auto simp: over_def split: option.splits)
    qed
    then have "funds_sound (snd (settle ow i row actual s))" by (rule settle_sound [OF s])
    then show ?thesis using within tx by simp
  qed (use s tx in auto)
qed

section \<open>Every step keeps it\<close>

lemma money_step:
  assumes "db_step e s t"
  shows "money t = money s \<or> (\<exists>ow i cap. t = snd (provision_budget ow i cap s))
    \<or> (\<exists>ow b i rq amount. t = snd (reserve ow b i rq amount s))
    \<or> (\<exists>ow i actual. t = snd (reconcile ow i actual s))
    \<or> (\<exists>ow k v cap. t = snd (save_application_key ow k v cap s))"
  using assms
proof cases
  case (append k ow i v p)
  have "keeps money (transact (append_record ow k i v p))" by (intro all_frames)
  then show ?thesis using append keepsD by metis
next
  case (register ow rk i h) then show ?thesis by (simp add: keepsD [OF request_frames(1)])
next
  case (advance ow i x y) then show ?thesis by (simp add: keepsD [OF request_frames(4)])
next
  case (enqueue now c rq run h) then show ?thesis by (simp add: keepsD [OF queue_frames(1)])
next
  case (claim now) then show ?thesis by (simp add: keepsD [OF queue_frames(3)])
next
  case (finish ow i u) then show ?thesis by (simp add: keepsD [OF queue_frames(6)])
next
  case (event ow ev) then show ?thesis by (simp add: keepsD [OF save_event_frames(1)])
next
  case (policy now ow p) then show ?thesis by (simp add: keepsD [OF append_policy_frames(1)])
next
  case (swap ow r t) then show ?thesis by (simp add: keepsD [OF swap_head_frames(1)])
next
  case (new_alias ow al) then show ?thesis by (simp add: keepsD [OF alias_frames(1)])
next
  case (revoke ow i now) then show ?thesis by (simp add: keepsD [OF key_frames(3)])
next
  case (save_payload ow pk i pp ex) then show ?thesis by (simp add: keepsD [OF payload_frames(1)])
next
  case (purge now) then show ?thesis by (simp add: keepsD [OF payload_frames(5)])
next
  case (health m) then show ?thesis by (simp add: health_tables)
next
  case (planning m) then show ?thesis by (simp add: planning_tables)
qed blast+

lemma funds_sound_money: "money t = money s \<Longrightarrow> funds_sound s \<Longrightarrow> funds_sound t"
  by (simp add: money_def funds_sound_def)

lemma funds_sound_reachable: "db_reachable e s \<Longrightarrow> funds_sound s"
proof (induction rule: db_reachable.induct)
  case start
  then show ?case by (simp add: funds_sound_def ledger_def empty_db_def)
next
  case (step s t)
  from money_step [OF step.hyps(2)] show ?case
  proof (elim disjE exE)
    assume "money t = money s"
    then show ?thesis using funds_sound_money step.IH by blast
  qed (simp_all add: step.IH preservesD [OF provision_sound] preservesD [OF reserve_sound]
      preservesD [OF reconcile_sound] preservesD [OF save_key_sound])
qed

section \<open>Caps are immutable and holds never shrink\<close>

definition budgets_le :: "budget_row list \<Rightarrow> budget_row list \<Rightarrow> bool" where
  "budgets_le bs cs = (\<forall>b \<in> set bs. \<exists>c \<in> set cs. budget_key c = budget_key b
     \<and> bg_cap c = bg_cap b \<and> bg_held b \<le> bg_held c)"

lemma budgets_le_refl: "budgets_le bs bs"
  and budgets_le_trans: "budgets_le bs cs \<Longrightarrow> budgets_le cs ds \<Longrightarrow> budgets_le bs ds"
  and budgets_le_append: "budgets_le bs (bs @ ds)"
  by (fastforce simp: budgets_le_def)+

lemma budgets_le_upd:
  assumes "\<And>b. b \<in> set bs \<Longrightarrow> p b \<Longrightarrow> budget_key (f b) = budget_key b \<and> bg_cap (f b) = bg_cap b
     \<and> bg_held b \<le> bg_held (f b)"
  shows "budgets_le bs (upd_where p f bs)"
  unfolding budgets_le_def
proof
  fix b assume b: "b \<in> set bs"
  then have "(if p b then f b else b) \<in> set (upd_where p f bs)" by (simp add: set_upd_where)
  moreover have "budget_key (if p b then f b else b) = budget_key b
     \<and> bg_cap (if p b then f b else b) = bg_cap b \<and> bg_held b \<le> bg_held (if p b then f b else b)"
    using assms [OF b] by simp
  ultimately show "\<exists>c \<in> set (upd_where p f bs). budget_key c = budget_key b
     \<and> bg_cap c = bg_cap b \<and> bg_held b \<le> bg_held c" by blast
qed

definition holds_grow :: "db \<Rightarrow> db \<Rightarrow> bool" where
  "holds_grow s t = (funds_sound s \<longrightarrow> funds_sound t \<and> budgets_le (db_budgets s) (db_budgets t))"

interpretation hg: effect_order holds_grow
  by unfold_locales (auto simp: holds_grow_def budgets_le_refl intro: budgets_le_trans)

lemma grow_frame: "keeps money m \<Longrightarrow> relates holds_grow m"
  by (erule keeps_relates)
    (simp add: holds_grow_def money_def funds_sound_def budgets_le_refl)

lemma growI:
  "preserves funds_sound m \<Longrightarrow> (\<And>s. funds_sound s \<Longrightarrow> budgets_le (db_budgets s) (db_budgets (snd (m s))))
   \<Longrightarrow> relates holds_grow m"
  by (rule relatesI) (simp add: holds_grow_def preservesD)

lemma provision_in_grow: "relates holds_grow (provision_in ow i cap)"
  by (rule growI [OF provision_in_sound])
    (auto simp: provision_in_def guard_then insert_budget_def on_table_def insert_row_def
      budgets_le_refl budgets_le_append)

lemma reserve_grow: "relates holds_grow (reserve ow b i rq amount)"
proof (rule growI [OF reserve_sound])
  fix s
  obtain r t where run: "reserve ow b i rq amount s = (r, t)" by (cases "reserve ow b i rq amount s")
  show "budgets_le (db_budgets s) (db_budgets (snd (reserve ow b i rq amount s)))"
  proof (cases r)
    case (Inl e)
    then show ?thesis using atomicD [OF reserve_atomic run [unfolded Inl]] run by (simp add: budgets_le_refl)
  next
    case (Inr u)
    note ok = run [unfolded Inr reserve_ok_iff]
    then show ?thesis using run
      by (auto simp: budget_key_def intro!: budgets_le_upd)
  qed
qed

lemma freeze_grow: "relates holds_grow (freeze ow b)"
  by (rule growI [OF freeze_sound])
    (auto simp: freeze_def exec_def thenM_run on_table_def update_rows_def budget_key_def
      funds_sound_def ledger_def list_all_iff budget_covered_def intro!: budgets_le_upd)

lemma settle_budgets: "db_budgets (snd (settle ow i row actual s)) = db_budgets s"
  by (simp add: settle_run Let_def)

lemma reconcile_grow: "relates holds_grow (reconcile ow i actual)"
proof (rule growI [OF reconcile_sound])
  fix s assume s: "funds_sound s"
  have "budgets_le (db_budgets s) (db_budgets (snd (reconcile_tx ow i actual s)))"
  proof (cases rule: reconcile_tx_cases [of ow i s actual])
    case (over row)
    then show ?thesis using rel_snd [OF freeze_grow [of ow "rs_budget_id row"], of s] s
      by (simp add: settle_budgets holds_grow_def)
  qed (simp_all add: settle_budgets budgets_le_refl)
  then show "budgets_le (db_budgets s) (db_budgets (snd (reconcile ow i actual s)))"
    using transact_state [of "reconcile_tx ow i actual" s]
    by (auto simp: reconcile_def guard_then budgets_le_refl)
qed

lemma key_grow: "relates holds_grow (save_application_key ow k v cap)"
  unfolding save_application_key_def
  by (intro hg.rel_rules hg.rel_conflict provision_in_grow grow_frame all_frames)

lemma step_grow: "db_step e s t \<Longrightarrow> holds_grow s t"
proof (drule money_step, elim disjE exE)
  assume "money t = money s"
  then show ?thesis by (simp add: holds_grow_def money_def funds_sound_def budgets_le_refl)
qed (simp_all add: rel_snd [OF reserve_grow] rel_snd [OF reconcile_grow] rel_snd [OF key_grow]
    provision_budget_def rel_snd [OF hg.rel_transact [OF provision_in_grow]])

lemma steps_grow: "(db_step e)\<^sup>*\<^sup>* s t \<Longrightarrow> holds_grow s t"
  by (induction rule: rtranclp_induct) (auto intro: hg.R_refl hg.R_trans step_grow)

section \<open>The guarantees\<close>


lemma reserve_refused:
  assumes "0 \<le> amount" "amount \<le> 1000000" "count_where (with_room ow b amount) (db_budgets s) \<noteq> 1"
  shows "reserve ow b i rq amount s = (Inl (DomainError UNSUPPORTED 429), s)"
  using assms
  by (simp add: reserve_def guard_then hold_def bindM_run thenM_run on_table_def update_rows_def
      guardM_run transact_def conflict_on_integrity_def catchM_def with_room_def [abs_def])

lemma overage_fills:
  assumes s: "funds_sound s" and row: "find_reservation ow i s = Some row"
    and st: "rs_state row \<noteq> ResReconciled" and o: "over actual row"
    and run: "reconcile ow i actual s = (Inr (), t)"
  shows "\<exists>b \<in> set (db_budgets t). budget_key b = (ow, rs_budget_id row) \<and> bg_held b = bg_cap b"
proof -
  have r: "row \<in> set (db_reservations s)" "rs_owner row = ow"
    using find_reservation_row [OF row] by (auto simp: reservation_key_def)
  have "(ow, rs_budget_id row) \<in> budget_key ` set (db_budgets s)"
    using s r by (auto simp: funds_sound_def ledger_def list_all_iff reservation_sound_def)
  then obtain b where b: "b \<in> set (db_budgets s)" "budget_key b = (ow, rs_budget_id row)" by auto
  have tx: "t = snd (reconcile_tx ow i actual s)"
    using run by (auto simp: reconcile_def guard_then split: if_splits)
  have "db_budgets t = upd_where (\<lambda>b. budget_key b = (ow, rs_budget_id row))
      (\<lambda>b. b\<lparr> bg_held := bg_cap b \<rparr>) (db_budgets s)"
    unfolding tx
    by (cases rule: reconcile_tx_cases [of ow i s actual])
      (use row st o in \<open>simp_all add: settle_budgets freeze_def exec_def thenM_run on_table_def
        update_rows_def\<close>)
  then have "b\<lparr> bg_held := bg_cap b \<rparr> \<in> set (db_budgets t)" using b by (auto simp: set_upd_where)
  then show ?thesis using b
    by (intro bexI [of _ "b\<lparr> bg_held := bg_cap b \<rparr>"]) (simp_all add: budget_key_def)
qed

text \<open>
  C17. An overage freezes the budget for good: once a reservation has been reconciled
  with more than it reserved, every later reservation of a positive amount against
  that budget is refused with 429, whatever operations run in between.
\<close>

theorem overage_freezes_budget:
  assumes "db_reachable e s" and "find_reservation ow i s = Some row"
    and "rs_state row \<noteq> ResReconciled" and "over actual row"
    and "reconcile ow i actual s = (Inr (), t)" and "(db_step e)\<^sup>*\<^sup>* t u"
    and "0 < amount" and "amount \<le> 1000000"
  shows "reserve ow (rs_budget_id row) j rq amount u = (Inl (DomainError UNSUPPORTED 429), u)"
proof -
  have s: "funds_sound s" by (rule funds_sound_reachable [OF assms(1)])
  have t: "funds_sound t" using preservesD [OF reconcile_sound s, of ow i actual] assms(5) by simp
  obtain b where b: "b \<in> set (db_budgets t)" "budget_key b = (ow, rs_budget_id row)"
    "bg_held b = bg_cap b"
    using overage_fills [OF s assms(2-5)] by blast
  have g: "funds_sound u" "budgets_le (db_budgets t) (db_budgets u)"
    using steps_grow [OF assms(6)] t by (auto simp: holds_grow_def)
  obtain c where c: "c \<in> set (db_budgets u)" "budget_key c = budget_key b" "bg_cap c = bg_cap b"
    "bg_held b \<le> bg_held c"
    using g(2) b(1) by (auto simp: budgets_le_def)
  have d: "distinct (map budget_key (db_budgets u))"
    using g(1) by (simp add: funds_sound_def ledger_def)
  have "\<not> with_room ow (rs_budget_id row) amount q" if "q \<in> set (db_budgets u)" for q
  proof
    assume w: "with_room ow (rs_budget_id row) amount q"
    then have "q = c" using key_unique [OF d that c(1)] c(2) b(2) by (simp add: with_room_def)
    then show False using w c b assms(7) by (simp add: with_room_def)
  qed
  then have "count_where (with_room ow (rs_budget_id row) amount) (db_budgets u) = 0"
    by (simp add: count_where_0)
  then show ?thesis using reserve_refused assms(7,8) by simp
qed

section \<open>A concrete run\<close>

text \<open>A budget of 100; 60 reserved; the provider reports 80.\<close>

definition ex_reserved_db :: db where
  "ex_reserved_db = snd (reserve ''o'' ''b'' ''r'' ''q'' 60 (snd (provision_budget ''o'' ''b'' 100 empty_db)))"

definition ex_over_db :: db where
  "ex_over_db = snd (reconcile ''o'' ''r'' (Some 80) ex_reserved_db)"

definition ex_row :: reservation_row where
  "ex_row = new_reservation ''o'' ''b'' ''r'' ''q'' 60"

lemma ex_reserved_reachable: "db_reachable ex_env ex_reserved_db"
  unfolding ex_reserved_db_def
  by (intro db_reachable.step [OF db_reachable.step [OF db_reachable.start db_step.provision]
        db_step.reserve])

lemma ex_rows: "find_reservation ''o'' ''r'' ex_reserved_db = Some ex_row"
    "fst (reconcile ''o'' ''r'' (Some 80) ex_reserved_db) = Inr ()"
    "map bg_held (db_budgets ex_reserved_db) = [60]"
  by code_simp+


theorem overage_freezes_budget_witness:
  "reserve ''o'' ''b'' ''r2'' ''q2'' 5 ex_over_db = (Inl (DomainError UNSUPPORTED 429), ex_over_db)"
proof -
  have row: "rs_state ex_row \<noteq> ResReconciled" "over (Some 80) ex_row" "rs_budget_id ex_row = ''b''"
    by (simp_all add: ex_row_def new_reservation_def over_def)
  have run: "reconcile ''o'' ''r'' (Some 80) ex_reserved_db = (Inr (), ex_over_db)"
    using ex_rows(2) by (metis ex_over_db_def prod.collapse)
  show ?thesis
    using overage_freezes_budget [OF ex_reserved_reachable ex_rows(1) row(1,2) run,
        where u = ex_over_db and amount = 5] row(3) by simp
qed

end
