(* ===== verification/Runtime_Queue.thy ===== *)
theory Runtime_Queue
  imports Storage_Steps
begin

text \<open>
  Requests and the runtime queue of \<open>execution_storage.py\<close>: \<open>register_request\<close>,
  \<open>advance_request\<close>, \<open>enqueue_runtime\<close>, \<open>claim_runtime\<close>, \<open>finish_runtime\<close>.  An
  idempotency key binds one request for ever, request and queue states only move
  forward, and no queue entry is handed out twice, whatever runs in between.
\<close>

section \<open>States only move forward\<close>

definition request_may :: "run_status \<Rightarrow> run_status \<Rightarrow> bool" where
  "request_may a b = (a = b \<or> a = RsQueued \<or> (a = RsRunning \<and> b \<noteq> RsQueued))"

definition queue_may :: "queue_state \<Rightarrow> queue_state \<Rightarrow> bool" where
  "queue_may a b = (a = b \<or> a = QsQueued \<or> (a = QsRunning \<and> b \<noteq> QsQueued))"

lemma request_may_refl: "request_may a a"
  and request_may_trans: "request_may a b \<Longrightarrow> request_may b c \<Longrightarrow> request_may a c"
  by (auto simp: request_may_def)

lemma queue_may_refl: "queue_may a a"
  and queue_may_trans: "queue_may a b \<Longrightarrow> queue_may b c \<Longrightarrow> queue_may a c"
  by (auto simp: queue_may_def)

text \<open>The transition table of \<open>advance_request\<close> is inside the order.\<close>

lemma request_transitions_may: "b \<in> set (request_transitions a) \<Longrightarrow> request_may a b"
  by (cases a) (auto simp: request_transitions_def request_may_def)

definition requests_le :: "request_row list \<Rightarrow> request_row list \<Rightarrow> bool" where
  "requests_le rs ts = (\<forall>r \<in> set rs. \<exists>r' \<in> set ts. request_key r' = request_key r
     \<and> rt_request_id r' = rt_request_id r \<and> rt_input_hash r' = rt_input_hash r
     \<and> request_may (rt_state r) (rt_state r'))"

definition queue_le :: "queue_row list \<Rightarrow> queue_row list \<Rightarrow> bool" where
  "queue_le qs us = (\<forall>q \<in> set qs. \<exists>q' \<in> set us. queue_key q' = queue_key q
     \<and> queue_may (qu_state q) (qu_state q'))"

lemma requests_le_refl: "requests_le rs rs"
  and requests_le_append: "requests_le rs (rs @ ts)"
  using request_may_refl by (force simp: requests_le_def)+

lemma queue_le_refl: "queue_le qs qs"
  and queue_le_append: "queue_le qs (qs @ us)"
  using queue_may_refl by (force simp: queue_le_def)+

lemma requests_le_trans: "requests_le rs ts \<Longrightarrow> requests_le ts us \<Longrightarrow> requests_le rs us"
  unfolding requests_le_def
proof
  fix r assume a: "\<forall>r \<in> set rs. \<exists>r' \<in> set ts. request_key r' = request_key r
     \<and> rt_request_id r' = rt_request_id r \<and> rt_input_hash r' = rt_input_hash r
     \<and> request_may (rt_state r) (rt_state r')"
    and b: "\<forall>r \<in> set ts. \<exists>r' \<in> set us. request_key r' = request_key r
     \<and> rt_request_id r' = rt_request_id r \<and> rt_input_hash r' = rt_input_hash r
     \<and> request_may (rt_state r) (rt_state r')" and r: "r \<in> set rs"
  obtain r1 where r1: "r1 \<in> set ts" "request_key r1 = request_key r"
    "rt_request_id r1 = rt_request_id r" "rt_input_hash r1 = rt_input_hash r"
    "request_may (rt_state r) (rt_state r1)" using a r by blast
  obtain r2 where "r2 \<in> set us" "request_key r2 = request_key r1"
    "rt_request_id r2 = rt_request_id r1" "rt_input_hash r2 = rt_input_hash r1"
    "request_may (rt_state r1) (rt_state r2)" using b r1(1) by blast
  then show "\<exists>r' \<in> set us. request_key r' = request_key r
     \<and> rt_request_id r' = rt_request_id r \<and> rt_input_hash r' = rt_input_hash r
     \<and> request_may (rt_state r) (rt_state r')"
    using r1 request_may_trans by (intro bexI [of _ r2]) auto
qed

lemma queue_le_trans: "queue_le qs us \<Longrightarrow> queue_le us vs \<Longrightarrow> queue_le qs vs"
  unfolding queue_le_def using queue_may_trans by (metis (no_types, lifting))

lemma requests_le_upd:
  assumes "\<And>r. r \<in> set rs \<Longrightarrow> p r \<Longrightarrow> request_may (rt_state r) st"
  shows "requests_le rs (upd_where p (\<lambda>r. r\<lparr> rt_state := st \<rparr>) rs)"
  unfolding requests_le_def
proof
  fix r assume r: "r \<in> set rs"
  let ?r = "if p r then r\<lparr> rt_state := st \<rparr> else r"
  have "?r \<in> set (upd_where p (\<lambda>r. r\<lparr> rt_state := st \<rparr>) rs)" using r by (simp add: set_upd_where)
  moreover have "request_key ?r = request_key r" "rt_request_id ?r = rt_request_id r"
    "rt_input_hash ?r = rt_input_hash r" "request_may (rt_state r) (rt_state ?r)"
    using assms [OF r] request_may_refl by (auto simp: request_key_def)
  ultimately show "\<exists>r' \<in> set (upd_where p (\<lambda>r. r\<lparr> rt_state := st \<rparr>) rs).
      request_key r' = request_key r \<and> rt_request_id r' = rt_request_id r
      \<and> rt_input_hash r' = rt_input_hash r \<and> request_may (rt_state r) (rt_state r')" by blast
qed

lemma queue_le_upd:
  assumes "\<And>q. q \<in> set qs \<Longrightarrow> p q \<Longrightarrow> queue_key (f q) = queue_key q \<and> queue_may (qu_state q) (qu_state (f q))"
  shows "queue_le qs (upd_where p f qs)"
  unfolding queue_le_def
proof
  fix q assume q: "q \<in> set qs"
  let ?q = "if p q then f q else q"
  have "?q \<in> set (upd_where p f qs)" using q by (simp add: set_upd_where)
  moreover have "queue_key ?q = queue_key q" "queue_may (qu_state q) (qu_state ?q)"
    using assms [OF q] queue_may_refl by auto
  ultimately show "\<exists>q' \<in> set (upd_where p f qs). queue_key q' = queue_key q
      \<and> queue_may (qu_state q) (qu_state q')" by blast
qed

section \<open>The order every operation respects\<close>

definition flow_sound :: "db \<Rightarrow> bool" where
  "flow_sound s = (distinct (map request_key (db_requests s))
     \<and> distinct (map request_ident (db_requests s)) \<and> distinct (map queue_key (db_queue s)))"

definition flow_le :: "db \<Rightarrow> db \<Rightarrow> bool" where
  "flow_le s t = (flow_sound s \<longrightarrow> flow_sound t \<and> requests_le (db_requests s) (db_requests t)
     \<and> queue_le (db_queue s) (db_queue t))"

interpretation fl: effect_order flow_le
  by unfold_locales
    (auto simp: flow_le_def requests_le_refl queue_le_refl
      intro: requests_le_trans queue_le_trans)

lemma flow_frame: "keeps flow m \<Longrightarrow> relates flow_le m"
  by (erule keeps_relates)
    (simp add: flow_le_def flow_def flow_sound_def requests_le_refl queue_le_refl)

lemmas flow_rules = fl.rel_rules fl.rel_conflict

lemma flow_requests:
  assumes "map request_key ts = map request_key (db_requests s)"
    "map request_ident ts = map request_ident (db_requests s)" "requests_le (db_requests s) ts"
  shows "flow_le s (s\<lparr> db_requests := ts \<rparr>)"
  using assms by (simp add: flow_le_def flow_sound_def queue_le_refl)

lemma flow_queue:
  assumes "map queue_key us = map queue_key (db_queue s)" "flow_sound s \<Longrightarrow> queue_le (db_queue s) us"
  shows "flow_le s (s\<lparr> db_queue := us \<rparr>)"
  using assms by (simp add: flow_le_def flow_sound_def requests_le_refl)

lemma request_upd_keys:
  "map request_key (upd_where p (\<lambda>r. r\<lparr> rt_state := st \<rparr>) rs) = map request_key rs"
  "map request_ident (upd_where p (\<lambda>r. r\<lparr> rt_state := st \<rparr>) rs) = map request_ident rs"
  by (rule map_upd_where, simp add: request_key_def request_ident_def)+

lemma insert_request_flow: "relates flow_le (insert_request r)"
  by (rule relatesI)
    (simp add: insert_request_def on_table_def insert_row_def flow_le_def flow_sound_def
      requests_le_refl requests_le_append queue_le_refl)

lemma insert_queue_flow: "relates flow_le (insert_queue q)"
  by (rule relatesI)
    (simp add: insert_queue_def on_table_def insert_row_def flow_le_def flow_sound_def
      requests_le_refl queue_le_append queue_le_refl)

lemma register_in_flow: "relates flow_le (register_in ow key i h)"
  unfolding register_in_def
  by (intro flow_rules insert_request_flow)

lemma register_flow: "relates flow_le (register_request ow key i h)"
  unfolding register_request_def register_with_def
  by (intro flow_rules register_in_flow)

lemma advance_flow: "relates flow_le (advance_request ow i a b)"
proof -
  have "relates flow_le (on_requests (update_rows (\<lambda>r. request_ident r = (ow, i) \<and> rt_state r = a)
          (\<lambda>r. r\<lparr> rt_state := b \<rparr>)))" if "b \<in> set (request_transitions a)"
    by (rule relatesI)
      (use request_transitions_may [OF that] in \<open>auto simp: on_table_def update_rows_def
        intro!: flow_requests requests_le_upd simp: request_upd_keys\<close>)
  then show ?thesis
    unfolding advance_request_def
    by (cases "b \<in> set (request_transitions a)")
      (auto intro!: flow_rules)
qed

lemma doubt_request_flow: "relates flow_le (doubt_request ow i)"
  by (rule relatesI)
    (auto simp: doubt_request_def exec_def thenM_run on_table_def update_rows_def request_upd_keys
      request_may_def intro!: flow_requests requests_le_upd)

lemma finish_flow: "relates flow_le (finish_runtime ow i u)"
proof -
  have "relates flow_le (on_queue (update_rows (\<lambda>q. queue_key q = (ow, i) \<and> qu_state q = QsRunning)
          (\<lambda>q. q\<lparr> qu_state := st \<rparr>)))" if "st = QsUncertain \<or> st = QsDone" for st
  proof (rule relatesI)
    fix s :: db
    have "map queue_key (upd_where (\<lambda>q. queue_key q = (ow, i) \<and> qu_state q = QsRunning)
          (\<lambda>q. q\<lparr> qu_state := st \<rparr>) (db_queue s)) = map queue_key (db_queue s)"
      by (rule map_upd_where) (simp add: queue_key_def)
    then show "flow_le s (snd (on_queue (update_rows (\<lambda>q. queue_key q = (ow, i) \<and> qu_state q = QsRunning)
          (\<lambda>q. q\<lparr> qu_state := st \<rparr>)) s))"
      using that by (auto simp: on_table_def update_rows_def queue_may_def queue_key_def
          intro!: flow_queue queue_le_upd)
  qed
  then show ?thesis
    unfolding finish_runtime_def exec_def
    by (intro flow_rules doubt_request_flow flow_frame [OF table_frames(18)]) auto
qed

lemma enqueue_flow: "relates flow_le (enqueue_runtime now c v r h)"
  unfolding enqueue_runtime_def register_with_def
  by (intro flow_rules register_in_flow insert_queue_flow flow_frame append_frames insert_frames)

section \<open>Claiming\<close>

lemma doubt_entry_queue:
  "db_queue (snd (doubt_entry k s)) = upd_where (\<lambda>q. queue_key q = k)
     (\<lambda>q. q\<lparr> qu_state := QsUncertain \<rparr>) (db_queue s)"
  "fst (doubt_entry k s) = Inr ()"
  by (simp_all add: doubt_entry_def doubt_request_def exec_def thenM_run on_table_def update_rows_def)

definition doubt_all :: "(string \<times> string) list \<Rightarrow> queue_row list \<Rightarrow> queue_row list" where
  "doubt_all ks qs = upd_where (\<lambda>q. queue_key q \<in> set ks) (\<lambda>q. q\<lparr> qu_state := QsUncertain \<rparr>) qs"

lemma doubt_loop:
  "fst (forM ks doubt_entry s) = Inr ()
   \<and> db_queue (snd (forM ks doubt_entry s)) = doubt_all ks (db_queue s)"
proof (induction ks arbitrary: s)
  case Nil
  show ?case by (simp add: doubt_all_def upd_where_def)
next
  case (Cons k ks)
  obtain t where k: "doubt_entry k s = (Inr (), t)"
    using doubt_entry_queue(2) by (metis prod.collapse)
  have "db_queue t = upd_where (\<lambda>q. queue_key q = k) (\<lambda>q. q\<lparr> qu_state := QsUncertain \<rparr>) (db_queue s)"
    using doubt_entry_queue(1) k by (metis snd_conv)
  then show ?case using Cons [of t] k
    by (auto simp: thenM_run doubt_all_def upd_where_def queue_key_def)
qed

lemma doubt_loop_requests:
  "map request_key (db_requests (snd (forM ks doubt_entry s))) = map request_key (db_requests s)
   \<and> map request_ident (db_requests (snd (forM ks doubt_entry s))) = map request_ident (db_requests s)
   \<and> requests_le (db_requests s) (db_requests (snd (forM ks doubt_entry s)))"
proof (induction ks arbitrary: s)
  case Nil
  show ?case by (simp add: requests_le_refl)
next
  case (Cons k ks)
  obtain t where k: "doubt_entry k s = (Inr (), t)"
    using doubt_entry_queue(2) by (metis prod.collapse)
  have t: "db_requests t = upd_where (\<lambda>r. request_ident r = (fst k, snd k)
       \<and> rt_state r \<in> {RsQueued, RsRunning}) (\<lambda>r. r\<lparr> rt_state := RsUncertain \<rparr>) (db_requests s)"
    using k by (auto simp: doubt_entry_def doubt_request_def exec_def thenM_run on_table_def
        update_rows_def)
  have "requests_le (db_requests s) (db_requests t)"
    unfolding t by (rule requests_le_upd) (auto simp: request_may_def)
  then show ?case
    using Cons [of t] k t request_upd_keys by (auto simp: thenM_run intro: requests_le_trans)
qed

lemma lapsed_live: "lapsed now q \<Longrightarrow> qu_state q \<noteq> QsDone \<and> qu_state q \<noteq> QsUncertain"
  by (auto simp: lapsed_def)

lemma doubt_lapsed_flow:
  "relates flow_le (bindM (getsM (\<lambda>s. map queue_key (filter (lapsed now) (db_queue s))))
     (\<lambda>ks. forM ks doubt_entry))"
proof (rule relatesI)
  fix s :: db
  let ?ks = "map queue_key (filter (lapsed now) (db_queue s))"
  let ?t = "snd (forM ?ks doubt_entry s)"
  have keys: "map queue_key (doubt_all ?ks (db_queue s)) = map queue_key (db_queue s)"
    unfolding doubt_all_def by (rule map_upd_where) (simp add: queue_key_def)
  have "queue_le (db_queue s) (doubt_all ?ks (db_queue s))"
    if d: "distinct (map queue_key (db_queue s))"
    unfolding doubt_all_def
  proof (rule queue_le_upd)
    fix q assume q: "q \<in> set (db_queue s)" "queue_key q \<in> set ?ks"
    then obtain q' where "q' \<in> set (db_queue s)" "lapsed now q'" "queue_key q' = queue_key q" by auto
    then have "lapsed now q" using key_unique [OF d] q(1) by metis
    then show "queue_key (q\<lparr> qu_state := QsUncertain \<rparr>) = queue_key q
       \<and> queue_may (qu_state q) (qu_state (q\<lparr> qu_state := QsUncertain \<rparr>))"
      using lapsed_live by (cases "qu_state q") (auto simp: queue_key_def queue_may_def)
  qed
  then have "flow_le s ?t"
    using keys doubt_loop_requests [of ?ks s] doubt_loop [of ?ks s]
    by (simp add: flow_le_def flow_sound_def)
  then show "flow_le s (snd (bindM (getsM (\<lambda>s. map queue_key (filter (lapsed now) (db_queue s))))
     (\<lambda>ks. forM ks doubt_entry) s))" by (simp add: bindM_run)
qed

lemma take_one_flow:
  "relates flow_le (on_queue (update_rows (\<lambda>q. queue_key q = k \<and> qu_state q = QsQueued)
        (\<lambda>q. q\<lparr> qu_state := QsRunning, qu_lease_until := Some u \<rparr>)))"
proof (rule relatesI)
  fix s :: db
  let ?us = "upd_where (\<lambda>q. queue_key q = k \<and> qu_state q = QsQueued)
        (\<lambda>q. q\<lparr> qu_state := QsRunning, qu_lease_until := Some u \<rparr>) (db_queue s)"
  have "map queue_key ?us = map queue_key (db_queue s)"
    by (rule map_upd_where) (simp add: queue_key_def)
  moreover have "queue_le (db_queue s) ?us"
    by (rule queue_le_upd) (simp add: queue_key_def queue_may_def)
  ultimately show "flow_le s (snd (on_queue (update_rows (\<lambda>q. queue_key q = k \<and> qu_state q = QsQueued)
        (\<lambda>q. q\<lparr> qu_state := QsRunning, qu_lease_until := Some u \<rparr>)) s))"
    by (simp add: on_table_def update_rows_def flow_queue)
qed

lemma take_first_flow: "relates flow_le (take_first u ks)"
proof (induction ks)
  case Nil
  show ?case unfolding take_first.simps by (rule fl.rel_ret)
next
  case (Cons k ks)
  then show ?case unfolding take_first.simps by (intro flow_rules take_one_flow)
qed

lemma claim_flow: "relates flow_le (claim_entry now)"
  unfolding claim_entry_def exec_def
  by (intro flow_rules doubt_lapsed_flow take_first_flow flow_frame [OF table_frames(18)])

section \<open>Every step\<close>

lemma flow_le_same: "flow t = flow s \<Longrightarrow> flow_le s t"
  by (simp add: flow_le_def flow_def flow_sound_def requests_le_refl queue_le_refl)

lemma step_flow:
  assumes "db_step e s t"
  shows "flow_le s t"
  using assms
proof cases
  case (append k ow i v p)
  have "keeps flow (transact (append_record ow k i v p))" by (intro all_frames)
  then show ?thesis using append rel_snd [OF flow_frame] by metis
next
  case event then show ?thesis by (simp add: rel_snd [OF flow_frame [OF save_event_frames(2)]])
next
  case policy then show ?thesis by (simp add: rel_snd [OF flow_frame [OF append_policy_frames(2)]])
next
  case swap then show ?thesis by (simp add: rel_snd [OF flow_frame [OF swap_head_frames(2)]])
next
  case new_alias then show ?thesis by (simp add: rel_snd [OF flow_frame [OF alias_frames(2)]])
next
  case provision then show ?thesis by (simp add: rel_snd [OF flow_frame [OF budget_frames(4)]])
next
  case reserve then show ?thesis by (simp add: rel_snd [OF flow_frame [OF reserve_frames(1)]])
next
  case reconcile then show ?thesis by (simp add: rel_snd [OF flow_frame [OF reconcile_frames(1)]])
next
  case save_key then show ?thesis by (simp add: rel_snd [OF flow_frame [OF key_frames(1)]])
next
  case revoke then show ?thesis by (simp add: rel_snd [OF flow_frame [OF key_frames(4)]])
next
  case save_payload then show ?thesis by (simp add: rel_snd [OF flow_frame [OF payload_frames(2)]])
next
  case purge then show ?thesis by (simp add: rel_snd [OF flow_frame [OF payload_frames(6)]])
next
  case register then show ?thesis by (simp add: rel_snd [OF register_flow])
next
  case advance then show ?thesis by (simp add: rel_snd [OF advance_flow])
next
  case enqueue then show ?thesis by (simp add: rel_snd [OF enqueue_flow])
next
  case claim then show ?thesis by (simp add: rel_snd [OF claim_flow])
next
  case finish then show ?thesis by (simp add: rel_snd [OF finish_flow])
next
  case (health m) then show ?thesis by (simp add: flow_le_same health_tables)
next
  case (planning m) then show ?thesis by (simp add: flow_le_same planning_tables)
qed

lemma steps_flow: "(db_step e)\<^sup>*\<^sup>* s t \<Longrightarrow> flow_le s t"
  by (induction rule: rtranclp_induct) (auto intro: fl.R_refl fl.R_trans step_flow)

lemma flow_sound_reachable: "db_reachable e s \<Longrightarrow> flow_sound s"
  by (induction rule: db_reachable.induct)
    (auto simp: flow_sound_def empty_db_def dest: step_flow simp: flow_le_def)

section \<open>The guarantees\<close>

lemma find_request_row:
  "find_request ow key s = Some r \<Longrightarrow> r \<in> set (db_requests s) \<and> request_key r = (ow, key)"
  unfolding find_request_def by (drule scalar_in) simp

lemma find_request_le:
  assumes s: "flow_sound s" and le: "flow_le s t" and r: "r \<in> set (db_requests s)"
    "request_key r = (ow, key)"
  obtains r' where "find_request ow key t = Some r'" "rt_request_id r' = rt_request_id r"
    "rt_input_hash r' = rt_input_hash r"
proof -
  obtain r' where r': "r' \<in> set (db_requests t)" "request_key r' = (ow, key)"
    "rt_request_id r' = rt_request_id r" "rt_input_hash r' = rt_input_hash r"
    using s le r unfolding flow_le_def requests_le_def by metis
  have "distinct (map request_key (db_requests t))"
    using s le by (simp add: flow_le_def flow_sound_def)
  then have "find_request ow key t = Some r'"
    using scalar_key [of request_key _ r'] r' by (simp add: find_request_def)
  then show ?thesis using that r' by blast
qed

lemma register_found:
  assumes "find_request ow key s = Some r" "is_idempotency_key key" "is_hex 64 h"
  shows "register_request ow key i h s =
    (if rt_input_hash r = h then (Inr (rt_request_id r, False), s)
     else (Inl (DomainError CONFLICT 409), s))"
  using assms
  by (simp add: register_request_def register_with_def guard_then register_in_def transact_def
      bindM_run thenM_run guardM_run conflict_on_integrity_def catchM_def)

lemma register_ok_found:
  assumes "register_request ow key i h s = (Inr (j, b), t)"
  shows "is_idempotency_key key \<and> is_hex 64 h
     \<and> (\<exists>r. r \<in> set (db_requests t) \<and> request_key r = (ow, key) \<and> rt_request_id r = j
          \<and> rt_input_hash r = h)"
proof (cases "find_request ow key s")
  case None
  then show ?thesis using assms
    by (auto simp: register_request_def register_with_def thenM_ok_iff bindM_ok_iff register_in_def
        insert_request_def on_table_ok_iff request_key_def)
next
  case (Some r)
  then show ?thesis using assms find_request_row [OF Some]
    by (auto simp: register_request_def register_with_def thenM_ok_iff bindM_ok_iff register_in_def)
qed

text \<open>
  C12. An idempotency key binds one request for ever.  After a registration returned
  the request id j, any later registration of the same owner and key, whatever
  happened in between, returns j again and creates nothing when the content digest
  is the same, and is refused with 409, changing nothing, when it differs.
\<close>

theorem idempotency_key_binds_once:
  assumes "db_reachable e s" and "register_request ow key i h s = (Inr (j, b), t)"
    and "(db_step e)\<^sup>*\<^sup>* t u" and "is_hex 64 h'"
  shows "register_request ow key i' h' u =
    (if h' = h then (Inr (j, False), u) else (Inl (DomainError CONFLICT 409), u))"
proof -
  have s: "flow_sound s" by (rule flow_sound_reachable [OF assms(1)])
  have t: "flow_sound t"
    using rel_snd [OF register_flow, of s] s assms(2) unfolding flow_le_def by (metis snd_conv)
  obtain r where r: "r \<in> set (db_requests t)" "request_key r = (ow, key)" "rt_request_id r = j"
    "rt_input_hash r = h" and key: "is_idempotency_key key"
    using register_ok_found [OF assms(2)] by blast
  obtain r' where r': "find_request ow key u = Some r'" "rt_request_id r' = j" "rt_input_hash r' = h"
    using find_request_le [OF t steps_flow [OF assms(3)] r(1,2)] r(3,4) by metis
  show ?thesis using register_found [OF r'(1) key assms(4)] r' by auto
qed

text \<open>
  C13. A request's state only moves forward: from queued to running and from there to
  a final state, or straight to uncertain; succeeded, failed, cancelled, uncertain
  and awaiting_approval never change again.
\<close>

theorem request_state_moves_forward:
  assumes "db_reachable e s" and "request_state ow i s = Inr a" and "(db_step e)\<^sup>*\<^sup>* s t"
  shows "\<exists>b. request_state ow i t = Inr b \<and> request_may a b"
proof -
  have s: "flow_sound s" by (rule flow_sound_reachable [OF assms(1)])
  have le: "flow_le s t" by (rule steps_flow [OF assms(3)])
  obtain r where sc: "scalar (request_rows ow i s) = Some r" and st: "rt_state r = a"
    using assms(2) by (auto simp: request_state_def split: option.splits)
  then have r: "r \<in> set (db_requests s)" "request_ident r = (ow, i)" "rt_state r = a"
    using scalar_in [OF sc [unfolded request_rows_def]] by simp_all
  obtain r' where r': "r' \<in> set (db_requests t)" "request_key r' = request_key r"
    "rt_request_id r' = rt_request_id r" "request_may a (rt_state r')"
    using s le r unfolding flow_le_def requests_le_def by metis
  have "request_ident r' = (ow, i)" using r r' by (simp add: request_ident_def request_key_def)
  moreover have "distinct (map request_ident (db_requests t))"
    using s le by (simp add: flow_le_def flow_sound_def)
  ultimately have "request_state ow i t = Inr (rt_state r')"
    using scalar_key [of request_ident "db_requests t" r'] r'(1)
    by (simp add: request_state_def request_rows_def)
  then show ?thesis using r' by blast
qed

definition taken :: "string \<times> string \<Rightarrow> int \<Rightarrow> queue_row list \<Rightarrow> queue_row list" where
  "taken k u qs = upd_where (\<lambda>q. queue_key q = k \<and> qu_state q = QsQueued)
     (\<lambda>q. q\<lparr> qu_state := QsRunning, qu_lease_until := Some u \<rparr>) qs"

lemma taken_running:
  assumes "q \<in> set qs" "queue_key q = k" "qu_state q = QsQueued"
  shows "\<exists>q' \<in> set (taken k u qs). queue_key q' = k \<and> qu_state q' = QsRunning"
proof
  show "q\<lparr> qu_state := QsRunning, qu_lease_until := Some u \<rparr> \<in> set (taken k u qs)"
    unfolding taken_def set_upd_where using assms by (intro image_eqI [of _ _ q]) simp_all
qed (use assms in \<open>simp add: queue_key_def\<close>)

lemma take_first_Cons:
  "take_first u (k # ks) s = (let s' = s\<lparr> db_queue := taken k u (db_queue s) \<rparr> in
     if count_where (\<lambda>q. queue_key q = k \<and> qu_state q = QsQueued) (db_queue s) = 1
     then (Inr (Some k), s') else take_first u ks s')"
  by (simp add: bindM_run on_table_def update_rows_def taken_def Let_def)

lemma taken_flow: "flow_le s (s\<lparr> db_queue := taken k u (db_queue s) \<rparr>)"
  using rel_snd [OF take_one_flow [of k u], of s]
  by (simp add: on_table_def update_rows_def taken_def)

lemma take_first_ok:
  assumes "take_first u ks s = (Inr (Some k), t)"
  shows "\<exists>s'. flow_le s s' \<and> (\<exists>q \<in> set (db_queue s'). queue_key q = k \<and> qu_state q = QsQueued)
     \<and> db_queue t = taken k u (db_queue s')"
  using assms
proof (induction ks arbitrary: s)
  case (Cons k' ks)
  show ?case
  proof (cases "count_where (\<lambda>q. queue_key q = k' \<and> qu_state q = QsQueued) (db_queue s) = 1")
    case True
    then have "k' = k" "db_queue t = taken k u (db_queue s)"
      using Cons.prems unfolding take_first_Cons Let_def by auto
    moreover have "\<exists>q \<in> set (db_queue s). queue_key q = k' \<and> qu_state q = QsQueued"
      using True count_where_0 [of "\<lambda>q. queue_key q = k' \<and> qu_state q = QsQueued" "db_queue s"]
      by (metis zero_neq_one)
    ultimately show ?thesis using fl.R_refl by blast
  next
    case False
    then have "take_first u ks (s\<lparr> db_queue := taken k' u (db_queue s) \<rparr>) = (Inr (Some k), t)"
      using Cons.prems unfolding take_first_Cons Let_def by simp
    then show ?thesis using Cons.IH fl.R_trans [OF taken_flow] by blast
  qed
qed simp

lemma claim_entry_ok:
  assumes "claim_entry now s = (Inr (Some k), t)"
  obtains s' where "flow_le s s'" "\<exists>q \<in> set (db_queue s'). queue_key q = k \<and> qu_state q = QsQueued"
    "\<exists>q \<in> set (db_queue t). queue_key q = k \<and> qu_state q = QsRunning"
proof -
  let ?del = "exec (on_payloads (delete_rows (\<lambda>p. py_kind p = PkQueuedInput \<and> py_expires_at p \<le> now)))"
  let ?doubt = "bindM (getsM (\<lambda>s. map queue_key (filter (lapsed now) (db_queue s))))
     (\<lambda>ks. forM ks doubt_entry)"
  obtain s1 s2 ks where run: "?del s = (Inr (), s1)" "?doubt s1 = (Inr (), s2)"
    "take_first (now + micros 125) ks s2 = (Inr (Some k), t)"
    using assms unfolding claim_entry_def transact_ok_iff thenM_ok_iff bindM_ok_iff
    by (auto simp: getsM_def)
  have "relates flow_le ?del" unfolding exec_def
    by (intro flow_rules flow_frame [OF table_frames(18)])
  then have "flow_le s s1" using run(1) by (rule relatesD)
  moreover have "flow_le s1 s2" using relatesD [OF doubt_lapsed_flow run(2)] .
  moreover obtain s3 where s3: "flow_le s2 s3"
    "\<exists>q \<in> set (db_queue s3). queue_key q = k \<and> qu_state q = QsQueued"
    "db_queue t = taken k (now + micros 125) (db_queue s3)"
    using take_first_ok [OF run(3)] by blast
  ultimately have "flow_le s s3" by (blast intro: fl.R_trans)
  then show ?thesis using that s3 taken_running by metis
qed

text \<open>
  C11. No queue entry is dispatched twice: two successful claims in any history of the
  database return different entries, so a lease that expires is never an invitation
  to run the same request again.
\<close>

theorem entry_claimed_at_most_once:
  assumes "db_reachable e s" and "claim_entry now s = (Inr (Some k), t)"
    and "(db_step e)\<^sup>*\<^sup>* t u" and "claim_entry now' u = (Inr (Some k'), v)"
  shows "k' \<noteq> k"
proof
  assume same: "k' = k"
  have s: "flow_sound s" by (rule flow_sound_reachable [OF assms(1)])
  have t: "flow_sound t" using relatesD [OF claim_flow assms(2)] s by (simp add: flow_le_def)
  obtain q where q: "q \<in> set (db_queue t)" "queue_key q = k" "qu_state q = QsRunning"
    using claim_entry_ok [OF assms(2)] by metis
  obtain u' q' where u': "flow_le u u'" "q' \<in> set (db_queue u')" "queue_key q' = k"
    "qu_state q' = QsQueued"
    using claim_entry_ok [OF assms(4)] same by metis
  have le: "flow_le t u'" using fl.R_trans [OF steps_flow [OF assms(3)] u'(1)] .
  then obtain q'' where q'': "q'' \<in> set (db_queue u')" "queue_key q'' = k" "queue_may QsRunning (qu_state q'')"
    using t q unfolding flow_le_def queue_le_def by metis
  have "q'' = q'" using key_unique [of queue_key "db_queue u'" q'' q'] t le q'' u'
    by (simp add: flow_le_def flow_sound_def)
  then show False using q'' u' by (simp add: queue_may_def)
qed

section \<open>A concrete run\<close>

text \<open>Two requests are queued and claimed, the one with the earlier deadline first.\<close>

definition ex_hash :: string where
  "ex_hash = replicate 64 CHR ''a''"

definition ex_run :: "string \<Rightarrow> sandbox_run" where
  "ex_run i = \<lparr> rn_id = i, rn_policy = \<lparr> vr_id = ''p'', vr_version = 1 \<rparr>, rn_status = RsQueued,
     rn_created_at = 0, rn_attempt_ids = [], rn_output_reference = None,
     rn_quality = QUntestedProvisional \<rparr>"

definition ex_rq :: run_request where
  "ex_rq = \<lparr> rq_policy = \<lparr> vr_id = ''p'', vr_version = 1 \<rparr>, rq_inputs = [],
     rq_sample_reference = None \<rparr>"

definition ex_ctx :: "string \<Rightarrow> int \<Rightarrow> queued_context" where
  "ex_ctx i deadline = \<lparr> qc_tenant_id = ''o'', qc_principal_id = ''o'', qc_request_id = i,
     qc_idempotency_key = ''key-'' @ i, qc_deadline = deadline, qc_application_key = None \<rparr>"

definition ex_q0 :: db where
  "ex_q0 = snd (enqueue_runtime 0 (ex_ctx ''run-one'' 500) ex_rq (ex_run ''run-one'') ex_hash empty_db)"

definition ex_q1 :: db where
  "ex_q1 = snd (enqueue_runtime 0 (ex_ctx ''run-two'' 400) ex_rq (ex_run ''run-two'') ex_hash ex_q0)"

definition ex_q2 :: db where
  "ex_q2 = snd (claim_entry 7 ex_q1)"

lemma ex_queue_runs:
  "fst (claim_entry 7 ex_q1) = Inr (Some (''o'', ''run-two''))"
  "fst (claim_entry 8 ex_q2) = Inr (Some (''o'', ''run-one''))"
  "request_state ''o'' ''run-two'' ex_q1 = Inr RsQueued"
  "fst (register_request ''o'' ''key-run-one'' ''other'' ex_hash ex_q1) = Inr (''run-one'', False)"
  "is_hex 64 ex_hash"
  by code_simp+

lemma ex_q1_reachable: "db_reachable ex_env ex_q1"
  unfolding ex_q1_def ex_q0_def
  by (intro db_reachable.step [OF db_reachable.step [OF db_reachable.start db_step.enqueue]
        db_step.enqueue])

lemma ex_q2_step: "(db_step ex_env)\<^sup>*\<^sup>* ex_q1 ex_q2"
  unfolding ex_q2_def by (intro r_into_rtranclp db_step.claim)

theorem idempotency_key_binds_once_witness:
  "fst (register_request ''o'' ''key-run-one'' ''third'' ex_hash
          (snd (register_request ''o'' ''key-run-one'' ''other'' ex_hash ex_q1)))
     = Inr (''run-one'', False)"
proof -
  let ?t = "snd (register_request ''o'' ''key-run-one'' ''other'' ex_hash ex_q1)"
  have "register_request ''o'' ''key-run-one'' ''other'' ex_hash ex_q1 = (Inr (''run-one'', False), ?t)"
    using ex_queue_runs(4) by (metis prod.collapse)
  from idempotency_key_binds_once [OF ex_q1_reachable this rtranclp.rtrancl_refl ex_queue_runs(5)]
  show ?thesis by simp
qed

theorem request_state_moves_forward_witness:
  "\<exists>b. request_state ''o'' ''run-two'' ex_q2 = Inr b \<and> request_may RsQueued b"
  by (rule request_state_moves_forward [OF ex_q1_reachable ex_queue_runs(3) ex_q2_step])

theorem entry_claimed_at_most_once_witness:
  "(''o'', ''run-one'') \<noteq> (''o'', ''run-two'')
     \<and> fst (claim_entry 7 ex_q1) = Inr (Some (''o'', ''run-two''))
     \<and> fst (claim_entry 8 ex_q2) = Inr (Some (''o'', ''run-one''))"
proof -
  have c: "claim_entry 7 ex_q1 = (Inr (Some (''o'', ''run-two'')), ex_q2)"
    using ex_queue_runs(1) by (metis ex_q2_def prod.collapse)
  have d: "claim_entry 8 ex_q2 = (Inr (Some (''o'', ''run-one'')), snd (claim_entry 8 ex_q2))"
    using ex_queue_runs(2) by (metis prod.collapse)
  show ?thesis
    using entry_claimed_at_most_once [OF ex_q1_reachable c rtranclp.rtrancl_refl d]
      ex_queue_runs(1,2) by blast
qed

end
