(* ===== verification/Examples.thy ===== *)
theory Examples
  imports Security
begin

text \<open>
  One concrete policy that passes every validator, with its admission, for the
  examples that instantiate the properties: a model stage answers a question and a
  code stage trims the answer.  It also shows that the validators are satisfiable
  together.
\<close>

definition ex_prov :: provenance where
  "ex_prov = \<lparr> prov_kind = PObserved, prov_source = ''test'', prov_evidence_ids = [''ev1''] \<rparr>"

definition ex_ask :: node where
  "ex_ask = \<lparr> nd_id = ''ask'', nd_kind = KLlm, nd_purpose = ''answer'', nd_depends_on = [],
     nd_inputs = [(''q'', \<lparr> bind_source = ''question'', bind_output = ''value'',
                            bind_from_input = True \<rparr>)],
     nd_outputs = [''answer''], nd_tool_id = None, nd_allowed_tools = [],
     nd_max_iterations = None, nd_max_model_calls = None \<rparr>"

definition ex_tidy :: node where
  "ex_tidy = \<lparr> nd_id = ''tidy'', nd_kind = KCode, nd_purpose = ''trim'', nd_depends_on = [''ask''],
     nd_inputs = [(''text'', \<lparr> bind_source = ''ask'', bind_output = ''answer'',
                               bind_from_input = False \<rparr>)],
     nd_outputs = [''result''], nd_tool_id = None, nd_allowed_tools = [],
     nd_max_iterations = None, nd_max_model_calls = None \<rparr>"

definition ex_workflow :: workflow where
  "ex_workflow = \<lparr> wf_id = ''w'', wf_version = 1, wf_title = ''Answer'', wf_inputs = [''question''],
     wf_nodes = [ex_ask, ex_tidy], wf_tools = [],
     wf_requirements = \<lparr> req_input_modality = MText, req_deployment = DAny,
        req_structured_output = False, req_tool_calling = False \<rparr>,
     wf_constraints = \<lparr> con_max_cost_per_1k_tokens = None, con_max_latency_ms = None,
        con_required_region = None, con_prov = ex_prov \<rparr>,
     wf_prov = ex_prov \<rparr>"

definition ex_budget :: "int \<Rightarrow> execution_budget" where
  "ex_budget calls = \<lparr> eb_max_cost = 1000, eb_max_model_calls = calls, eb_max_tool_calls = 0,
     eb_max_input_tokens = 1000, eb_max_output_tokens = 100, eb_timeout_ms = 10000,
     eb_max_attempts = 2 \<rparr>"

definition ex_prompt :: prompt_revision where
  "ex_prompt = \<lparr> pr_id = ''pr'', pr_version = 1, pr_template = ''Answer: {{q}}'',
     pr_variables = [(''q'', VtText)], pr_parent = None \<rparr>"

definition ex_stage_ask :: executable_stage where
  "ex_stage_ask = \<lparr> es_node_id = ''ask'', es_input_types = [(''q'', VtText)],
     es_output_types = [(''answer'', VtText)],
     es_prompt = Some \<lparr> vr_id = ''pr'', vr_version = 1 \<rparr>, es_configuration_id = Some ''cfg'',
     es_fallback_configuration_ids = [''alt''], es_route_requirements = None,
     es_response_format = None, es_operation = None, es_allowed_tool_ids = [],
     es_budget = ex_budget 2, es_workload_profile = None, es_validation_rules = [],
     es_max_repairs = 0, es_fallback_on = [FkProviderFailure] \<rparr>"

definition ex_stage_tidy :: executable_stage where
  "ex_stage_tidy = \<lparr> es_node_id = ''tidy'', es_input_types = [(''text'', VtText)],
     es_output_types = [(''result'', VtText)], es_prompt = None, es_configuration_id = None,
     es_fallback_configuration_ids = [], es_route_requirements = None,
     es_response_format = None, es_operation = Some OpTrim, es_allowed_tool_ids = [],
     es_budget = ex_budget 0, es_workload_profile = None, es_validation_rules = [],
     es_max_repairs = 0, es_fallback_on = [] \<rparr>"

definition ex_policy :: executable_policy where
  "ex_policy = \<lparr> ep_id = ''pol'', ep_version = 1, ep_plan = \<lparr> vr_id = ''w'', vr_version = 1 \<rparr>,
     ep_workflow = ex_workflow, ep_catalog_id = ''cat'', ep_input_types = [(''question'', VtText)],
     ep_stages = [ex_stage_ask, ex_stage_tidy], ep_prompts = [ex_prompt],
     ep_budget = (ex_budget 2)\<lparr> eb_max_cost := 2000 \<rparr>, ep_quality = QUntestedProvisional,
     ep_variant = None, ep_routing_decision_id = None, ep_router_policy_ref = None,
     ep_catalog_digest = None, ep_circuit_policy = None \<rparr>"

definition ex_true :: "bool fact" where
  "ex_true = \<lparr> fact_value = Some True, fact_prov = ex_prov, fact_unknown_reason = None \<rparr>"

definition ex_ref :: version_ref where
  "ex_ref = \<lparr> vr_id = ''pol'', vr_version = 1 \<rparr>"

definition ex_admission :: sandbox_admission where
  "ex_admission = \<lparr> sa_id = ''adm'', sa_tenant_id = ''o'', sa_policy = ex_ref,
     sa_policy_digest = ''pol'', sa_configuration_ids = [''cfg'', ''alt''],
     sa_credential_reference_ids = [], sa_allowed_tool_ids = [],
     sa_authorization_reference = ''auth'', sa_budget_reference = ''budget'',
     sa_privacy = ex_true, sa_license_policy = ex_true, sa_weights_access = ex_true,
     sa_capabilities = ex_true, sa_spending = ex_true, sa_expires_at = 1000 \<rparr>"

lemma ex_policy_valid: "valid_policy ex_policy"
  by code_simp

lemma ex_admission_valid: "validate_admission ep_id ''o'' ex_policy ex_admission 5 False = Inr ()"
  by code_simp

end
