(* ===== verification/Record_Log.thy ===== *)
theory Record_Log
  imports Storage_Steps Examples
begin

text \<open>
  The immutable records of \<open>execution_storage.py\<close>: \<open>append\<close> provides the contract
  \<open>append_only\<close>; run events are numbered 1, 2, 3, ... without gaps; a policy's
  transitions are numbered likewise, its head points at the last one, and a policy
  whose sandbox is enabled has an admission that was validated against it.
\<close>

section \<open>Append-only records\<close>

type_synonym rec_ident = "string \<times> rec_kind \<times> string \<times> int"

definition record_at :: "db \<Rightarrow> rec_ident \<Rightarrow> payload option" where
  "record_at s k = (case k of (ow, kind, i, v) \<Rightarrow> find_record ow kind i v s)"

definition append_at :: "rec_ident \<Rightarrow> payload \<Rightarrow> (db, unit) op" where
  "append_at k p = (case k of (ow, kind, i, v) \<Rightarrow> append_record ow kind i v p)"

lemma record_at_rows:
  "record_at s k = map_option rw_payload (scalar (filter (\<lambda>r. record_key r = k) (db_records s)))"
  by (cases k) (simp add: record_at_def find_record_def)

lemma scalar_append:
  "scalar (xs @ ys) = (case scalar xs of None \<Rightarrow> scalar ys | Some x \<Rightarrow> Some x)"
  by (cases xs) simp_all

definition row_for :: "rec_ident \<Rightarrow> payload \<Rightarrow> rec_row" where
  "row_for k p = (case k of (ow, kind, i, v) \<Rightarrow>
     \<lparr> rw_owner = ow, rw_kind = kind, rw_id = i, rw_version = v, rw_payload = p \<rparr>)"

lemma row_for_sels [simp]: "record_key (row_for k p) = k" "rw_payload (row_for k p) = p"
  "rw_version (row_for k p) = snd (snd (snd k))" "rw_kind (row_for k p) = fst (snd k)"
  "rw_owner (row_for k p) = fst k" "rw_id (row_for k p) = fst (snd (snd k))"
  by (cases k; simp add: row_for_def record_key_def)+

lemma append_at_run:
  "append_at k p s = (case record_at s k of
     Some q \<Rightarrow> (if q = p then Inr () else Inl (DomainError CONFLICT 409), s)
   | None \<Rightarrow> if 0 < snd (snd (snd k)) then (Inr (), s\<lparr> db_records := db_records s @ [row_for k p] \<rparr>)
             else (Inl IntegrityError, s))"
proof (cases "record_at s k")
  case None
  then have "k \<notin> record_key ` set (db_records s)"
    by (auto simp: record_at_rows scalar_None)
  then show ?thesis using None
    by (cases k) (simp add: append_at_def append_record_def bindM_run insert_record_def
        on_table_def insert_row_def record_at_def row_for_def record_key_def)
next
  case (Some q)
  then show ?thesis
    by (cases k) (simp add: append_at_def append_record_def bindM_run record_at_def guardM_run)
qed

interpretation log: append_only record_at append_at
proof
  fix k p s u t
  show "append_at k p s = (Inr u, t) \<Longrightarrow> record_at t k = Some p"
    by (auto simp: append_at_run record_at_rows scalar_append split: option.splits if_splits)
next
  fix s k' v' k p
  show "record_at s k' = Some v' \<Longrightarrow> record_at (snd (append_at k p s)) k' = Some v'"
    by (auto simp: append_at_run record_at_rows scalar_append split: option.split)
next
  fix s k' k p
  show "k' \<noteq> k \<Longrightarrow> record_at (snd (append_at k p s)) k' = record_at s k'"
    by (auto simp: append_at_run record_at_rows scalar_append split: option.split)
qed (simp_all add: append_at_run)

lemma append_record_at: "append_record ow kind i v p = append_at (ow, kind, i, v) p"
  by (simp add: append_at_def)

lemma find_record_at: "find_record ow kind i v s = record_at s (ow, kind, i, v)"
  by (simp add: record_at_def)

section \<open>What operations append\<close>

definition keys_distinct :: "db \<Rightarrow> bool" where
  "keys_distinct s = distinct (map record_key (db_records s))"

text \<open>Only records of kinds \<open>ks\<close> are added, and the heads stay.\<close>

definition adds :: "rec_kind set \<Rightarrow> db \<Rightarrow> db \<Rightarrow> bool" where
  "adds ks s t = (db_heads t = db_heads s \<and> (keys_distinct s \<longrightarrow> keys_distinct t)
     \<and> (\<exists>new. db_records t = db_records s @ new \<and> (\<forall>r \<in> set new. rw_kind r \<in> ks)))"

interpretation ad: effect_order "adds ks" for ks
proof
  fix s show "adds ks s s" by (simp add: adds_def)
next
  fix s t u assume "adds ks s t" "adds ks t u"
  then show "adds ks s u" by (fastforce simp: adds_def)
qed

lemma adds_frame: "keeps db_records m \<Longrightarrow> keeps db_heads m \<Longrightarrow> relates (adds ks) m"
proof (rule relatesI)
  fix s assume "keeps db_records m" "keeps db_heads m"
  then show "adds ks s (snd (m s))"
    using keepsD [of db_records m s] keepsD [of db_heads m s] by (simp add: adds_def keys_distinct_def)
qed

lemma adds_append: "kind \<in> ks \<Longrightarrow> relates (adds ks) (append_record ow kind i v p)"
proof (rule relatesI, unfold append_record_at)
  fix s assume kind: "kind \<in> ks"
  let ?k = "(ow, kind, i, v)"
  show "adds ks s (snd (append_at ?k p s))"
  proof (cases "record_at s ?k")
    case None
    then have "?k \<notin> record_key ` set (db_records s)"
      by (auto simp: record_at_rows scalar_None)
    then show ?thesis using None kind
      by (auto simp: append_at_run adds_def keys_distinct_def)
  next
    case (Some q)
    then show ?thesis by (simp add: append_at_run adds_def)
  qed
qed

lemmas adds_rules = ad.rel_rules ad.rel_conflict adds_append

lemma adds_query: "relates (adds ks) (query q)"
  by (simp add: relates_def ad.R_refl)

definition plain_kinds :: "rec_kind set" where
  "plain_kinds = {k. plain_kind k}"

lemma plain_kinds_in [simp]: "k \<in> plain_kinds \<longleftrightarrow> k \<notin> {KPolicy, KTransition, KEvent}"
  by (simp add: plain_kinds_def plain_kind_def)

lemma adds_inserts:
  "relates (adds ks) (insert_payload pr)" "relates (adds ks) (insert_verifier vr)"
  "relates (adds ks) (insert_queue qr)" "relates (adds ks) (provision_in ow i cap)"
  "relates (adds ks) (register_in ow key i h)"
  by (rule adds_frame; simp add: insert_frames budget_frames register_in_frames)+

lemma plain_methods:
  "relates (adds plain_kinds) (create_alias e ow al)"
  "relates (adds plain_kinds) (save_application_key ow key v cap)"
  "relates (adds plain_kinds) (revoke_key ow i now)"
  "relates (adds plain_kinds) (enqueue_runtime now c rq run h)"
proof -
  show "relates (adds plain_kinds) (create_alias e ow al)"
    unfolding create_alias_def by (intro adds_rules adds_query) simp
  show "relates (adds plain_kinds) (save_application_key ow key v cap)"
    unfolding save_application_key_def by (intro adds_rules adds_inserts) simp
  show "relates (adds plain_kinds) (revoke_key ow i now)"
    unfolding revoke_key_def Let_def by (intro adds_rules adds_query) simp
  show "relates (adds plain_kinds) (enqueue_runtime now c rq run h)"
    unfolding enqueue_runtime_def register_with_def
    by (intro adds_rules adds_inserts) simp_all
qed

lemma save_event_adds: "relates (adds {KEvent}) (save_event ow ev)"
  unfolding save_event_def exec_def by (intro adds_rules adds_query) simp

text \<open>Every step adds plain records only, or is one of the three that number theirs.\<close>

lemma record_step:
  assumes "db_step e s t"
  shows "adds plain_kinds s t \<or> (\<exists>ow ev. t = snd (save_event ow ev s))
    \<or> (\<exists>now ow p. t = snd (append_policy e now ow p s))
    \<or> (\<exists>ow r tr. t = snd (swap_head e ow r tr s) \<and> vetted e ow r tr s)"
  using assms
proof cases
  case (append k ow i v p)
  then have "relates (adds plain_kinds) (transact (append_record ow k i v p))"
    by (intro adds_rules) (simp add: plain_kind_def)
  then show ?thesis using append rel_snd by metis
next
  case provision then show ?thesis by (simp add: rel_snd [OF adds_frame] budget_frames)
next
  case reserve then show ?thesis by (simp add: rel_snd [OF adds_frame] reserve_frames)
next
  case reconcile then show ?thesis by (simp add: rel_snd [OF adds_frame] reconcile_frames)
next
  case save_key then show ?thesis by (simp add: rel_snd [OF plain_methods(2)])
next
  case new_alias then show ?thesis by (simp add: rel_snd [OF plain_methods(1)])
next
  case revoke then show ?thesis by (simp add: rel_snd [OF plain_methods(3)])
next
  case enqueue then show ?thesis by (simp add: rel_snd [OF plain_methods(4)])
next
  case save_payload then show ?thesis by (simp add: rel_snd [OF adds_frame] payload_frames)
next
  case purge then show ?thesis by (simp add: rel_snd [OF adds_frame] payload_frames)
next
  case register then show ?thesis by (simp add: rel_snd [OF adds_frame] request_frames)
next
  case advance then show ?thesis by (simp add: rel_snd [OF adds_frame] request_frames)
next
  case claim then show ?thesis by (simp add: rel_snd [OF adds_frame] queue_frames)
next
  case finish then show ?thesis by (simp add: rel_snd [OF adds_frame] queue_frames)
next
  case (health m) then show ?thesis using health_tables [of m s] by (simp add: adds_def keys_distinct_def)
next
  case (planning m) then show ?thesis using planning_tables [of m s] by (simp add: adds_def keys_distinct_def)
qed blast+

section \<open>Consequences of adding\<close>

lemma adds_versions:
  "adds ks s t \<Longrightarrow> kind \<notin> ks \<Longrightarrow> versions ow kind i t = versions ow kind i s"
  by (auto simp: adds_def versions_def filter_empty_conv)

lemma adds_keeps: "adds ks s t \<Longrightarrow> record_at s k = Some p \<Longrightarrow> record_at t k = Some p"
  by (auto simp: adds_def record_at_rows scalar_append)

lemma adds_other: "adds ks s t \<Longrightarrow> fst (snd k) \<notin> ks \<Longrightarrow> record_at t k = record_at s k"
proof -
  assume a: "adds ks s t" "fst (snd k) \<notin> ks"
  obtain new where new: "db_records t = db_records s @ new" "\<forall>r \<in> set new. rw_kind r \<in> ks"
    using a(1) by (auto simp: adds_def)
  have "filter (\<lambda>r. record_key r = k) new = []"
    using new(2) a(2) by (auto simp: filter_empty_conv record_key_def)
  then show ?thesis using new(1) by (simp add: record_at_rows)
qed

lemma admitted_keeps:
  assumes "admitted e ow r t s" and "\<And>k p. record_at s k = Some p \<Longrightarrow> record_at s' k = Some p"
  shows "admitted e ow r t s'"
  using assms unfolding admitted_def find_record_at by blast

lemma versions_append:
  "versions ow kind i (s\<lparr> db_records := db_records s @ [row_for (ow', kind', i', v) p] \<rparr>)
     = versions ow kind i s @ (if (ow', kind', i') = (ow, kind, i) then [v] else [])"
  by (auto simp: versions_def)

lemma record_at_append:
  "record_at (s\<lparr> db_records := db_records s @ [row_for k p] \<rparr>) k'
     = (case record_at s k' of Some q \<Rightarrow> Some q | None \<Rightarrow> if k' = k then Some p else None)"
  by (auto simp: record_at_rows scalar_append split: option.split)

lemma record_at_version: "record_at s (ow, kind, i, v) \<noteq> None \<longleftrightarrow> v \<in> set (versions ow kind i s)"
  by (auto simp: record_at_rows scalar_None versions_def record_key_def)

section \<open>Run events\<close>

definition numbered :: "int list \<Rightarrow> bool" where
  "numbered vs = (vs = map (\<lambda>n. int n + 1) [0..<length vs])"

lemma numbered_max: "numbered vs \<Longrightarrow> sql_max vs = int (length vs)"
proof (cases vs rule: rev_cases)
  case Nil
  then show ?thesis by (simp add: sql_max_def)
next
  case (snoc ws w)
  assume n: "numbered vs"
  have "set vs = (\<lambda>n. int n + 1) ` {0..<length vs}"
    using n by (metis atLeastLessThan_upt numbered_def set_map)
  moreover have "Max ((\<lambda>n. int n + 1) ` {0..<Suc m}) = int m + 1" for m
    by (rule Max_eqI) auto
  ultimately show ?thesis using snoc by (simp add: sql_max_Max)
qed

lemma numbered_snoc: "numbered vs \<Longrightarrow> v = sql_max vs + 1 \<Longrightarrow> numbered (vs @ [v])"
  using numbered_max [of vs] by (simp add: numbered_def)

lemma numbered_in: "numbered vs \<Longrightarrow> v \<in> set vs \<longleftrightarrow> 1 \<le> v \<and> v \<le> int (length vs)"
proof -
  assume n: "numbered vs"
  have "set vs = (\<lambda>n. int n + 1) ` {0..<length vs}"
    using n by (metis atLeastLessThan_upt numbered_def set_map)
  moreover have "v \<in> (\<lambda>n. int n + 1) ` {0..<L}" if "1 \<le> v" "v \<le> int L" for L
    using that by (intro image_eqI [of _ _ "nat (v - 1)"]) auto
  ultimately show ?thesis by auto
qed

definition event_row :: "rec_row \<Rightarrow> bool" where
  "event_row r = (\<exists>ev. rw_payload r = PlEvent ev \<and> ev_run_id ev = rw_id r \<and> ev_sequence ev = rw_version r)"

definition events_sound :: "db \<Rightarrow> bool" where
  "events_sound s = ((\<forall>ow run. numbered (versions ow KEvent run s))
     \<and> (\<forall>r \<in> set (db_records s). rw_kind r = KEvent \<longrightarrow> event_row r))"

lemma events_adds: "adds ks s t \<Longrightarrow> KEvent \<notin> ks \<Longrightarrow> events_sound s \<Longrightarrow> events_sound t"
proof -
  assume a: "adds ks s t" "KEvent \<notin> ks" and s: "events_sound s"
  obtain new where "db_records t = db_records s @ new" "\<forall>r \<in> set new. rw_kind r \<in> ks"
    using a(1) by (auto simp: adds_def)
  then have "\<forall>r \<in> set (db_records t). rw_kind r = KEvent \<longrightarrow> event_row r"
    using s a(2) by (auto simp: events_sound_def)
  then show "events_sound t" using s by (simp add: events_sound_def adds_versions [OF a])
qed

lemma save_event_ok:
  assumes "save_event ow ev s = (Inr u, t)"
  shows "ev_sequence ev = sql_max (versions ow KEvent (ev_run_id ev) s) + 1"
    "append_at (ow, KEvent, ev_run_id ev, ev_sequence ev) (PlEvent ev) s = (Inr (), t)"
  using assms
  by (auto simp: save_event_def thenM_ok_iff bindM_ok_iff append_record_at exec_ok_iff query_def)

lemma save_event_atomic: "atomic (save_event ow ev)"
proof -
  have "atomic (thenM (exec (query q)) (transact m))" for q m
    by (auto simp: atomic_def thenM_run exec_def split: prod.splits sum.splits dest: transact_err)
  then show ?thesis unfolding save_event_def by (intro atomic_guard)
qed

lemma save_event_sound: "preserves events_sound (save_event ow ev)"
proof (rule atomic_pres [OF save_event_atomic])
  fix s u t assume s: "events_sound s" and run: "save_event ow ev s = (Inr u, t)"
  note ok = save_event_ok [OF run]
  let ?k = "(ow, KEvent, ev_run_id ev, ev_sequence ev)"
  have num: "numbered (versions ow KEvent (ev_run_id ev) s)" using s by (simp add: events_sound_def)
  then have "ev_sequence ev \<notin> set (versions ow KEvent (ev_run_id ev) s)"
    using ok(1) numbered_in numbered_max by fastforce
  then have "record_at s ?k = None" using record_at_version by blast
  then have t: "t = s\<lparr> db_records := db_records s @ [row_for ?k (PlEvent ev)] \<rparr>"
    using ok(2) by (auto simp: append_at_run split: if_splits)
  show "events_sound t"
    unfolding events_sound_def
  proof (intro allI conjI)
    fix ow' run
    show "numbered (versions ow' KEvent run t)"
      using s numbered_snoc [OF num ok(1)] by (auto simp: t versions_append events_sound_def)
  next
    have "event_row (row_for ?k (PlEvent ev))" by (simp add: event_row_def)
    then show "\<forall>r \<in> set (db_records t). rw_kind r = KEvent \<longrightarrow> event_row r"
      using s by (auto simp: t events_sound_def)
  qed
qed

definition event_rows :: "db \<Rightarrow> rec_row list" where
  "event_rows s = filter (\<lambda>r. rw_kind r = KEvent) (db_records s)"

lemma event_versions: "versions ow KEvent run s
    = map rw_version (filter (\<lambda>r. rw_owner r = ow \<and> rw_id r = run) (event_rows s))"
  by (simp add: versions_def event_rows_def conj_commute conj_left_commute)

lemma event_rows_append: "kind \<noteq> KEvent \<Longrightarrow> keeps event_rows (append_record ow kind i v p)"
  unfolding append_record_at keeps_def
  by (rule relatesI) (simp add: append_at_run event_rows_def split: option.split)

lemma events_sound_rows: "event_rows t = event_rows s \<Longrightarrow> events_sound s \<Longrightarrow> events_sound t"
proof -
  assume eq: "event_rows t = event_rows s" and s: "events_sound s"
  have "\<forall>r \<in> set (event_rows s). event_row r"
    using s by (simp add: events_sound_def event_rows_def)
  then show "events_sound t"
    using s by (simp add: events_sound_def event_versions flip: eq)
      (simp add: event_rows_def)
qed

lemma event_rows_heads: "keeps event_rows (on_heads f)"
  by (rule keeps_on_table) (simp add: event_rows_def)

lemma policy_event_rows:
  "keeps event_rows (append_policy e now ow p)" "keeps event_rows (swap_head e ow r t)"
proof -
  show "keeps event_rows (append_policy e now ow p)"
    unfolding append_policy_def append_policy_tx_def Let_def insert_head_def
    by (intro keeps_rules keeps_query event_rows_append event_rows_heads) simp_all
  show "keeps event_rows (swap_head e ow r t)"
    unfolding swap_head_def
    by (intro keeps_rules event_rows_append event_rows_heads) simp_all
qed

lemma events_sound_reachable: "db_reachable e s \<Longrightarrow> events_sound s"
proof (induction rule: db_reachable.induct)
  case start
  then show ?case
    by (simp add: events_sound_def versions_def empty_db_def numbered_def)
next
  case (step s t)
  from record_step [OF step.hyps(2)] show ?case
  proof (elim disjE exE conjE)
    assume "adds plain_kinds s t"
    then show ?thesis by (rule events_adds [OF _ _ step.IH]) simp
  qed (use step.IH in \<open>simp_all add: preservesD [OF save_event_sound]
      events_sound_rows [OF keepsD [OF policy_event_rows(1)]]
      events_sound_rows [OF keepsD [OF policy_event_rows(2)]]\<close>)
qed

section \<open>Policies, transitions and heads\<close>

definition transition_id :: "env \<Rightarrow> string \<Rightarrow> int \<Rightarrow> string" where
  "transition_id e i v = state_id e \<lparr> vr_id = i, vr_version = v \<rparr>"

definition transition_sound :: "env \<Rightarrow> db \<Rightarrow> string \<Rightarrow> version_ref \<Rightarrow> int \<Rightarrow> bool" where
  "transition_sound e s ow r v = (\<exists>t. record_at s (ow, KTransition, state_id e r, v) = Some (PlTransition t)
     \<and> pt_policy t = r \<and> pt_sequence t = v
     \<and> (pt_status t = PsSandboxEnabled \<longrightarrow> admitted e ow r t s))"

definition head_sound :: "env \<Rightarrow> db \<Rightarrow> head_row \<Rightarrow> bool" where
  "head_sound e s h = (let r = \<lparr> vr_id = hd_policy_id h, vr_version = hd_policy_version h \<rparr>;
       vs = versions (hd_owner h) KTransition (state_id e r) s in
     numbered vs \<and> hd_sequence h = int (length vs) \<and> 1 \<le> hd_sequence h
     \<and> (\<exists>p. record_at s (hd_owner h, KPolicy, vr_id r, vr_version r) = Some (PlPolicy p)
            \<and> ep_id p = vr_id r \<and> ep_version p = vr_version r)
     \<and> (\<forall>v \<in> set vs. transition_sound e s (hd_owner h) r v))"

definition policies_sound :: "env \<Rightarrow> db \<Rightarrow> bool" where
  "policies_sound e s = (distinct (map head_key (db_heads s))
     \<and> (\<forall>h \<in> set (db_heads s). head_sound e s h)
     \<and> (\<forall>ow i. numbered (versions ow KPolicy i s))
     \<and> (\<forall>ow i v. v \<in> set (versions ow KPolicy i s) \<longrightarrow> (ow, i, v) \<in> head_key ` set (db_heads s))
     \<and> (\<forall>ow i v. v \<in> set (versions ow KTransition i s) \<longrightarrow>
          (\<exists>h \<in> set (db_heads s). hd_owner h = ow
             \<and> i = transition_id e (hd_policy_id h) (hd_policy_version h))))"

lemma transition_head:
  "policies_sound e s \<Longrightarrow> v \<in> set (versions ow KTransition i s) \<Longrightarrow>
   \<exists>h \<in> set (db_heads s). hd_owner h = ow \<and> i = transition_id e (hd_policy_id h) (hd_policy_version h)"
  unfolding policies_sound_def by blast

lemma transition_sound_keeps:
  assumes "transition_sound e s ow r v" and "\<And>k p. record_at s k = Some p \<Longrightarrow> record_at t k = Some p"
  shows "transition_sound e t ow r v"
  using assms admitted_keeps [of e ow r _ s t] unfolding transition_sound_def by blast

lemma head_sound_keeps:
  assumes "head_sound e s h" and "\<And>k p. record_at s k = Some p \<Longrightarrow> record_at t k = Some p"
    and "versions (hd_owner h) KTransition (transition_id e (hd_policy_id h) (hd_policy_version h)) t
       = versions (hd_owner h) KTransition (transition_id e (hd_policy_id h) (hd_policy_version h)) s"
  shows "head_sound e t h"
  using assms transition_sound_keeps [of e s _ _ _ t]
  unfolding head_sound_def Let_def transition_id_def by metis

lemma policies_adds: "adds ks s t \<Longrightarrow> KPolicy \<notin> ks \<Longrightarrow> KTransition \<notin> ks \<Longrightarrow> policies_sound e s
    \<Longrightarrow> policies_sound e t"
proof -
  assume a: "adds ks s t" and k: "KPolicy \<notin> ks" "KTransition \<notin> ks" and s: "policies_sound e s"
  have h: "db_heads t = db_heads s" using a by (simp add: adds_def)
  have "head_sound e t x" if "x \<in> set (db_heads s)" for x
    by (rule head_sound_keeps [of e s])
      (use s that a k in \<open>auto simp: policies_sound_def adds_versions intro: adds_keeps\<close>)
  then show "policies_sound e t"
    using s by (simp add: policies_sound_def h adds_versions [OF a] k)
qed

subsection \<open>Appending a policy\<close>

lemma append_policy_state:
  "snd (append_policy e now ow p s) = s \<or>
   append_policy_tx e now ow p s = (Inr (), snd (append_policy e now ow p s))"
  unfolding append_policy_def
  by (cases "append_policy_tx e now ow p s")
    (auto simp: thenM_run conflict_on_integrity_def catchM_def transact_def split: sum.split)

lemma append_at_new:
  assumes "record_at s k = None" and "append_at k p s = (Inr u, t)"
  shows "0 < snd (snd (snd k)) \<and> t = s\<lparr> db_records := db_records s @ [row_for k p] \<rparr>"
  using assms by (auto simp: append_at_run split: if_splits)

lemma append_at_old:
  assumes "record_at s k = Some q" and "append_at k p s = (Inr u, t)"
  shows "q = p \<and> t = s"
  using assms by (auto simp: append_at_run split: if_splits)

lemma append_policy_tx_new:
  assumes run: "append_policy_tx e now ow p s = (Inr (), t)"
    and eq: "sql_max (versions ow KPolicy (ep_id p) s) + 1 = ep_version p"
  shows "\<exists>s1 s2 tr. append_at (ow, KPolicy, ep_id p, ep_version p) (PlPolicy p) s = (Inr (), s1)
        \<and> append_at (ow, KTransition, transition_id e (ep_id p) (ep_version p), 1)
                (PlTransition tr) s1 = (Inr (), s2)
        \<and> pt_policy tr = \<lparr> vr_id = ep_id p, vr_version = ep_version p \<rparr> \<and> pt_sequence tr = 1
        \<and> pt_status tr = PsDraft
        \<and> (ow, ep_id p, ep_version p) \<notin> head_key ` set (db_heads s2)
        \<and> t = s2\<lparr> db_heads := db_heads s2 @ [\<lparr> hd_owner = ow, hd_policy_id = ep_id p,
               hd_policy_version = ep_version p, hd_sequence = 1 \<rparr>] \<rparr>"
proof -
  let ?tr = "\<lparr> pt_policy = \<lparr> vr_id = ep_id p, vr_version = ep_version p \<rparr>, pt_sequence = 1,
     pt_status = PsDraft, pt_admission_id = None, pt_actor_id = ow, pt_occurred_at = now \<rparr>"
  let ?h = "\<lparr> hd_owner = ow, hd_policy_id = ep_id p, hd_policy_version = ep_version p, hd_sequence = 1 \<rparr>"
  have key: "head_key ?h = (ow, ep_id p, ep_version p)" by (simp add: head_key_def)
  obtain s1 s2 where "append_at (ow, KPolicy, ep_id p, ep_version p) (PlPolicy p) s = (Inr (), s1)"
    "append_at (ow, KTransition, transition_id e (ep_id p) (ep_version p), 1) (PlTransition ?tr) s1
       = (Inr (), s2)" "insert_head ?h s2 = (Inr (), t)"
    using run by (auto simp: append_policy_tx_def Let_def bindM_ok_iff thenM_ok_iff
        append_record_at eq transition_id_def)
  then show ?thesis
    by (intro exI [of _ s1] exI [of _ s2] exI [of _ ?tr])
      (simp add: insert_head_def on_table_ok_iff key)
qed

lemma append_policy_tx_old:
  assumes "append_policy_tx e now ow p s = (Inr (), t)"
    and "sql_max (versions ow KPolicy (ep_id p) s) + 1 \<noteq> ep_version p"
  shows "ep_version p \<le> sql_max (versions ow KPolicy (ep_id p) s)"
    "append_at (ow, KPolicy, ep_id p, ep_version p) (PlPolicy p) s = (Inr (), t)"
  using assms
  by (auto simp: append_policy_tx_def Let_def bindM_ok_iff thenM_ok_iff append_record_at
      split: if_splits)

lemma transition_id_inj:
  "inj (env_sha e) \<Longrightarrow> transition_id e i v = transition_id e j w \<longleftrightarrow> i = j \<and> v = w"
proof
  assume inj: "inj (env_sha e)" and eq: "transition_id e i v = transition_id e j w"
  have "ref_text \<lparr> vr_id = i, vr_version = v \<rparr> = ref_text \<lparr> vr_id = j, vr_version = w \<rparr>"
    using injD [OF inj] eq by (simp add: transition_id_def state_id_def)
  then show "i = j \<and> v = w" using ref_text_inj by blast
qed simp

lemma append_policy_sound_tx:
  assumes inj: "inj (env_sha e)" and s: "policies_sound e s"
    and run: "append_policy_tx e now ow p s = (Inr (), t)"
  shows "policies_sound e t"
proof -
  let ?k = "(ow, KPolicy, ep_id p, ep_version p)" and ?vs = "versions ow KPolicy (ep_id p) s"
  have num: "numbered ?vs" using s by (simp add: policies_sound_def)
  show ?thesis
  proof (cases "ep_version p = sql_max ?vs + 1")
    case False
    then have ne: "sql_max ?vs + 1 \<noteq> ep_version p" by simp
    note old = append_policy_tx_old [OF run ne]
    show ?thesis
    proof (cases "record_at s ?k")
      case None
      then have "0 < ep_version p" "ep_version p \<notin> set ?vs"
        using append_at_new [OF None old(2)] record_at_version [of s ow KPolicy "ep_id p" "ep_version p"]
        by auto
      then show ?thesis using old(1) numbered_in [OF num] numbered_max [OF num] by auto
    next
      case (Some q)
      then show ?thesis using append_at_old [OF Some old(2)] s by simp
    qed
  next
    case True
    obtain s1 s2 tr where s1: "append_at ?k (PlPolicy p) s = (Inr (), s1)"
      and s2: "append_at (ow, KTransition, transition_id e (ep_id p) (ep_version p), 1)
                (PlTransition tr) s1 = (Inr (), s2)"
      and tr: "pt_policy tr = \<lparr> vr_id = ep_id p, vr_version = ep_version p \<rparr>" "pt_sequence tr = 1"
        "pt_status tr = PsDraft"
      and fresh: "(ow, ep_id p, ep_version p) \<notin> head_key ` set (db_heads s2)"
      and t: "t = s2\<lparr> db_heads := db_heads s2 @ [\<lparr> hd_owner = ow, hd_policy_id = ep_id p,
               hd_policy_version = ep_version p, hd_sequence = 1 \<rparr>] \<rparr>"
      using append_policy_tx_new [OF run True [symmetric]] by blast
    have "ep_version p \<notin> set ?vs"
      using True numbered_in [OF num] numbered_max [OF num] by auto
    then have none: "record_at s ?k = None" using record_at_version by blast
    have s1': "s1 = s\<lparr> db_records := db_records s @ [row_for ?k (PlPolicy p)] \<rparr>"
      using append_at_new [OF none s1] by simp
    let ?sid = "transition_id e (ep_id p) (ep_version p)" and ?kt = "(ow, KTransition, transition_id e (ep_id p) (ep_version p), 1 :: int)"
    have heads2: "db_heads s2 = db_heads s1"
      using s2 by (auto simp: append_at_run split: option.splits if_splits)
    then have fresh': "(ow, ep_id p, ep_version p) \<notin> head_key ` set (db_heads s)"
      using fresh s1' by simp
    have vs0: "versions ow KTransition ?sid s = []"
    proof (rule ccontr)
      assume "versions ow KTransition ?sid s \<noteq> []"
      then obtain v where "v \<in> set (versions ow KTransition ?sid s)" by (meson list.set_sel(1))
      then obtain h where "h \<in> set (db_heads s)" "hd_owner h = ow"
        "?sid = transition_id e (hd_policy_id h) (hd_policy_version h)"
        using s unfolding policies_sound_def by blast
      then have "head_key h = (ow, ep_id p, ep_version p)"
        using transition_id_inj [OF inj] by (simp add: head_key_def)
      then show False using fresh' \<open>h \<in> set (db_heads s)\<close> by (metis image_eqI)
    qed
    then have "record_at s1 ?kt = None"
      using record_at_version [of s ow KTransition ?sid] by (auto simp: s1' record_at_append split: option.split)
    then have s2': "s2 = s1\<lparr> db_records := db_records s1 @ [row_for ?kt (PlTransition tr)] \<rparr>"
      using append_at_new [OF _ s2] by simp
    let ?h = "\<lparr> hd_owner = ow, hd_policy_id = ep_id p, hd_policy_version = ep_version p, hd_sequence = 1 \<rparr>"
    have recs: "record_at s k = Some q \<Longrightarrow> record_at t k = Some q" for k q
      by (auto simp: t s2' s1' record_at_rows scalar_append split: option.splits)
    have vers: "versions ow' kind i t = versions ow' kind i s
        @ (if (ow', kind, i) = (ow, KPolicy, ep_id p) then [ep_version p] else [])
        @ (if (ow', kind, i) = (ow, KTransition, ?sid) then [1] else [])" for ow' kind i
      by (auto simp: t s2' s1' versions_def)
    have heads: "db_heads t = db_heads s @ [?h]" using heads2 by (simp add: t s1')
    have old: "head_sound e t h" if h: "h \<in> set (db_heads s)" for h
    proof (rule head_sound_keeps [OF _ recs])
      show "head_sound e s h" using s h by (simp add: policies_sound_def)
      have "head_key h \<noteq> (ow, ep_id p, ep_version p)" using fresh' h by (metis image_eqI)
      then show "versions (hd_owner h) KTransition (transition_id e (hd_policy_id h) (hd_policy_version h)) t
         = versions (hd_owner h) KTransition (transition_id e (hd_policy_id h) (hd_policy_version h)) s"
        unfolding vers by (auto simp: transition_id_inj [OF inj] head_key_def)
    qed
    have pol: "record_at t ?k = Some (PlPolicy p)"
      using none by (simp add: t s2' s1' record_at_rows scalar_append split: option.splits)
    have "record_at s ?kt = None" using vs0 record_at_version [of s ow KTransition ?sid] by auto
    then have trt: "record_at t ?kt = Some (PlTransition tr)"
      by (simp add: t s2' s1' record_at_rows scalar_append record_key_def split: option.splits)
    have "transition_sound e t ow \<lparr> vr_id = ep_id p, vr_version = ep_version p \<rparr> 1"
      unfolding transition_sound_def using trt tr by (auto simp: transition_id_def)
    then have new: "head_sound e t ?h"
      using pol vs0 by (simp add: head_sound_def Let_def vers numbered_def
          flip: transition_id_def)
    show ?thesis
      unfolding policies_sound_def
    proof (intro conjI allI impI)
      show "distinct (map head_key (db_heads t))"
        using s fresh' by (simp add: heads policies_sound_def head_key_def)
      show "\<forall>h \<in> set (db_heads t). head_sound e t h" using old new by (auto simp: heads)
    next
      fix ow' i show "numbered (versions ow' KPolicy i t)"
        using s numbered_snoc [OF num True] by (auto simp: vers policies_sound_def)
    next
      fix ow' i v assume "v \<in> set (versions ow' KPolicy i t)"
      then have "v \<in> set (versions ow' KPolicy i s) \<or> (ow', i, v) = head_key ?h"
        by (auto simp: vers head_key_def split: if_splits)
      then show "(ow', i, v) \<in> head_key ` set (db_heads t)"
        using s by (auto simp: heads policies_sound_def)
    next
      fix ow' i v assume "v \<in> set (versions ow' KTransition i t)"
      then consider "v \<in> set (versions ow' KTransition i s)" | "ow' = ow" "i = ?sid"
        by (auto simp: vers split: if_splits)
      then show "\<exists>h \<in> set (db_heads t). hd_owner h = ow'
             \<and> i = transition_id e (hd_policy_id h) (hd_policy_version h)"
      proof cases
        case 1
        then obtain h where "h \<in> set (db_heads s)" "hd_owner h = ow'"
          "i = transition_id e (hd_policy_id h) (hd_policy_version h)"
          using s unfolding policies_sound_def by blast
        then show ?thesis by (auto simp: heads)
      qed (simp add: heads)
    qed
  qed
qed

subsection \<open>Swapping a head\<close>

definition at_head :: "string \<Rightarrow> version_ref \<Rightarrow> int \<Rightarrow> head_row \<Rightarrow> bool" where
  "at_head ow r n h = (head_key h = (ow, vr_id r, vr_version r) \<and> hd_sequence h = n)"

lemma swap_head_ok:
  assumes "swap_head e ow r tr s = (Inr u, t)"
  obtains s1 where "count_where (at_head ow r (pt_sequence tr - 1)) (db_heads s) = 1"
    "s1 = s\<lparr> db_heads := upd_where (at_head ow r (pt_sequence tr - 1))
        (\<lambda>h. h\<lparr> hd_sequence := pt_sequence tr \<rparr>) (db_heads s) \<rparr>"
    "append_at (ow, KTransition, state_id e r, pt_sequence tr) (PlTransition tr) s1 = (Inr (), t)"
  using assms
  by (auto simp: swap_head_def bindM_ok_iff thenM_ok_iff append_record_at on_table_ok_iff
      at_head_def [abs_def])

lemma swap_head_atomic: "atomic (swap_head e ow r tr)"
  unfolding swap_head_def by (rule atomic_transact)

lemma versions_heads [simp]: "versions ow k i (s\<lparr> db_heads := hs \<rparr>) = versions ow k i s"
  by (simp add: versions_def)

lemma record_at_heads [simp]: "record_at (s\<lparr> db_heads := hs \<rparr>) k = record_at s k"
  by (simp add: record_at_rows)

lemma head_ref: "head_key h = (ow, vr_id r, vr_version r) \<Longrightarrow>
    hd_owner h = ow \<and> \<lparr> vr_id = hd_policy_id h, vr_version = hd_policy_version h \<rparr> = r
    \<and> transition_id e (hd_policy_id h) (hd_policy_version h) = state_id e r"
  by (cases r) (simp add: head_key_def transition_id_def)

lemma vetted_transition:
  assumes v: "vetted e ow r tr s" and keeps: "\<And>k p. record_at s k = Some p \<Longrightarrow> record_at t k = Some p"
    and rec: "record_at t (ow, KTransition, state_id e r, pt_sequence tr) = Some (PlTransition tr)"
  shows "transition_sound e t ow r (pt_sequence tr)"
  unfolding transition_sound_def
  using rec v admitted_keeps [of e ow r tr s t, OF _ keeps]
  by (auto simp: vetted_def)

lemma swap_head_sound:
  assumes inj: "inj (env_sha e)" and s: "policies_sound e s" and v: "vetted e ow r tr s"
    and run: "swap_head e ow r tr s = (Inr u, t)"
  shows "policies_sound e t"
proof -
  let ?p = "at_head ow r (pt_sequence tr - 1)" and ?f = "\<lambda>h. h\<lparr> hd_sequence := pt_sequence tr \<rparr>"
  let ?k = "(ow, KTransition, state_id e r, pt_sequence tr)"
  let ?vs = "versions ow KTransition (state_id e r) s"
  obtain s1 where one: "count_where ?p (db_heads s) = 1"
    and s1: "s1 = s\<lparr> db_heads := upd_where ?p ?f (db_heads s) \<rparr>"
    and app: "append_at ?k (PlTransition tr) s1 = (Inr (), t)"
    by (rule swap_head_ok [OF run])
  have d: "distinct (map head_key (db_heads s))" using s by (simp add: policies_sound_def)
  have room: "\<And>h. ?p h \<Longrightarrow> head_key h = (ow, vr_id r, vr_version r)" by (simp add: at_head_def)
  obtain h where h: "h \<in> set (db_heads s)" "?p h" by (rule count_where_1_row [OF d room one])
  note hr = head_ref [OF room [OF h(2)]]
  have hs: "head_sound e s h" using s h by (simp add: policies_sound_def)
  then have num: "numbered ?vs" and len: "pt_sequence tr - 1 = int (length ?vs)"
    using h(2) hr by (auto simp: head_sound_def Let_def at_head_def)
  have seq: "pt_sequence tr = sql_max ?vs + 1" using len numbered_max [OF num] by simp
  have "pt_sequence tr \<notin> set ?vs" using seq numbered_in [OF num] len by auto
  then have none: "record_at s1 ?k = None"
    using record_at_version [of s ow KTransition "state_id e r" "pt_sequence tr"] by (auto simp: s1)
  have t: "t = s1\<lparr> db_records := db_records s1 @ [row_for ?k (PlTransition tr)] \<rparr>"
    using append_at_new [OF none app] by simp
  have recs: "record_at s k = Some q \<Longrightarrow> record_at t k = Some q" for k q
    by (auto simp: t s1 record_at_rows scalar_append split: option.splits)
  have rec: "record_at t ?k = Some (PlTransition tr)"
    using none by (simp add: t record_at_append)
  have vers: "versions ow' kind i t = versions ow' kind i s
        @ (if (ow', kind, i) = (ow, KTransition, state_id e r) then [pt_sequence tr] else [])" for ow' kind i
    by (auto simp: t s1 versions_def)
  have heads: "db_heads t = upd_where ?p ?f (db_heads s)" by (simp add: t s1)
  have fkey: "\<And>x. head_key (?f x) = head_key x" by (simp add: head_key_def)
  have keys: "map head_key (db_heads t) = map head_key (db_heads s)"
    unfolding heads by (rule map_upd_where) (simp add: fkey)
  then have keyset: "head_key ` set (db_heads t) = head_key ` set (db_heads s)" by (metis set_map)
  have "head_sound e t (if ?p x then ?f x else x)" if x: "x \<in> set (db_heads s)" for x
  proof (cases "?p x")
    case True
    then have "x = h" using key_unique [OF d x h(1)] room h(2) by metis
    then have "head_sound e t (?f x)"
      using hs hr num numbered_snoc [OF num seq] len transition_sound_keeps [of e s ow r _ t, OF _ recs]
        vetted_transition [OF v recs rec] recs
      by (auto simp: head_sound_def Let_def vers)
    then show ?thesis using True by simp
  next
    case False
    have "head_key x \<noteq> (ow, vr_id r, vr_version r)"
    proof
      assume "head_key x = (ow, vr_id r, vr_version r)"
      then have "x = h" using key_unique [OF d x h(1)] room [OF h(2)] by simp
      then show False using False h by simp
    qed
    then have "(hd_owner x, transition_id e (hd_policy_id x) (hd_policy_version x)) \<noteq> (ow, state_id e r)"
      using transition_id_inj [OF inj, of "hd_policy_id x" "hd_policy_version x" "vr_id r" "vr_version r"]
      by (cases r) (auto simp: head_key_def transition_id_def)
    then have "head_sound e t x"
      using s x by (intro head_sound_keeps [OF _ recs]) (auto simp: policies_sound_def vers)
    then show ?thesis using False by simp
  qed
  then have "\<forall>x \<in> set (db_heads t). head_sound e t x"
    unfolding heads by (simp only: upd_where_def set_map ball_simps) blast
  moreover have "\<exists>x \<in> set (db_heads t). hd_owner x = ow'
             \<and> i = transition_id e (hd_policy_id x) (hd_policy_version x)"
    if "v \<in> set (versions ow' KTransition i t)" for ow' i v
  proof -
    have "\<exists>x \<in> set (db_heads s). hd_owner x = ow'
             \<and> i = transition_id e (hd_policy_id x) (hd_policy_version x)"
    proof (cases "v \<in> set (versions ow' KTransition i s)")
      case True
      then show ?thesis by (rule transition_head [OF s])
    next
      case False
      then have "ow' = ow" "i = state_id e r" using that by (auto simp: vers split: if_splits)
      then show ?thesis using h(1) hr by metis
    qed
    then obtain x where x: "x \<in> set (db_heads s)" "hd_owner x = ow'"
      "i = transition_id e (hd_policy_id x) (hd_policy_version x)" by blast
    have "(if ?p x then ?f x else x) \<in> set (db_heads t)" using x by (auto simp: heads set_upd_where)
    then show ?thesis using x by (metis head_row.select_convs(1-3) head_row.surjective head_row.update_convs(4))
  qed
  ultimately show ?thesis
    using s unfolding policies_sound_def keys keyset by (auto simp: vers)
qed

text \<open>All steps.\<close>

lemma policies_same: "db_records t = db_records s \<Longrightarrow> db_heads t = db_heads s \<Longrightarrow> policies_sound e s
    \<Longrightarrow> policies_sound e t"
  by (rule policies_adds [of "{}" s t]) (simp_all add: adds_def keys_distinct_def)

lemma policies_sound_reachable:
  assumes "inj (env_sha e)"
  shows "db_reachable e s \<Longrightarrow> policies_sound e s"
proof (induction rule: db_reachable.induct)
  case start
  then show ?case by (simp add: policies_sound_def versions_def empty_db_def numbered_def)
next
  case (step s t)
  from record_step [OF step.hyps(2)] show ?case
  proof (elim disjE exE conjE)
    assume "adds plain_kinds s t"
    then show ?thesis by (rule policies_adds [OF _ _ _ step.IH]) simp_all
  next
    fix ow ev assume "t = snd (save_event ow ev s)"
    then show ?thesis
      using policies_adds [OF rel_snd [OF save_event_adds] _ _ step.IH] by simp
  next
    fix now ow p assume t: "t = snd (append_policy e now ow p s)"
    then show ?thesis
      using append_policy_state [of e now ow p s] append_policy_sound_tx [OF assms step.IH] step.IH
      by auto
  next
    fix ow r tr assume t: "t = snd (swap_head e ow r tr s)" and v: "vetted e ow r tr s"
    obtain x t' where run: "swap_head e ow r tr s = (x, t')" by (cases "swap_head e ow r tr s")
    show ?thesis
    proof (cases x)
      case (Inl y)
      then show ?thesis using atomicD [OF swap_head_atomic run [unfolded Inl]] t run step.IH by simp
    next
      case (Inr u)
      then show ?thesis using swap_head_sound [OF assms step.IH v run [unfolded Inr]] t run by simp
    qed
  qed
qed

section \<open>Records never change, heads never go back\<close>

interpretation gr: effect_order log.grows
  by unfold_locales (blast intro: log.grows_refl log.grows_trans)+

lemma grows_frame: "keeps db_records m \<Longrightarrow> relates log.grows m"
  by (erule keeps_relates) (simp add: log.grows_def record_at_rows)

lemma append_grows: "relates log.grows (append_record ow k i v p)"
  unfolding append_record_at by (rule log.app_grows)

lemma adds_grows: "adds ks s t \<Longrightarrow> log.grows s t"
  by (simp add: log.grows_def adds_keeps)

lemma policy_methods_grow:
  "relates log.grows (append_policy e now ow p)" "relates log.grows (swap_head e ow r t)"
proof -
  show "relates log.grows (append_policy e now ow p)"
    unfolding append_policy_def append_policy_tx_def Let_def
    by (intro gr.rel_rules gr.rel_conflict append_grows grows_frame keeps_query insert_frames)
  show "relates log.grows (swap_head e ow r t)"
    unfolding swap_head_def by (intro gr.rel_rules append_grows grows_frame table_frames)
qed

lemma step_grows_log: "db_step e s t \<Longrightarrow> log.grows s t"
proof (drule record_step, elim disjE exE conjE)
  assume "adds plain_kinds s t" then show ?thesis by (rule adds_grows)
qed (simp_all add: adds_grows [OF rel_snd [OF save_event_adds]]
    rel_snd [OF policy_methods_grow(1)] rel_snd [OF policy_methods_grow(2)])

lemma steps_grow_log: "(db_step e)\<^sup>*\<^sup>* s t \<Longrightarrow> log.grows s t"
  by (induction rule: rtranclp_induct) (auto intro: gr.R_refl gr.R_trans step_grows_log)

definition heads_le :: "head_row list \<Rightarrow> head_row list \<Rightarrow> bool" where
  "heads_le hs ks = (\<forall>h \<in> set hs. \<exists>k \<in> set ks. head_key k = head_key h \<and> hd_sequence h \<le> hd_sequence k)"

definition heads_grow :: "db \<Rightarrow> db \<Rightarrow> bool" where
  "heads_grow s t = heads_le (db_heads s) (db_heads t)"

lemma heads_le_refl: "heads_le hs hs"
  and heads_le_append: "heads_le hs (hs @ ks)"
  by (auto simp: heads_le_def)

lemma heads_le_trans: "heads_le hs ks \<Longrightarrow> heads_le ks ls \<Longrightarrow> heads_le hs ls"
  unfolding heads_le_def by (metis order_trans)

interpretation he: effect_order heads_grow
  by unfold_locales (auto simp: heads_grow_def heads_le_refl intro: heads_le_trans)

lemma heads_frame: "keeps db_heads m \<Longrightarrow> relates heads_grow m"
  by (erule keeps_relates) (simp add: heads_grow_def heads_le_refl)

lemma insert_head_grow: "relates heads_grow (insert_head h)"
  by (rule relatesI)
    (simp add: insert_head_def on_table_def insert_row_def heads_grow_def heads_le_refl
      heads_le_append)

lemma append_policy_heads: "relates heads_grow (append_policy e now ow p)"
  unfolding append_policy_def append_policy_tx_def Let_def
  by (intro he.rel_rules he.rel_conflict insert_head_grow heads_frame append_frames keeps_query)

lemma heads_le_swap:
  "heads_le hs (upd_where (at_head ow r (n - 1)) (\<lambda>h. h\<lparr> hd_sequence := n \<rparr>) hs)"
  unfolding heads_le_def
proof
  fix h assume h: "h \<in> set hs"
  let ?h = "if at_head ow r (n - 1) h then h\<lparr> hd_sequence := n \<rparr> else h"
  have "?h \<in> set (upd_where (at_head ow r (n - 1)) (\<lambda>h. h\<lparr> hd_sequence := n \<rparr>) hs)"
    using h by (simp add: set_upd_where)
  moreover have "head_key ?h = head_key h" "hd_sequence h \<le> hd_sequence ?h"
    by (auto simp: head_key_def at_head_def)
  ultimately show "\<exists>k \<in> set (upd_where (at_head ow r (n - 1)) (\<lambda>h. h\<lparr> hd_sequence := n \<rparr>) hs).
     head_key k = head_key h \<and> hd_sequence h \<le> hd_sequence k" by blast
qed

lemma swap_head_heads: "relates heads_grow (swap_head e ow r tr)"
proof -
  have sw: "relates heads_grow (on_heads (update_rows (at_head ow r (pt_sequence tr - 1))
      (\<lambda>h. h\<lparr> hd_sequence := pt_sequence tr \<rparr>)))"
    by (rule relatesI) (simp add: on_table_def update_rows_def heads_grow_def heads_le_swap)
  show ?thesis
    unfolding swap_head_def
    by (intro he.rel_rules sw [unfolded at_head_def [abs_def]] heads_frame [OF append_frames(3)])
qed

lemma step_heads: "db_step e s t \<Longrightarrow> heads_grow s t"
proof (drule record_step, elim disjE exE conjE)
  assume "adds plain_kinds s t" then show ?thesis by (simp add: adds_def heads_grow_def heads_le_refl)
qed (simp_all add: rel_snd [OF heads_frame [OF save_event_frames(3)]]
    rel_snd [OF append_policy_heads] rel_snd [OF swap_head_heads])

lemma steps_heads: "(db_step e)\<^sup>*\<^sup>* s t \<Longrightarrow> heads_grow s t"
  by (induction rule: rtranclp_induct) (auto intro: he.R_refl he.R_trans step_heads)

section \<open>The guarantees\<close>

text \<open>
  C14. Records are immutable: what a version of a record holds is what every later
  state holds for it, whatever operations ran in between.
\<close>

theorem records_immutable:
  assumes "find_record ow kind i v s = Some p" and "(db_step e)\<^sup>*\<^sup>* s t"
  shows "find_record ow kind i v t = Some p"
  using steps_grow_log [OF assms(2)] assms(1) by (simp add: find_record_at log.grows_def)

lemma numbered_filter:
  assumes "numbered vs"
  shows "vs = [1..int (length vs)]" "sorted vs"
proof -
  have "map (\<lambda>n. int n + 1) [0..<m] = [1..int m]" for m
    by (induction m) (simp_all add: upto_rec2)
  then show "vs = [1..int (length vs)]" using assms unfolding numbered_def by metis
  then show "sorted vs" by (metis sorted_upto)
qed

lemma filter_upto: "0 \<le> a \<Longrightarrow> filter (\<lambda>v. a < v) [1..n] = [a + 1..n]" for a :: int
  by (rule sorted_distinct_set_unique) (auto simp: sorted_wrt_filter)

lemma numbered_after:
  assumes "numbered vs" and "0 \<le> a"
  shows "filter (\<lambda>v. a < v) vs = [a + 1..int (length vs)]"
proof -
  have "filter (\<lambda>v. a < v) vs = filter (\<lambda>v. a < v) [1..int (length vs)]"
    using numbered_filter(1) [OF assms(1)] by (rule arg_cong)
  then show ?thesis using filter_upto [OF assms(2)] by simp
qed

lemma events_run:
  "events ow run after s = (case latest ow KRun run s of
     Inl x \<Rightarrow> (Inl x, s)
   | Inr _ \<Rightarrow> if 0 \<le> after \<and> after \<le> 10000
              then mapM (\<lambda>p. liftM (as_event p)) (event_page ow run after s) s
              else (Inl (DomainError INVALID 422), s))"
  by (cases "latest ow KRun run s")
    (simp_all add: events_def thenM_run exec_def bindM_run guardM_run del: liftM_run)

lemma mapM_events:
  "mapM (\<lambda>p. liftM (as_event p)) ps s = (Inr es, t) \<Longrightarrow> t = s \<and> ps = map PlEvent es"
proof (induction ps arbitrary: es)
  case Nil
  then show ?case by simp
next
  case (Cons p ps)
  obtain ev es' where ev: "as_event p = Inr ev" "es = ev # es'"
    and rest: "mapM (\<lambda>p. liftM (as_event p)) ps s = (Inr es', t)"
    using Cons.prems unfolding mapM.simps bindM_ok_iff liftM_run ret_run by blast
  have "p = PlEvent ev" using ev(1) by (cases p) (simp_all add: as_event_def)
  then show ?case using Cons.IH [OF rest] ev(2) by simp
qed

lemma map_filter_rows: "map rw_version (filter (\<lambda>r. P r \<and> after < rw_version r) rows)
    = filter (\<lambda>v. after < v) (map rw_version (filter P rows))"
  by (induction rows) auto

lemma event_page_rows:
  assumes "events_sound s"
  shows "\<exists>rows. event_page ow run after s = map rw_payload rows
    \<and> set rows \<subseteq> {r \<in> set (db_records s). rw_owner r = ow \<and> rw_kind r = KEvent \<and> rw_id r = run}
    \<and> map rw_version rows = take 1000 (filter (\<lambda>v. after < v) (versions ow KEvent run s))"
proof -
  let ?rows = "filter (\<lambda>r. (rw_owner r = ow \<and> rw_kind r = KEvent \<and> rw_id r = run)
     \<and> after < rw_version r) (db_records s)"
  have v: "map rw_version ?rows = filter (\<lambda>v. after < v) (versions ow KEvent run s)"
    unfolding versions_def by (rule map_filter_rows)
  have "sorted (versions ow KEvent run s)"
    using assms numbered_filter(2) by (simp add: events_sound_def)
  then have "sorted (map rw_version ?rows)" unfolding v by (rule sorted_wrt_filter)
  then have "sort_key rw_version ?rows = ?rows" by (rule sort_key_id_if_sorted)
  then have "event_page ow run after s = map rw_payload (take 1000 ?rows)"
    unfolding event_page_def by (simp add: conj_assoc)
  moreover have "map rw_version (take 1000 ?rows) = take 1000 (filter (\<lambda>v. after < v) (versions ow KEvent run s))"
    using v by (metis take_map)
  moreover have "set (take 1000 ?rows)
      \<subseteq> {r \<in> set (db_records s). rw_owner r = ow \<and> rw_kind r = KEvent \<and> rw_id r = run}"
    using set_take_subset by fastforce
  ultimately show ?thesis by blast
qed

lemma event_rows_read:
  "map PlEvent es = map rw_payload rows \<Longrightarrow> (\<And>r. r \<in> set rows \<Longrightarrow> event_row r \<and> rw_id r = run)
   \<Longrightarrow> map ev_sequence es = map rw_version rows \<and> list_all (\<lambda>ev. ev_run_id ev = run) es"
proof (induction es arbitrary: rows)
  case (Cons ev es)
  then obtain r rs where r: "rows = r # rs" "rw_payload r = PlEvent ev" "map PlEvent es = map rw_payload rs"
    by (cases rows) auto
  have "event_row r \<and> rw_id r = run" using Cons.prems(2) r(1) by simp
  then have "ev_sequence ev = rw_version r \<and> ev_run_id ev = run" using r(2) by (simp add: event_row_def)
  then show ?case using Cons.IH [OF r(3)] Cons.prems(2) r(1) by simp
qed simp

text \<open>
  C15. Run events are contiguous.  In a reachable database the events returned after
  a cursor are exactly those numbered cursor+1, cursor+2, ... in order, up to the
  last one stored or to a page of 1000, and all belong to the run.
\<close>

theorem events_contiguous:
  assumes "db_reachable e s" and "0 \<le> after" and "events ow run after s = (Inr es, t)"
  shows "map ev_sequence es
      = take 1000 [after + 1..int (length (versions ow KEvent run s))]
    \<and> list_all (\<lambda>ev. ev_run_id ev = run) es \<and> t = s"
proof -
  have sound: "events_sound s" by (rule events_sound_reachable [OF assms(1)])
  have page: "mapM (\<lambda>p. liftM (as_event p)) (event_page ow run after s) s = (Inr es, t)"
    using assms(3) by (simp add: events_run split: sum.splits if_splits del: liftM_run)
  have es: "event_page ow run after s = map PlEvent es" and t: "t = s"
    using mapM_events [OF page] by simp_all
  obtain rows where rows: "map PlEvent es = map rw_payload rows"
    "set rows \<subseteq> {r \<in> set (db_records s). rw_owner r = ow \<and> rw_kind r = KEvent \<and> rw_id r = run}"
    "map rw_version rows = take 1000 (filter (\<lambda>v. after < v) (versions ow KEvent run s))"
    using event_page_rows [OF sound, of ow run after] unfolding es by (elim exE conjE) (rule that)
  have row: "event_row r \<and> rw_id r = run" if "r \<in> set rows" for r
    using rows(2) that sound by (auto simp: events_sound_def)
  have seq: "map ev_sequence es = map rw_version rows \<and> list_all (\<lambda>ev. ev_run_id ev = run) es"
    by (rule event_rows_read [OF rows(1)]) (use row in auto)
  have num: "numbered (versions ow KEvent run s)" using sound by (simp add: events_sound_def)
  have "filter (\<lambda>v. after < v) (versions ow KEvent run s)
      = [after + 1..int (length (versions ow KEvent run s))]"
    by (rule numbered_after [OF num assms(2)])
  then have "map ev_sequence es = take 1000 [after + 1..int (length (versions ow KEvent run s))]"
    using seq rows(3) by simp
  then show ?thesis using seq t by simp
qed

lemma policy_head:
  assumes "policies_sound e s" and "find_record ow KPolicy (vr_id r) (vr_version r) s = Some q"
  obtains h p t where "head_rows ow r s = [h]" "q = PlPolicy p" "ep_id p = vr_id r"
    "ep_version p = vr_version r"
    "hd_sequence h = int (length (versions ow KTransition (state_id e r) s))"
    "find_record ow KTransition (state_id e r) (hd_sequence h) s = Some (PlTransition t)"
    "pt_policy t = r" "pt_sequence t = hd_sequence h"
    "pt_status t = PsSandboxEnabled \<longrightarrow> admitted e ow r t s"
proof -
  have "vr_version r \<in> set (versions ow KPolicy (vr_id r) s)"
    using assms(2) record_at_version [of s ow KPolicy "vr_id r" "vr_version r"]
    by (simp add: find_record_at)
  then have "(ow, vr_id r, vr_version r) \<in> head_key ` set (db_heads s)"
    using assms(1) unfolding policies_sound_def by blast
  then obtain h where h: "h \<in> set (db_heads s)" "head_key h = (ow, vr_id r, vr_version r)" by auto
  note hr = head_ref [OF h(2)]
  have hs: "head_sound e s h" and d: "distinct (map head_key (db_heads s))"
    using assms(1) h(1) by (simp_all add: policies_sound_def)
  have rows: "head_rows ow r s = [h]"
    using filter_key [OF d h(1)] h(2) by (simp add: head_rows_def)
  let ?vs = "versions ow KTransition (state_id e r) s"
  have num: "numbered ?vs" "hd_sequence h = int (length ?vs)" "1 \<le> hd_sequence h"
    using hs hr by (auto simp: head_sound_def Let_def)
  then have "hd_sequence h \<in> set ?vs" using numbered_in [OF num(1)] by simp
  then have "transition_sound e s ow r (hd_sequence h)"
    using hs hr by (auto simp: head_sound_def Let_def)
  moreover obtain p where "q = PlPolicy p" "ep_id p = vr_id r" "ep_version p = vr_version r"
    using hs hr assms(2) by (auto simp: head_sound_def Let_def find_record_at)
  ultimately show ?thesis
    using that rows num(2) unfolding transition_sound_def find_record_at by blast
qed


lemma swap_head_stale:
  assumes d: "distinct (map head_key (db_heads s))" and h: "h \<in> set (db_heads s)"
    "head_key h = (ow, vr_id r, vr_version r)" "hd_sequence h \<noteq> pt_sequence tr - 1"
  shows "swap_head e ow r tr s = (Inl (DomainError CONFLICT 409), s)"
proof -
  have "\<not> at_head ow r (pt_sequence tr - 1) k" if "k \<in> set (db_heads s)" for k
    using key_unique [OF d that h(1)] h by (auto simp: at_head_def)
  then have "count_where (at_head ow r (pt_sequence tr - 1)) (db_heads s) = 0"
    by (simp add: count_where_0)
  then show ?thesis
    by (simp add: swap_head_def transact_def thenM_run bindM_run on_table_def update_rows_def
        guardM_run at_head_def [abs_def])
qed


text \<open>What \<open>transition\<close> hands to its transaction is vetted.\<close>

lemma next_transition_vetted:
  assumes "policy e ow r s = Inr v" and "next_transition e now now' ow r q v s = Inr t"
  shows "vetted e ow r t s"
proof -
  have p: "find_record ow KPolicy (vr_id r) (vr_version r) s = Some (PlPolicy (vw_policy v))"
    using assms(1)
    by (auto simp: policy_def read_record_def rbind_Inr_iff as_policy_def split: option.splits payload.splits)
  show ?thesis
  proof (cases "tq_status q = PsSandboxEnabled")
    case True
    then obtain a adm where a: "tq_admission_id q = Some a"
      "find_record ow KAdmission a 1 s = Some (PlAdmission adm)"
      "validate_admission (env_digest e) ow (vw_policy v) adm now (env_offline e) = Inr ()"
      "t = \<lparr> pt_policy = r, pt_sequence = tq_expected_sequence q + 1, pt_status = tq_status q,
          pt_admission_id = tq_admission_id q, pt_actor_id = ow, pt_occurred_at = now' \<rparr>"
      using assms(2)
      by (auto simp: next_transition_def rbind_Inr_iff read_record_def as_admission_def
          split: option.splits if_splits payload.splits)
    then show ?thesis using p True unfolding vetted_def admitted_def by auto
  next
    case False
    then show ?thesis
      using assms(2) by (auto simp: next_transition_def rbind_Inr_iff vetted_def)
  qed
qed

section \<open>A concrete run\<close>

text \<open>A policy is created, its admission stored, and the sandbox enabled; a run gets two events.\<close>

definition ex_created :: db where
  "ex_created = snd (append_policy ex_env 0 ''o'' ex_policy empty_db)"

definition ex_admitted :: db where
  "ex_admitted = snd (transact (append_record ''o'' KAdmission ''adm'' 1 (PlAdmission ex_admission)) ex_created)"

definition ex_enable :: policy_transition where
  "ex_enable = \<lparr> pt_policy = ex_ref, pt_sequence = 2, pt_status = PsSandboxEnabled,
     pt_admission_id = Some ''adm'', pt_actor_id = ''o'', pt_occurred_at = 5 \<rparr>"

definition ex_disable :: policy_transition where
  "ex_disable = \<lparr> pt_policy = ex_ref, pt_sequence = 2, pt_status = PsDisabled,
     pt_admission_id = None, pt_actor_id = ''o'', pt_occurred_at = 6 \<rparr>"

definition ex_enabled :: db where
  "ex_enabled = snd (swap_head ex_env ''o'' ex_ref ex_enable ex_admitted)"

lemma ex_inj: "inj (env_sha ex_env)"
  by (simp add: ex_env_def inj_on_def)

lemma ex_records:
  "find_record ''o'' KPolicy ''pol'' 1 ex_admitted = Some (PlPolicy ex_policy)"
  "find_record ''o'' KAdmission ''adm'' 1 ex_admitted = Some (PlAdmission ex_admission)"
  "fst (swap_head ex_env ''o'' ex_ref ex_enable ex_admitted) = Inr ()"
  by code_simp+

lemma ex_vetted: "vetted ex_env ''o'' ex_ref ex_enable ex_admitted"
proof -
  have "env_digest ex_env = ep_id" "env_offline ex_env = True" by (auto simp: ex_env_def)
  moreover have "validate_admission ep_id ''o'' ex_policy ex_admission 5 True = Inr ()" by code_simp
  ultimately have "admitted ex_env ''o'' ex_ref ex_enable ex_admitted"
    unfolding admitted_def using ex_records(1,2)
    by (intro exI [of _ ex_policy] exI [of _ "''adm''"] exI [of _ ex_admission] exI [of _ 5])
      (simp add: ex_ref_def ex_enable_def)
  then show ?thesis by (simp add: vetted_def ex_enable_def)
qed

lemma ex_policy_reachable:
  "db_reachable ex_env ex_created" "db_reachable ex_env ex_admitted" "db_reachable ex_env ex_enabled"
proof -
  show c: "db_reachable ex_env ex_created"
    unfolding ex_created_def by (rule db_reachable.step [OF db_reachable.start db_step.policy])
  show a: "db_reachable ex_env ex_admitted"
    unfolding ex_admitted_def
    by (rule db_reachable.step [OF c db_step.append]) (simp_all add: plain_kind_def)
  show "db_reachable ex_env ex_enabled"
    unfolding ex_enabled_def by (rule db_reachable.step [OF a db_step.swap [OF ex_vetted]])
qed

lemma ex_enabled_steps: "(db_step ex_env)\<^sup>*\<^sup>* ex_admitted ex_enabled"
  unfolding ex_enabled_def by (intro r_into_rtranclp db_step.swap ex_vetted)

theorem records_immutable_witness:
  "find_record ''o'' KPolicy ''pol'' 1 ex_enabled = Some (PlPolicy ex_policy)"
  by (rule records_immutable [OF ex_records(1) ex_enabled_steps])



definition ex_events :: db where
  "ex_events =
     (let run = \<lparr> rn_id = ''run'', rn_policy = ex_ref, rn_status = RsRunning, rn_created_at = 0,
                  rn_attempt_ids = [], rn_output_reference = None,
                  rn_quality = QUntestedProvisional \<rparr>;
          ev = (\<lambda>n. \<lparr> ev_run_id = ''run'', ev_sequence = n, ev_body = EvStatus run \<rparr>) in
      snd (save_event ''o'' (ev 2) (snd (save_event ''o'' (ev 1)
        (snd (transact (append_record ''o'' KRun ''run'' 1 (PlRun run)) empty_db))))))"

lemma ex_events_reachable: "db_reachable ex_env ex_events"
  unfolding ex_events_def Let_def
  by (intro db_reachable.step [OF db_reachable.step [OF db_reachable.step [OF db_reachable.start
        db_step.append] db_step.event] db_step.event]) (simp_all add: plain_kind_def)

lemma ex_events_read: "map_sum id (map ev_sequence) (fst (events ''o'' ''run'' 1 ex_events)) = Inr [2]"
  by code_simp

theorem events_contiguous_witness:
  "\<exists>es. events ''o'' ''run'' 1 ex_events = (Inr es, ex_events)
     \<and> map ev_sequence es = take 1000 [2..int (length (versions ''o'' KEvent ''run'' ex_events))]
     \<and> es \<noteq> []"
proof -
  obtain es t where run: "events ''o'' ''run'' 1 ex_events = (Inr es, t)"
    and es: "map ev_sequence es = [2]"
    using ex_events_read by (cases "events ''o'' ''run'' 1 ex_events") (auto split: sum.splits
        simp: map_sum_def)
  show ?thesis
    using events_contiguous [OF ex_events_reachable _ run] run es by auto
qed

end
