(* ===== verification/Health.thy ===== *)
theory Health
  imports Storage_Steps
begin

text \<open>
  \<open>gateway/health.py\<close>: the circuit of a deployment, per tenant, configuration and
  catalog.  \<open>acquire\<close> admits a request unless the circuit is open or a recovery
  probe is out; \<open>observe\<close> records what happened; \<open>unavailable\<close> lists the
  configurations to leave aside.

  The row refines a three-state circuit breaker: closed with a count of consecutive
  provider failures, tripped until a time, or probing until a time.
\<close>

section \<open>Operations\<close>

definition health_row_of :: "string \<Rightarrow> string \<Rightarrow> string \<Rightarrow> health_row \<Rightarrow> bool" where
  "health_row_of tenant cfg cat r = (health_key r = (tenant, cfg, cat))"

definition unavailable :: "string \<Rightarrow> string \<Rightarrow> int \<Rightarrow> db \<Rightarrow> string list" where
  "unavailable tenant cat now s = map hl_configuration_id
     (filter (\<lambda>r. hl_owner r = tenant \<and> hl_catalog_id r = cat
        \<and> (now < hl_open_until r \<or> now < hl_probe_until r)) (db_health s))"

definition fresh_health :: "string \<Rightarrow> string \<Rightarrow> string \<Rightarrow> int \<Rightarrow> health_row" where
  "fresh_health tenant cfg cat now = \<lparr> hl_owner = tenant, hl_configuration_id = cfg,
     hl_catalog_id = cat, hl_failures = 0, hl_successes = 0, hl_total = 0, hl_timeouts = 0,
     hl_latency_total_ms = 0, hl_open_until = 0, hl_probe_until = 0, hl_updated_at = now \<rparr>"

definition admits :: "int \<Rightarrow> health_row \<Rightarrow> bool" where
  "admits now r = (hl_open_until r \<le> now \<and> hl_probe_until r \<le> now)"

definition start_probe :: "int \<Rightarrow> health_row \<Rightarrow> health_row" where
  "start_probe now r = r\<lparr> hl_probe_until :=
     (if 0 < hl_open_until r then now + micros 120 else hl_probe_until r) \<rparr>"

definition acquire :: "string \<Rightarrow> string \<Rightarrow> string \<Rightarrow> int \<Rightarrow> (db, bool) op" where
  "acquire tenant cfg cat now = transact
     (thenM (on_health (upsert_row health_key (fresh_health tenant cfg cat now)))
     (bindM (on_health (update_rows (\<lambda>r. health_row_of tenant cfg cat r \<and> admits now r)
               (start_probe now)))
       (\<lambda>n. ret (n = 1))))"

definition unhealthy :: "failure_kind option \<Rightarrow> bool" where
  "unhealthy failure = (failure \<in> {Some FkProviderFailure, Some FkRateLimit, Some FkTimeout})"

definition observed :: "circuit_policy \<Rightarrow> failure_kind option \<Rightarrow> int \<Rightarrow> int \<Rightarrow> health_row \<Rightarrow> health_row" where
  "observed p failure latency now r = r\<lparr>
     hl_total := hl_total r + 1,
     hl_successes := hl_successes r + (if failure = None then 1 else 0),
     hl_timeouts := hl_timeouts r + (if failure = Some FkTimeout then 1 else 0),
     hl_latency_total_ms := hl_latency_total_ms r + latency,
     hl_open_until := (if unhealthy failure \<and> cp_failures p \<le> hl_failures r + 1
                       then now + micros (cp_cooldown_seconds p) else 0),
     hl_failures := (if unhealthy failure then hl_failures r + 1 else 0),
     hl_probe_until := 0, hl_updated_at := now \<rparr>"

definition observe :: "string \<Rightarrow> string \<Rightarrow> string \<Rightarrow> circuit_policy \<Rightarrow> failure_kind option \<Rightarrow> int \<Rightarrow> int
    \<Rightarrow> (db, unit) op" where
  "observe tenant cfg cat p failure latency now = exec (transact
     (on_health (update_rows (health_row_of tenant cfg cat) (observed p failure latency now))))"

section \<open>The circuit breaker it implements\<close>

datatype circuit = Closed nat | Tripped nat int | Probing nat int

text \<open>The abstract machine: whether a request is admitted, and the state after it.\<close>

definition circuit_admit :: "int \<Rightarrow> circuit \<Rightarrow> bool \<times> circuit" where
  "circuit_admit now c = (case c of
     Closed n \<Rightarrow> (True, Closed n)
   | Tripped n until \<Rightarrow> if until \<le> now then (True, Probing n (now + micros 120)) else (False, c)
   | Probing n until \<Rightarrow> if until \<le> now then (True, Probing n (now + micros 120)) else (False, c))"

definition circuit_result :: "circuit_policy \<Rightarrow> failure_kind option \<Rightarrow> int \<Rightarrow> circuit \<Rightarrow> circuit" where
  "circuit_result p failure now c =
     (let n = (case c of Closed n \<Rightarrow> n | Tripped n _ \<Rightarrow> n | Probing n _ \<Rightarrow> n) in
      if unhealthy failure
      then if cp_failures p \<le> int n + 1 then Tripped (n + 1) (now + micros (cp_cooldown_seconds p))
           else Closed (n + 1)
      else Closed 0)"

text \<open>The row as a circuit: a circuit that has tripped and been probed is \<open>Probing\<close>.\<close>

definition circuit_of :: "health_row \<Rightarrow> circuit" where
  "circuit_of r = (let n = nat (hl_failures r) in
     if hl_open_until r = 0 then Closed n
     else if hl_probe_until r = 0 then Tripped n (hl_open_until r)
     else Probing n (hl_probe_until r))"

definition row_ok :: "health_row \<Rightarrow> bool" where
  "row_ok r = (0 \<le> hl_failures r \<and> 0 \<le> hl_open_until r \<and> 0 \<le> hl_probe_until r
     \<and> (hl_open_until r = 0 \<longrightarrow> hl_probe_until r = 0)
     \<and> (hl_probe_until r \<noteq> 0 \<longrightarrow> hl_open_until r \<le> hl_probe_until r))"

lemma fresh_ok: "row_ok (fresh_health t c k now)" "circuit_of (fresh_health t c k now) = Closed 0"
  by (simp_all add: row_ok_def fresh_health_def circuit_of_def)

lemma admit_refines:
  assumes "row_ok r" and "0 \<le> now"
  shows "fst (circuit_admit now (circuit_of r)) = admits now r"
    "admits now r \<Longrightarrow> circuit_of (start_probe now r) = snd (circuit_admit now (circuit_of r))"
    "admits now r \<Longrightarrow> row_ok (start_probe now r)"
  using assms
  by (auto simp: circuit_admit_def circuit_of_def admits_def start_probe_def row_ok_def Let_def)

lemma observe_refines:
  assumes "row_ok r" and "0 \<le> now" and "valid_circuit p"
  shows "circuit_of (observed p failure latency now r)
      = circuit_result p failure now (circuit_of r)"
    "row_ok (observed p failure latency now r)"
  using assms
  by (auto simp: circuit_of_def observed_def circuit_result_def row_ok_def valid_circuit_def Let_def
      nat_add_distrib)

section \<open>On the table\<close>

definition health_sound :: "db \<Rightarrow> bool" where
  "health_sound s = (distinct (map health_key (db_health s)) \<and> list_all row_ok (db_health s))"

definition find_health :: "string \<Rightarrow> string \<Rightarrow> string \<Rightarrow> db \<Rightarrow> health_row option" where
  "find_health tenant cfg cat s = scalar (filter (health_row_of tenant cfg cat) (db_health s))"

text \<open>A deployment nobody has used yet has a closed circuit.\<close>

definition circuit_at :: "string \<Rightarrow> string \<Rightarrow> string \<Rightarrow> db \<Rightarrow> circuit" where
  "circuit_at tenant cfg cat s =
     (case find_health tenant cfg cat s of None \<Rightarrow> Closed 0 | Some r \<Rightarrow> circuit_of r)"

lemma start_probe_key [simp]: "health_key (start_probe now r) = health_key r"
  "health_row_of t c k (start_probe now r) = health_row_of t c k r"
  by (simp_all add: start_probe_def health_key_def health_row_of_def)

lemma observed_key [simp]: "health_key (observed p f l now r) = health_key r"
  "health_row_of t c k (observed p f l now r) = health_row_of t c k r"
  by (simp_all add: observed_def health_key_def health_row_of_def)

lemma fresh_key [simp]: "health_key (fresh_health t c k now) = (t, c, k)"
  by (simp add: fresh_health_def health_key_def)

definition with_health :: "string \<Rightarrow> string \<Rightarrow> string \<Rightarrow> int \<Rightarrow> health_row list \<Rightarrow> health_row list" where
  "with_health t c k now rows =
     (if (t, c, k) \<in> health_key ` set rows then rows else rows @ [fresh_health t c k now])"

lemma acquire_run:
  "acquire t c k now s =
     (let rows = with_health t c k now (db_health s);
          p = (\<lambda>r. health_row_of t c k r \<and> admits now r) in
      (Inr (count_where p rows = 1), s\<lparr> db_health := upd_where p (start_probe now) rows \<rparr>))"
  by (simp add: acquire_def transact_def thenM_run bindM_run on_table_def upsert_row_def
      update_rows_def with_health_def Let_def)

lemma observe_run:
  "observe t c k p f l now s = (Inr (), s\<lparr> db_health :=
     upd_where (health_row_of t c k) (observed p f l now) (db_health s) \<rparr>)"
  by (simp add: observe_def exec_def transact_def thenM_run on_table_def update_rows_def)

lemma with_health_sound:
  "health_sound s \<Longrightarrow> health_sound (s\<lparr> db_health := with_health t c k now (db_health s) \<rparr>)"
  by (auto simp: health_sound_def with_health_def fresh_ok)

lemma find_upd:
  assumes "distinct (map health_key rows)" and "\<And>r. health_key (f r) = health_key r"
    and "\<And>r. p r \<Longrightarrow> health_key r = (t, c, k)"
  shows "scalar (filter (health_row_of t' c' k') (upd_where p f rows))
    = map_option (\<lambda>r. if p r then f r else r) (scalar (filter (health_row_of t' c' k') rows))"
proof -
  have "filter (health_row_of t' c' k') (upd_where p f rows)
      = map (\<lambda>r. if p r then f r else r) (filter (health_row_of t' c' k') rows)"
    using assms(2) by (induction rows) (auto simp: health_row_of_def)
  then show ?thesis by (cases "filter (health_row_of t' c' k') rows") simp_all
qed

lemma find_with:
  "scalar (filter (health_row_of t c k) (with_health t c k now rows))
     = Some (case scalar (filter (health_row_of t c k) rows) of None \<Rightarrow> fresh_health t c k now
             | Some r \<Rightarrow> r)"
proof (cases "(t, c, k) \<in> health_key ` set rows")
  case True
  then obtain r where "r \<in> set rows" "health_row_of t c k r" by (auto simp: health_row_of_def)
  then have "filter (health_row_of t c k) rows \<noteq> []" by (auto simp: filter_empty_conv)
  then show ?thesis using True by (cases "filter (health_row_of t c k) rows") (auto simp: with_health_def)
next
  case False
  then have "filter (health_row_of t c k) rows = []"
    by (simp add: filter_empty_conv health_row_of_def) (metis image_eqI)
  then show ?thesis using False by (simp add: with_health_def health_row_of_def)
qed

lemma find_with_other:
  "(t', c', k') \<noteq> (t, c, k) \<Longrightarrow> filter (health_row_of t' c' k') (with_health t c k now rows)
     = filter (health_row_of t' c' k') rows"
  by (auto simp: with_health_def health_row_of_def)

lemma upd_sound:
  assumes "health_sound s" and "\<And>r. health_key (f r) = health_key r"
    and "\<And>r. row_ok r \<Longrightarrow> p r \<Longrightarrow> row_ok (f r)"
  shows "health_sound (s\<lparr> db_health := upd_where p f (db_health s) \<rparr>)"
proof -
  have "map health_key (upd_where p f (db_health s)) = map health_key (db_health s)"
    by (rule map_upd_where) (rule assms(2))
  then show ?thesis using assms by (auto simp: health_sound_def list_all_iff set_upd_where)
qed

lemma find_health_ok: "health_sound s \<Longrightarrow> find_health t c k s = Some r \<Longrightarrow> row_ok r"
  unfolding find_health_def by (drule scalar_in) (simp add: health_sound_def list_all_iff)

lemma acquire_at:
  assumes "health_sound s" and "0 \<le> now"
  shows "\<exists>s'. acquire t c k now s = (Inr (fst (circuit_admit now (circuit_at t c k s))), s')
    \<and> circuit_at t c k s' = snd (circuit_admit now (circuit_at t c k s)) \<and> health_sound s'
    \<and> (\<forall>t' c' k'. (t', c', k') = (t, c, k) \<or> circuit_at t' c' k' s' = circuit_at t' c' k' s)"
proof -
  let ?rows = "with_health t c k now (db_health s)"
  let ?p = "\<lambda>r. health_row_of t c k r \<and> admits now r"
  let ?s = "s\<lparr> db_health := upd_where ?p (start_probe now) ?rows \<rparr>"
  have ws: "health_sound (s\<lparr> db_health := ?rows \<rparr>)" by (rule with_health_sound [OF assms(1)])
  then have d: "distinct (map health_key ?rows)" by (simp add: health_sound_def)
  define r where "r = (case find_health t c k s of None \<Rightarrow> fresh_health t c k now | Some r \<Rightarrow> r)"
  have ok: "row_ok r"
    using find_health_ok [OF assms(1)] by (auto simp: r_def fresh_ok split: option.split)
  have circ: "circuit_at t c k s = circuit_of r"
    by (auto simp: circuit_at_def r_def fresh_ok split: option.split)
  have found: "scalar (filter (health_row_of t c k) ?rows) = Some r"
    unfolding r_def find_health_def by (rule find_with)
  then have r: "r \<in> set ?rows" "health_row_of t c k r" using scalar_in [OF found] by simp_all
  have one: "count_where ?p ?rows = (if admits now r then 1 else 0)"
  proof (cases "admits now r")
    case True
    then have "count_where ?p ?rows \<noteq> 0" using r by (auto simp: count_where_0)
    moreover have "count_where ?p ?rows \<le> 1"
      by (rule count_where_le_1 [OF d, of _ "(t, c, k)"]) (simp add: health_row_of_def)
    ultimately show ?thesis using True by simp
  next
    case False
    have "q = r" if "q \<in> set ?rows" "health_row_of t c k q" for q
      using key_unique [OF d that(1) r(1)] that(2) r(2) by (simp add: health_row_of_def)
    then have "count_where ?p ?rows = 0" using False by (auto simp: count_where_0)
    then show ?thesis using False by simp
  qed
  have fnd: "scalar (filter (health_row_of t' c' k') (upd_where ?p (start_probe now) ?rows))
      = map_option (\<lambda>r. if ?p r then start_probe now r else r)
          (scalar (filter (health_row_of t' c' k') ?rows))" for t' c' k'
    by (rule find_upd [OF d]) (auto simp: health_row_of_def)
  have "circuit_at t c k ?s = snd (circuit_admit now (circuit_of r))"
    using admit_refines(1,2) [OF ok assms(2)] r(2)
    by (auto simp: circuit_at_def find_health_def fnd found circuit_admit_def split: circuit.splits if_splits)
  moreover have "circuit_at t' c' k' ?s = circuit_at t' c' k' s" if "(t', c', k') \<noteq> (t, c, k)" for t' c' k'
  proof -
    have "\<not> health_row_of t c k q" if "health_row_of t' c' k' q" for q
      using that \<open>(t', c', k') \<noteq> (t, c, k)\<close> by (auto simp: health_row_of_def)
    then have "map_option (\<lambda>r. if ?p r then start_probe now r else r) x = x"
      if "x = scalar (filter (health_row_of t' c' k') ?rows)" for x
    proof (cases x)
      case (Some q)
      then have "health_row_of t' c' k' q" using scalar_in that by metis
      then show ?thesis using Some \<open>\<And>q. health_row_of t' c' k' q \<Longrightarrow> \<not> health_row_of t c k q\<close> by simp
    qed simp
    then show ?thesis
      by (simp add: circuit_at_def find_health_def fnd find_with_other [OF that])
  qed
  moreover have "health_sound ?s"
    using upd_sound [OF ws, of "start_probe now" ?p] admit_refines(3) assms(2) by simp
  ultimately show ?thesis
    using admit_refines(1) [OF ok assms(2)]
    by (intro exI [of _ ?s]) (auto simp: acquire_run Let_def one circ)
qed

text \<open>
  C21. \<open>acquire\<close> implements the circuit breaker: it answers what the abstract machine
  answers for this deployment's circuit, moves that circuit as the machine does, and
  touches no other tenant's, configuration's or catalog's circuit.
\<close>

theorem acquire_refines_circuit:
  assumes "health_sound s" and "0 \<le> now"
  shows "\<exists>s'. acquire t c k now s = (Inr (fst (circuit_admit now (circuit_at t c k s))), s')
    \<and> circuit_at t c k s' = snd (circuit_admit now (circuit_at t c k s)) \<and> health_sound s'
    \<and> (\<forall>t' c' k'. (t', c', k') = (t, c, k) \<or> circuit_at t' c' k' s' = circuit_at t' c' k' s)"
  by (rule acquire_at [OF assms])

lemma observe_at:
  assumes "health_sound s" and "find_health t c k s = Some r" and "0 \<le> now" and "valid_circuit p"
  shows "find_health t c k (snd (observe t c k p f l now s)) = Some (observed p f l now r)"
    "health_sound (snd (observe t c k p f l now s))"
proof -
  have d: "distinct (map health_key (db_health s))" using assms(1) by (simp add: health_sound_def)
  have "health_row_of t c k r"
    using assms(2) unfolding find_health_def by (rule scalar_in [THEN conjunct2])
  then show "find_health t c k (snd (observe t c k p f l now s)) = Some (observed p f l now r)"
    using assms(2) find_upd [OF d, of "observed p f l now" "health_row_of t c k" t c k t c k]
    by (simp add: observe_run find_health_def health_row_of_def)
  show "health_sound (snd (observe t c k p f l now s))"
    using upd_sound [OF assms(1), of "observed p f l now" "health_row_of t c k"]
      observe_refines(2) [OF _ assms(3,4)] by (simp add: observe_run)
qed



section \<open>Observations\<close>

lemma observe_circuit:
  assumes "health_sound s" and "find_health t c k s \<noteq> None" and "0 \<le> now" and "valid_circuit p"
  shows "circuit_at t c k (snd (observe t c k p f l now s)) = circuit_result p f now (circuit_at t c k s)"
    "find_health t c k (snd (observe t c k p f l now s)) \<noteq> None"
    "health_sound (snd (observe t c k p f l now s))"
proof -
  obtain r where r: "find_health t c k s = Some r" using assms(2) by auto
  note at = observe_at [OF assms(1) r assms(3,4), of f l]
  show "find_health t c k (snd (observe t c k p f l now s)) \<noteq> None"
    "health_sound (snd (observe t c k p f l now s))" using at by simp_all
  show "circuit_at t c k (snd (observe t c k p f l now s)) = circuit_result p f now (circuit_at t c k s)"
    using at(1) r observe_refines(1) [OF find_health_ok [OF assms(1) r] assms(3,4)]
    by (simp add: circuit_at_def)
qed

text \<open>A run of observations \<open>(failure, latency, time)\<close> of one deployment, and the count it leaves.\<close>

definition observe_all :: "string \<Rightarrow> string \<Rightarrow> string \<Rightarrow> circuit_policy
    \<Rightarrow> (failure_kind option \<times> int \<times> int) list \<Rightarrow> db \<Rightarrow> db" where
  "observe_all t c k p obs s = foldl (\<lambda>s (f, l, now). snd (observe t c k p f l now s)) s obs"

primrec circuit_count :: "circuit \<Rightarrow> nat" where
  "circuit_count (Closed n) = n"
| "circuit_count (Tripped n _) = n"
| "circuit_count (Probing n _) = n"

lemma circuit_result_count:
  "circuit_result p f now c = (if unhealthy f
     then if cp_failures p \<le> int (circuit_count c) + 1
          then Tripped (circuit_count c + 1) (now + micros (cp_cooldown_seconds p))
          else Closed (circuit_count c + 1)
     else Closed 0)"
  by (cases c) (simp_all add: circuit_result_def)

lemma observe_all_circuit:
  assumes "health_sound s" and "find_health t c k s \<noteq> None" and "valid_circuit p"
    and "list_all (\<lambda>(f, l, now). unhealthy f \<and> 0 \<le> now) obs"
  shows "health_sound (observe_all t c k p obs s) \<and> find_health t c k (observe_all t c k p obs s) \<noteq> None
    \<and> circuit_count (circuit_at t c k (observe_all t c k p obs s))
        = circuit_count (circuit_at t c k s) + length obs
    \<and> (\<forall>f l now obs'. obs = obs' @ [(f, l, now)] \<and> cp_failures p \<le> int (length obs) \<longrightarrow>
        circuit_at t c k (observe_all t c k p obs s)
          = Tripped (circuit_count (circuit_at t c k s) + length obs)
              (now + micros (cp_cooldown_seconds p)))"
  using assms(4)
proof (induction obs rule: rev_induct)
  case Nil
  then show ?case using assms by (simp add: observe_all_def)
next
  case (snoc o1 obs)
  obtain f l now where o1: "o1 = (f, l, now)" by (cases o1) auto
  have u: "unhealthy f" "0 \<le> now" and "list_all (\<lambda>(f, l, now). unhealthy f \<and> 0 \<le> now) obs"
    using snoc.prems o1 by simp_all
  note ih = snoc.IH [OF this(3)]
  have "observe_all t c k p (obs @ [o1]) s = snd (observe t c k p f l now (observe_all t c k p obs s))"
    by (simp add: observe_all_def o1)
  then show ?case
    using observe_circuit [of "observe_all t c k p obs s" t c k now p f l] ih u assms(3)
    by (simp add: circuit_result_count o1)
qed


section \<open>A circuit at work\<close>

definition ex_circuit :: circuit_policy where
  "ex_circuit = \<lparr> cp_failures = 2, cp_cooldown_seconds = 30 \<rparr>"

definition ex_circuit_db :: db where
  "ex_circuit_db = empty_db\<lparr> db_health := [(fresh_health ''t'' ''c'' ''k'' 0)] \<rparr>"

definition ex_tripped_db :: db where
  "ex_tripped_db = empty_db\<lparr> db_health := [(fresh_health ''t'' ''c'' ''k'' 0)
     \<lparr> hl_failures := 2, hl_open_until := 30000000 \<rparr>] \<rparr>"

theorem acquire_refines_circuit_witness:
  "\<exists>s'. acquire ''t'' ''c'' ''k'' 40000000 ex_tripped_db = (Inr True, s')"
  using acquire_refines_circuit [of ex_tripped_db 40000000 "''t''" "''c''" "''k''"]
  by (auto simp: ex_tripped_db_def health_sound_def row_ok_def fresh_health_def circuit_at_def
      find_health_def health_row_of_def health_key_def circuit_of_def circuit_admit_def)



end
