(* ===== verification/Keys.thy ===== *)
theory Keys
  imports Budgets Record_Log
begin

text \<open>
  \<open>gateway/keys.py\<close>: issuing, authenticating, checking, charging and revoking
  application keys.  \<open>uuid4().hex\<close>, \<open>secrets.token_hex\<close> and the clock are arguments;
  \<open>kdf secret salt rounds\<close> stands for \<open>hashlib.pbkdf2_hmac("sha256", ...).hex()\<close>.
  A verifier row is written only after \<open>verifier_format\<close> accepted it, so
  \<open>int(iteration)\<close> reads a plain decimal numeral.
\<close>

section \<open>Operations\<close>

record key_random =
  kr_id :: string
  kr_prefix :: string
  kr_secret :: string
  kr_salt :: string

text \<open>The shapes \<open>uuid4().hex\<close>, \<open>token_hex(4)\<close>, \<open>token_hex(32)\<close> and \<open>token_hex(16)\<close> have.\<close>

definition hex_random :: "key_random \<Rightarrow> bool" where
  "hex_random r = (is_hex 32 (kr_id r) \<and> is_hex 8 (kr_prefix r) \<and> is_hex 64 (kr_secret r)
     \<and> is_hex 32 (kr_salt r))"

definition studio_identity :: "request_context \<Rightarrow> bool" where
  "studio_identity c = (cx_application_key c = None \<and> cx_principal_id c = cx_tenant_id c)"

definition new_key :: "int \<Rightarrow> key_random \<Rightarrow> request_context \<Rightarrow> int \<Rightarrow> scope list \<Rightarrow> string list
    \<Rightarrow> version_ref list \<Rightarrow> application_key" where
  "new_key now r c expires scopes aliases policies = \<lparr> ak_id = kr_id r,
     ak_tenant_id = cx_tenant_id c, ak_prefix = ''bbx_'' @ kr_prefix r, ak_scopes = scopes,
     ak_alias_ids = aliases, ak_workflow_policies = policies, ak_created_at = now,
     ak_expires_at = expires, ak_revoked_at = None \<rparr>"

definition raw_key :: "key_random \<Rightarrow> request_context \<Rightarrow> string" where
  "raw_key r c = (''bbx_'' @ kr_prefix r) @ ''.'' @ cx_tenant_id c @ ''.'' @ kr_id r @ ''.''
     @ kr_secret r"

definition verifier_text :: "(string \<Rightarrow> string \<Rightarrow> nat \<Rightarrow> string) \<Rightarrow> string \<Rightarrow> string \<Rightarrow> string" where
  "verifier_text kdf raw salt = ''pbkdf2_sha256:310000:'' @ salt @ '':'' @ kdf raw salt 310000"

definition issue :: "env \<Rightarrow> (string \<Rightarrow> string \<Rightarrow> nat \<Rightarrow> string) \<Rightarrow> unit res \<Rightarrow> int \<Rightarrow> key_random
    \<Rightarrow> request_context \<Rightarrow> int \<Rightarrow> scope list \<Rightarrow> string list \<Rightarrow> version_ref list \<Rightarrow> int
    \<Rightarrow> (db, application_key \<times> string) op" where
  "issue e kdf cancelled now r c expires scopes aliases policies cap =
     (let k = new_key now r c expires scopes aliases policies; raw = raw_key r c in
      thenM (liftM cancelled)
      (thenM (guardM (studio_identity c) (DomainError UNSUPPORTED 403))
      (thenM (forM aliases (\<lambda>a. exec (query (stored_alias (cx_tenant_id c) a))))
      (thenM (forM policies (\<lambda>p. exec (query (policy e (cx_tenant_id c) p))))
      (thenM (guardM (valid_key k) ValueError)
      (thenM (save_application_key (cx_tenant_id c) k (verifier_text kdf raw (kr_salt r)) (Some cap))
        (ret (k, raw))))))))"

fun split_dot :: "string \<Rightarrow> string list" where
  "split_dot [] = [[]]"
| "split_dot (c # cs) = (if c = CHR ''.'' then [] # split_dot cs
     else (case split_dot cs of w # ws \<Rightarrow> (c # w) # ws | [] \<Rightarrow> [[c]]))"

text \<open>
  The groups of the bearer pattern, whose parts cannot contain a dot:
  \<open>(bbx_[a-f0-9]{8})\.([A-Za-z0-9_-]{1,80})\.([a-f0-9]{32})\.([a-f0-9]{64})\<close>.
\<close>

definition bearer_parts :: "string \<Rightarrow> (string \<times> string \<times> string) option" where
  "bearer_parts b = (case split_dot b of
     [p, t, i, x] \<Rightarrow>
       if take 4 p = ''bbx_'' \<and> is_hex 8 (drop 4 p) \<and> 1 \<le> length t \<and> length t \<le> 80
          \<and> list_all is_word_char t \<and> is_hex 32 i \<and> is_hex 64 x then Some (p, t, i) else None
   | _ \<Rightarrow> None)"

definition decimal_value :: "string \<Rightarrow> nat" where
  "decimal_value ds = foldl (\<lambda>n c. 10 * n + (of_char c - 48)) 0 ds"

definition invalid_key :: "'a res" where
  "invalid_key = err UNSUPPORTED 401"

definition accept_key :: "(string \<Rightarrow> string \<Rightarrow> nat \<Rightarrow> string) \<Rightarrow> string \<Rightarrow> string \<Rightarrow> int
    \<Rightarrow> application_key \<Rightarrow> string \<Rightarrow> application_key res" where
  "accept_key kdf bearer prefix now k verifier = (case split_colon verifier of
     [_, rounds, salt, expected] \<Rightarrow>
       if kdf (take 512 bearer) salt (decimal_value rounds) \<noteq> expected then invalid_key
       else if ak_prefix k \<noteq> prefix \<or> ak_revoked_at k \<noteq> None
               \<or> \<not> (ak_created_at k \<le> now \<and> now < ak_expires_at k) then invalid_key
       else ok k
   | _ \<Rightarrow> Inl ValueError)"

definition authenticate :: "(string \<Rightarrow> string \<Rightarrow> nat \<Rightarrow> string) \<Rightarrow> string \<Rightarrow> int \<Rightarrow> db
    \<Rightarrow> application_key res" where
  "authenticate kdf bearer now s = (case bearer_parts bearer of
     None \<Rightarrow> invalid_key
   | Some (prefix, tenant, i) \<Rightarrow> (case key_record tenant i s of
       Inl (DomainError _ _) \<Rightarrow> invalid_key
     | Inl x \<Rightarrow> Inl x
     | Inr (k, verifier) \<Rightarrow> accept_key kdf bearer prefix now k verifier))"

definition check_key :: "request_context \<Rightarrow> scope \<Rightarrow> string option \<Rightarrow> int \<Rightarrow> db
    \<Rightarrow> application_key res" where
  "check_key c sc alias now s = (case cx_application_key c of
     None \<Rightarrow> err UNSUPPORTED 401
   | Some k \<Rightarrow> rbind (key_record (cx_tenant_id c) (ak_id k) s) (\<lambda>(fresh, _).
       rbind (authorize_application_key (cx_tenant_id c) fresh sc now alias None)
         (\<lambda>_. ok fresh)))"

definition rate_window :: "application_key \<Rightarrow> int \<Rightarrow> string" where
  "rate_window k now = ''rate-'' @ ak_id k @ ''-'' @ show_int (now div micros 60)"

definition open_window :: "int \<Rightarrow> string \<Rightarrow> string \<Rightarrow> (db, unit) op" where
  "open_window per_minute tenant window = catchM (provision_budget tenant window per_minute)
     (\<lambda>x. if x = IntegrityError then ret () else throw x)"

definition charge_key :: "int \<Rightarrow> int \<Rightarrow> int \<Rightarrow> request_context \<Rightarrow> int \<Rightarrow> scope \<Rightarrow> (db, unit) op" where
  "charge_key per_minute now now' c amount sc =
     bindM (query (check_key c sc None now)) (\<lambda>k.
     let tenant = cx_tenant_id c; window = rate_window k now'; i = cx_request_id c in
     thenM (open_window per_minute tenant window)
     (thenM (reserve tenant window (''rate-'' @ i) (''rate-'' @ i) 1)
       (reserve tenant (''key-'' @ ak_id k) (''key-'' @ i) (''key-'' @ i) amount)))"

definition revoke_issued :: "unit res \<Rightarrow> int \<Rightarrow> request_context \<Rightarrow> string \<Rightarrow> (db, application_key) op" where
  "revoke_issued cancelled now c i =
     thenM (liftM cancelled)
     (thenM (guardM (studio_identity c) (DomainError UNSUPPORTED 403))
       (revoke_key (cx_tenant_id c) i now))"


section \<open>The key tables\<close>

lemma keepsI: "(\<And>s. part (snd (m s)) = part s) \<Longrightarrow> keeps part m"
  by (simp add: keeps_def relates_def)

lemma keeps_Pair: "keeps part (Pair r)"
  by (rule keepsI) simp

lemma row_at:
  assumes "r \<in> set (db_records s)" and "record_key r = k"
  shows "\<exists>p. record_at s k = Some p"
proof -
  have "scalar (filter (\<lambda>r. record_key r = k) (db_records s)) \<noteq> None"
    using assms by (subst scalar_None) blast
  then show ?thesis by (auto simp: record_at_rows)
qed

lemma at_row:
  assumes "record_at s k = Some p"
  shows "\<exists>r \<in> set (db_records s). record_key r = k \<and> rw_payload r = p"
proof -
  obtain r where r: "scalar (filter (\<lambda>r. record_key r = k) (db_records s)) = Some r" "rw_payload r = p"
    using assms by (auto simp: record_at_rows)
  then show ?thesis using scalar_in [OF r(1)] by blast
qed

lemma latest_ok: "latest ow k i s = Inr (v, p) \<Longrightarrow> record_at s (ow, k, i, v) = Some p"
  by (auto simp: latest_def Let_def find_record_at split: list.splits option.splits)

lemma latest_above:
  assumes "record_at s (ow, k, i, v) = Some p"
  shows "\<exists>v' p'. latest ow k i s = Inr (v', p') \<and> v \<le> v' \<and> record_at s (ow, k, i, v') = Some p'"
proof -
  obtain r where r: "r \<in> set (db_records s)" "record_key r = (ow, k, i, v)"
    using at_row [OF assms] by blast
  then have v: "v \<in> set (versions ow k i s)" by (force simp: versions_def record_key_def)
  then have "sql_max (versions ow k i s) \<in> set (versions ow k i s)"
    by (intro sql_max_in) auto
  then obtain r' where r': "r' \<in> set (db_records s)"
    "record_key r' = (ow, k, i, sql_max (versions ow k i s))"
    by (auto simp: versions_def record_key_def)
  then obtain p' where "record_at s (ow, k, i, sql_max (versions ow k i s)) = Some p'"
    using row_at by blast
  moreover have "v \<le> sql_max (versions ow k i s)" using v by (rule sql_max_ge)
  moreover have "versions ow k i s \<noteq> []" using v by auto
  ultimately show ?thesis
    by (auto simp: latest_def Let_def find_record_at split: list.split)
qed

definition key_row_sound :: "(string \<times> string) set \<Rightarrow> rec_row \<Rightarrow> bool" where
  "key_row_sound vs r = (case rw_payload r of
     PlKey k \<Rightarrow> ak_id k = rw_id r \<and> ak_tenant_id k = rw_owner r
       \<and> (rw_version r = 1 \<or> 1 < rw_version r \<and> ak_revoked_at k \<noteq> None)
       \<and> (rw_owner r, rw_id r) \<in> vs
   | _ \<Rightarrow> False)"

definition key_rows :: "db \<Rightarrow> rec_row list" where
  "key_rows s = filter (\<lambda>r. rw_kind r = KKey) (db_records s)"

definition keys_sound :: "db \<Rightarrow> bool" where
  "keys_sound s = (distinct (map verifier_key (db_verifiers s))
     \<and> list_all (\<lambda>v. verifier_format (vf_verifier v)) (db_verifiers s)
     \<and> list_all (key_row_sound (verifier_key ` set (db_verifiers s))) (key_rows s))"

definition key_tables :: "db \<Rightarrow> rec_row list \<times> verifier_row list" where
  "key_tables s = (key_rows s, db_verifiers s)"

lemma keys_sound_tables: "key_tables s = key_tables t \<Longrightarrow> keys_sound s = keys_sound t"
  by (simp add: keys_sound_def key_tables_def)

lemma key_table_frames:
  "keeps key_tables (on_heads g)" "keeps key_tables (on_budgets h)"
  "keeps key_tables (on_reservations k)" "keeps key_tables (on_payloads m)"
  "keeps key_tables (on_requests n)" "keeps key_tables (on_queue q)"
  by (rule keeps_on_table, simp add: key_tables_def key_rows_def)+

lemma append_key_tables: "k \<noteq> KKey \<Longrightarrow> keeps key_tables (append_record ow k i v p)"
  unfolding append_record_at
  by (rule keepsI) (auto simp: append_at_run key_tables_def key_rows_def split: option.split)

lemmas key_frames_rules = keeps_Pair keeps_rules keeps_exec keeps_query key_table_frames append_key_tables

lemma insert_key_tables:
  "keeps key_tables (insert_payload pr)" "keeps key_tables (insert_head hr)"
  "keeps key_tables (insert_budget br)" "keeps key_tables (insert_request rr)"
  "keeps key_tables (insert_queue qr)" "keeps key_tables (insert_reservation sr)"
  by (simp_all add: insert_payload_def insert_head_def insert_budget_def insert_request_def
      insert_queue_def insert_reservation_def key_frames_rules)

lemma part_key_tables:
  "keeps key_tables (take_first u ks)" "keeps key_tables (register_in ow key i h)"
  "keeps key_tables (doubt_request ow i)" "keeps key_tables (doubt_entry kk)"
  "keeps key_tables (provision_in ow i cap)"
proof -
  show "keeps key_tables (take_first u ks)" by (induction ks) (auto intro!: key_frames_rules)
  show "keeps key_tables (register_in ow key i h)"
    by (auto simp: register_in_def intro!: key_frames_rules insert_key_tables split: option.split)
qed (simp_all add: doubt_request_def doubt_entry_def provision_in_def key_frames_rules insert_key_tables)

lemma method_key_tables:
  "keeps key_tables (save_event ow ev)" "keeps key_tables (append_policy e now ow p)"
  "keeps key_tables (swap_head e ow r tr)" "keeps key_tables (create_alias e ow al)"
  "keeps key_tables (provision_budget ow i cap)" "keeps key_tables (reserve ow b i rq amount)"
  "keeps key_tables (save_payload e ow pk i v ex)" "keeps key_tables (purge_expired_payloads now)"
  "keeps key_tables (register_request ow key i h)" "keeps key_tables (advance_request ow i x y)"
  by (simp_all add: save_event_def append_policy_def append_policy_tx_def Let_def swap_head_def
      create_alias_def provision_budget_def reserve_def hold_def save_payload_def
      purge_expired_payloads_def register_request_def register_with_def advance_request_def
      key_frames_rules insert_key_tables part_key_tables)

lemma queue_key_tables:
  "keeps key_tables (reconcile ow i actual)"
  "keeps key_tables (enqueue_runtime now c rq run h)" "keeps key_tables (claim_entry now)"
  "keeps key_tables (finish_runtime ow i u)"
  by (auto simp: reconcile_def reconcile_tx_def freeze_def settle_def enqueue_runtime_def
      register_with_def claim_entry_def finish_runtime_def split: option.split
      intro!: key_frames_rules insert_key_tables part_key_tables)

lemma other_key_tables:
  "keeps (\<lambda>s. s\<lparr> db_health := [] \<rparr>) m \<Longrightarrow> keeps key_tables m"
  "keeps (\<lambda>s. s\<lparr> db_planning := empty_plan_db \<rparr>) m' \<Longrightarrow> keeps key_tables m'"
proof -
  assume k: "keeps (\<lambda>s. s\<lparr> db_health := [] \<rparr>) m"
  show "keeps key_tables m"
    by (rule keepsI) (use arg_cong [OF keepsD [OF k], of key_tables] in \<open>simp add: key_tables_def key_rows_def\<close>)
next
  assume k: "keeps (\<lambda>s. s\<lparr> db_planning := empty_plan_db \<rparr>) m'"
  show "keeps key_tables m'"
    by (rule keepsI) (use arg_cong [OF keepsD [OF k], of key_tables] in \<open>simp add: key_tables_def key_rows_def\<close>)
qed

lemma key_step:
  assumes "db_step e s t"
  shows "key_tables t = key_tables s \<or> (\<exists>ow k v c. t = snd (save_application_key ow k v c s))
    \<or> (\<exists>ow i now. t = snd (revoke_key ow i now s))"
  using assms
proof cases
  case save_key then show ?thesis by blast
next
  case revoke then show ?thesis by blast
next
  case (append k ow i v p)
  then have "keeps key_tables (transact (append_record ow k i v p))" by (simp add: key_frames_rules)
  from keepsD [OF this, of s] show ?thesis using append by simp
next
  case (health m) then show ?thesis using keepsD [OF other_key_tables(1)] by blast
next
  case (planning m) then show ?thesis using keepsD [OF other_key_tables(2)] by blast
qed (simp_all add: keepsD [OF method_key_tables(1)] keepsD [OF method_key_tables(2)]
    keepsD [OF method_key_tables(3)] keepsD [OF method_key_tables(4)]
    keepsD [OF method_key_tables(5)] keepsD [OF method_key_tables(6)]
    keepsD [OF method_key_tables(7)] keepsD [OF method_key_tables(8)]
    keepsD [OF method_key_tables(9)] keepsD [OF method_key_tables(10)]
    keepsD [OF queue_key_tables(1)] keepsD [OF queue_key_tables(2)]
    keepsD [OF queue_key_tables(3)] keepsD [OF queue_key_tables(4)])


lemma save_key_ok:
  assumes "save_application_key ow k v c s = (Inr (), t)"
  shows "ak_tenant_id k = ow \<and> verifier_format v \<and> (ow, ak_id k) \<notin> verifier_key ` set (db_verifiers s)
    \<and> db_verifiers t = db_verifiers s @ [\<lparr> vf_owner = ow, vf_id = ak_id k, vf_verifier = v \<rparr>]
    \<and> record_at t (ow, KKey, ak_id k, 1) = Some (PlKey k)
    \<and> (db_records t = db_records s \<or> db_records t = db_records s @ [row_for (ow, KKey, ak_id k, 1) (PlKey k)])"
proof -
  let ?k = "(ow, KKey, ak_id k, 1)"
  let ?v = "\<lparr> vf_owner = ow, vf_id = ak_id k, vf_verifier = v \<rparr>"
  have guard: "ak_tenant_id k = ow" "verifier_format v"
    and run: "thenM (case c of None \<Rightarrow> ret () | Some c \<Rightarrow> provision_in ow (''key-'' @ ak_id k) c)
      (thenM (append_at ?k (PlKey k)) (insert_verifier ?v)) s = (Inr (), t)"
    using assms by (simp_all add: save_application_key_def guard_then append_record_at split: if_splits)
  obtain s1 where s1: "(case c of None \<Rightarrow> ret () | Some c \<Rightarrow> provision_in ow (''key-'' @ ak_id k) c) s = (Inr (), s1)"
    and run1: "thenM (append_at ?k (PlKey k)) (insert_verifier ?v) s1 = (Inr (), t)"
    using run by (auto simp: thenM_ok_iff)
  have part: "keeps (\<lambda>s. (db_records s, db_verifiers s)) (case c of None \<Rightarrow> ret ()
      | Some c \<Rightarrow> provision_in ow (''key-'' @ ak_id k) c)"
  proof -
    have "keeps (\<lambda>s. (db_records s, db_verifiers s)) (on_budgets f)" for f :: "budget_row list \<Rightarrow> unit res \<times> budget_row list"
      by (rule keeps_on_table) simp
    then show ?thesis
      by (auto simp: provision_in_def insert_budget_def intro!: keeps_Pair keeps_rules split: option.split)
  qed
  have same: "db_records s1 = db_records s" "db_verifiers s1 = db_verifiers s"
    using keeps_run [OF part s1] by simp_all
  obtain s2 where s2: "append_at ?k (PlKey k) s1 = (Inr (), s2)" and ins: "insert_verifier ?v s2 = (Inr (), t)"
    using run1 by (auto simp: thenM_ok_iff)
  have s2': "record_at s2 ?k = Some (PlKey k)" "db_verifiers s2 = db_verifiers s"
    "db_records s2 = db_records s \<or> db_records s2 = db_records s @ [row_for ?k (PlKey k)]"
    using s2 same by (auto simp: append_at_run record_at_rows scalar_append split: option.splits if_splits)
  have "(ow, ak_id k) \<notin> verifier_key ` set (db_verifiers s2)"
    and t: "t = s2\<lparr> db_verifiers := db_verifiers s2 @ [?v] \<rparr>"
    using ins by (auto simp: insert_verifier_def on_table_ok_iff verifier_key_def)
  then show ?thesis using guard s2' by (simp add: record_at_rows)
qed

lemma revoke_ok:
  assumes "revoke_key ow i now s = (Inr k', t)"
  obtains v k where "latest ow KKey i s = Inr (v, PlKey k)" and "ak_revoked_at k \<noteq> None"
      "k' = k" "t = s"
  | v k where "latest ow KKey i s = Inr (v, PlKey k)" and "k' = k\<lparr> ak_revoked_at := Some now \<rparr>"
      "append_at (ow, KKey, i, v + 1) (PlKey k') s = (Inr (), t)"
proof -
  obtain v raw where l: "latest ow KKey i s = Inr (v, raw)"
    and r: "bindM (liftM (as_key raw)) (\<lambda>k. if ak_revoked_at k \<noteq> None then ret k
       else (let k' = k\<lparr> ak_revoked_at := Some now \<rparr> in
         thenM (guardM (valid_key k') ValueError)
         (thenM (conflict_on_integrity (transact (append_record ow KKey i (v + 1) (PlKey k'))))
           (ret k')))) s = (Inr k', t)"
    using assms by (auto simp: revoke_key_def bindM_ok_iff query_ok_iff)
  obtain k where k: "raw = PlKey k"
    using r by (cases raw) (auto simp: as_key_def bindM_ok_iff)
  show ?thesis
  proof (cases "ak_revoked_at k = None")
    case True
    then show ?thesis
      using that(2) [of v k] r l k
      by (auto simp: as_key_def bindM_run Let_def guard_then thenM_ok_iff append_record_at
          split: if_splits)
  next
    case False
    then show ?thesis using that(1) [of v k] r l k by (auto simp: as_key_def bindM_run)
  qed
qed

lemma save_key_atomic: "atomic (save_application_key ow k v c)"
  unfolding save_application_key_def by (intro atomic_rules)

lemma revoke_atomic: "atomic (revoke_key ow i now)"
  unfolding atomic_def
proof (intro allI impI)
  fix s x t assume "revoke_key ow i now s = (Inl x, t)"
  then show "t = s"
    using atomicD [OF atomic_conflict [OF atomic_transact]]
    by (auto simp: revoke_key_def bindM_run thenM_run Let_def split: sum.splits prod.splits if_splits)
qed

lemma key_row_sound_mono: "vs \<subseteq> ws \<Longrightarrow> key_row_sound vs r \<Longrightarrow> key_row_sound ws r"
  by (auto simp: key_row_sound_def split: payload.splits)

lemma saved_key_sound: "preserves keys_sound (save_application_key ow k v c)"
proof (rule atomic_pres [OF save_key_atomic])
  fix s x t assume s: "keys_sound s" and "save_application_key ow k v c s = (Inr x, t)"
  then have run: "save_application_key ow k v c s = (Inr (), t)" by simp
  let ?vs = "verifier_key ` set (db_verifiers s)"
  note ok = save_key_ok [OF run]
  have vt: "verifier_key ` set (db_verifiers t) = insert (ow, ak_id k) ?vs"
    using ok by (auto simp: verifier_key_def)
  have "list_all (key_row_sound (insert (ow, ak_id k) ?vs)) (key_rows s)"
    using s key_row_sound_mono [of ?vs "insert (ow, ak_id k) ?vs"]
    by (auto simp: keys_sound_def list_all_iff)
  moreover have "key_row_sound (insert (ow, ak_id k) ?vs) (row_for (ow, KKey, ak_id k, 1) (PlKey k))"
    using ok by (simp add: key_row_sound_def)
  ultimately have "list_all (key_row_sound (insert (ow, ak_id k) ?vs)) (key_rows t)"
    using ok by (auto simp: key_rows_def)
  then show "keys_sound t"
    using s ok unfolding keys_sound_def vt by (simp add: verifier_key_def)
qed

lemma key_row_at:
  assumes "keys_sound s" and "record_at s (ow, KKey, i, v) = Some p"
  shows "\<exists>k. p = PlKey k \<and> ak_id k = i \<and> ak_tenant_id k = ow \<and> 1 \<le> v
    \<and> (v = 1 \<or> ak_revoked_at k \<noteq> None) \<and> (ow, i) \<in> verifier_key ` set (db_verifiers s)"
proof -
  obtain r where r: "r \<in> set (db_records s)" "record_key r = (ow, KKey, i, v)" "rw_payload r = p"
    using at_row [OF assms(2)] by blast
  then have "r \<in> set (key_rows s)" by (simp add: key_rows_def record_key_def)
  then have "key_row_sound (verifier_key ` set (db_verifiers s)) r"
    using assms(1) by (simp add: keys_sound_def list_all_iff)
  then show ?thesis using r by (auto simp: key_row_sound_def record_key_def split: payload.splits)
qed

lemma revoked_key_sound: "preserves keys_sound (revoke_key ow i now)"
proof (rule atomic_pres [OF revoke_atomic])
  fix s k' t assume s: "keys_sound s" and run: "revoke_key ow i now s = (Inr k', t)"
  show "keys_sound t"
  proof (rule revoke_ok [OF run])
    fix v k assume "t = s" then show "keys_sound t" using s by simp
  next
    fix v k assume l: "latest ow KKey i s = Inr (v, PlKey k)" and k': "k' = k\<lparr> ak_revoked_at := Some now \<rparr>"
      and app: "append_at (ow, KKey, i, v + 1) (PlKey k') s = (Inr (), t)"
    have row: "key_row_sound (verifier_key ` set (db_verifiers s)) (row_for (ow, KKey, i, v + 1) (PlKey k'))"
      using key_row_at [OF s latest_ok [OF l]] k' by (simp add: key_row_sound_def)
    have "db_verifiers t = db_verifiers s" "key_rows t = key_rows s
        \<or> key_rows t = key_rows s @ [row_for (ow, KKey, i, v + 1) (PlKey k')]"
      using app by (auto simp: append_at_run key_rows_def split: option.splits if_splits)
    then show "keys_sound t" using s row by (auto simp: keys_sound_def)
  qed
qed

lemma keys_sound_reachable: "db_reachable e s \<Longrightarrow> keys_sound s"
proof (induction rule: db_reachable.induct)
  case start
  then show ?case by (simp add: keys_sound_def key_rows_def empty_db_def)
next
  case (step s t)
  from key_step [OF step.hyps(2)] show ?case
    using step.IH preservesD [OF saved_key_sound] preservesD [OF revoked_key_sound]
      keys_sound_tables [of t s] by blast
qed

text \<open>Verifiers are only ever added.\<close>

definition verifiers_grow :: "db \<Rightarrow> db \<Rightarrow> bool" where
  "verifiers_grow s t = (\<exists>new. db_verifiers t = db_verifiers s @ new)"

lemma step_verifiers: "db_step e s t \<Longrightarrow> verifiers_grow s t"
proof (drule key_step, elim disjE exE)
  assume "key_tables t = key_tables s"
  then show "verifiers_grow s t" by (simp add: key_tables_def verifiers_grow_def)
next
  fix ow k v c assume t: "t = snd (save_application_key ow k v c s)"
  obtain x u where run: "save_application_key ow k v c s = (x, u)" by force
  then show "verifiers_grow s t"
    using t atomicD [OF save_key_atomic, of ow k v c s] save_key_ok [of ow k v c s u]
    by (cases x) (auto simp: verifiers_grow_def)
next
  fix ow i now assume t: "t = snd (revoke_key ow i now s)"
  have "db_verifiers (snd (revoke_key ow i now s)) = db_verifiers s"
  proof -
    have "keeps db_verifiers (on_records f)" for f :: "rec_row list \<Rightarrow> unit res \<times> rec_row list"
      by (rule keeps_on_table) simp
    then have "keeps db_verifiers (revoke_key ow i now)"
      unfolding revoke_key_def append_record_def insert_record_def Let_def
      by (auto intro!: keeps_Pair keeps_rules keeps_query split: option.split)
    then show ?thesis by (rule keepsD)
  qed
  then show "verifiers_grow s t" using t by (simp add: verifiers_grow_def)
qed

lemma steps_verifiers: "(db_step e)\<^sup>*\<^sup>* s t \<Longrightarrow> verifiers_grow s t"
  by (induction rule: rtranclp_induct)
    (force simp: verifiers_grow_def dest: step_verifiers)+

lemma verifier_found:
  assumes "keys_sound s" and "w \<in> set (db_verifiers s)" and "verifier_key w = (ow, i)"
  shows "scalar_one (map vf_verifier (filter (\<lambda>v. verifier_key v = (ow, i)) (db_verifiers s)))
    = Inr (vf_verifier w)"
proof -
  have "filter (\<lambda>v. verifier_key v = verifier_key w) (db_verifiers s) = [w]"
    using assms(1,2) by (intro filter_key) (simp_all add: keys_sound_def)
  then show ?thesis using assms(3) by (simp add: scalar_one_def)
qed


lemma key_record_at:
  assumes "keys_sound s" and "record_at s (ow, KKey, i, v) = Some p"
  shows "\<exists>v' k w. latest ow KKey i s = Inr (v', PlKey k) \<and> v \<le> v'
    \<and> record_at s (ow, KKey, i, v') = Some (PlKey k) \<and> w \<in> set (db_verifiers s)
    \<and> verifier_key w = (ow, i) \<and> key_record ow i s = Inr (k, vf_verifier w)"
proof -
  obtain v' p' where l: "latest ow KKey i s = Inr (v', p')" "v \<le> v'"
    "record_at s (ow, KKey, i, v') = Some p'"
    using latest_above [OF assms(2)] by blast
  obtain k where k: "p' = PlKey k" "(ow, i) \<in> verifier_key ` set (db_verifiers s)"
    using key_row_at [OF assms(1) l(3)] by blast
  then obtain w where w: "w \<in> set (db_verifiers s)" "verifier_key w = (ow, i)" by auto
  have "key_record ow i s = Inr (k, vf_verifier w)"
    using l(1) k(1) verifier_found [OF assms(1) w] by (simp add: key_record_def as_key_def)
  then show ?thesis using l k(1) w by blast
qed

section \<open>Parsing the bearer\<close>

lemma split_dot_append: "CHR ''.'' \<notin> set a \<Longrightarrow> split_dot (a @ CHR ''.'' # b) = a # split_dot b"
  by (induction a) auto

lemma split_dot_plain: "CHR ''.'' \<notin> set a \<Longrightarrow> split_dot a = [a]"
  by (induction a) auto

lemma split_colon_append: "CHR '':'' \<notin> set a \<Longrightarrow> split_colon (a @ CHR '':'' # b) = a # split_colon b"
  by (induction a) auto

lemma split_colon_nonempty: "split_colon x \<noteq> []"
  by (induction x) (auto split: list.splits)

lemma split_colon_one: "split_colon x = [y] \<Longrightarrow> y = x"
  by (induction x arbitrary: y) (auto simp: split_colon_nonempty split: if_splits list.splits)

lemma split_colon_plain: "CHR '':'' \<notin> set a \<Longrightarrow> split_colon a = [a]"
  by (induction a) auto

lemma hex_chars: "is_hex n x \<Longrightarrow> CHR ''.'' \<notin> set x \<and> CHR '':'' \<notin> set x \<and> length x = n"
  by (auto simp: is_hex_def list_all_iff is_hex_digit_def)

lemma identifier_chars:
  assumes "is_identifier t"
  shows "CHR ''.'' \<notin> set t" "1 \<le> length t" "length t \<le> 80" "list_all is_word_char t"
  using assms
  by (auto simp: is_identifier_def is_word_char_def list_all_iff is_alnum_def split: list.splits)

lemma bearer_raw:
  assumes "hex_random r" and "is_identifier (cx_tenant_id c)"
  shows "bearer_parts (raw_key r c) = Some (''bbx_'' @ kr_prefix r, cx_tenant_id c, kr_id r)"
    "length (raw_key r c) \<le> 512"
proof -
  note hex = assms(1) [unfolded hex_random_def]
  note chars = hex_chars [of 32 "kr_id r"] hex_chars [of 8 "kr_prefix r"] hex_chars [of 64 "kr_secret r"]
  have "split_dot (raw_key r c) = [''bbx_'' @ kr_prefix r, cx_tenant_id c, kr_id r, kr_secret r]"
    using hex chars identifier_chars(1) [OF assms(2)]
      split_dot_append [of "''bbx_'' @ kr_prefix r"] split_dot_append [of "cx_tenant_id c"]
      split_dot_append [of "kr_id r"] split_dot_plain [of "kr_secret r"]
    by (simp add: raw_key_def)
  then show "bearer_parts (raw_key r c) = Some (''bbx_'' @ kr_prefix r, cx_tenant_id c, kr_id r)"
    using hex identifier_chars(2-4) [OF assms(2)] by (simp add: bearer_parts_def)
  show "length (raw_key r c) \<le> 512"
    using hex chars identifier_chars(3) [OF assms(2)] by (simp add: raw_key_def)
qed

lemma verifier_parts:
  assumes "is_hex 32 salt" and "verifier_format (verifier_text kdf raw salt)"
  shows "split_colon (verifier_text kdf raw salt)
    = [''pbkdf2_sha256'', ''310000'', salt, kdf raw salt 310000]"
proof -
  have "split_colon (verifier_text kdf raw salt)
      = ''pbkdf2_sha256'' # ''310000'' # salt # split_colon (kdf raw salt 310000)"
    using hex_chars [OF assms(1)] split_colon_append [of "''pbkdf2_sha256''"]
      split_colon_append [of "''310000''"] split_colon_append [of salt]
    by (simp add: verifier_text_def)
  then show ?thesis
    using assms(2) split_colon_one [of "kdf raw salt 310000"]
    by (auto simp: verifier_format_def split: list.splits)
qed

section \<open>Life of a key\<close>

lemma forM_query: "forM xs (\<lambda>x. exec (query (f x))) s = (Inr u, t) \<Longrightarrow> t = s"
  by (induction xs arbitrary: u) (auto simp: thenM_ok_iff exec_ok_iff query_ok_iff)

lemma issue_ok:
  assumes "issue e kdf cancelled now r c expires scopes aliases policies cap s = (Inr (k, raw), t)"
  shows "k = new_key now r c expires scopes aliases policies" "raw = raw_key r c" "valid_key k"
    "save_application_key (cx_tenant_id c) k (verifier_text kdf raw (kr_salt r)) (Some cap) s = (Inr (), t)"
proof -
  let ?k = "new_key now r c expires scopes aliases policies"
  obtain s1 s2 where q: "forM aliases (\<lambda>a. exec (query (stored_alias (cx_tenant_id c) a))) s = (Inr (), s1)"
      "forM policies (\<lambda>p. exec (query (policy e (cx_tenant_id c) p))) s1 = (Inr (), s2)"
    and rest: "thenM (guardM (valid_key ?k) ValueError)
        (thenM (save_application_key (cx_tenant_id c) ?k (verifier_text kdf (raw_key r c) (kr_salt r)) (Some cap))
          (ret (?k, raw_key r c))) s2 = (Inr (k, raw), t)"
    using assms by (auto simp: issue_def Let_def thenM_ok_iff split: if_splits)
  have "s2 = s" using forM_query [OF q(1)] forM_query [OF q(2)] by simp
  then show "k = ?k" "raw = raw_key r c" "valid_key k"
    "save_application_key (cx_tenant_id c) k (verifier_text kdf raw (kr_salt r)) (Some cap) s = (Inr (), t)"
    using rest by (auto simp: thenM_ok_iff)
qed

definition key_revoked :: "string \<Rightarrow> string \<Rightarrow> db \<Rightarrow> bool" where
  "key_revoked ow i s = (case key_record ow i s of Inr (k, _) \<Rightarrow> ak_revoked_at k \<noteq> None | _ \<Rightarrow> False)"

text \<open>
  C19. What is issued authenticates: from the moment \<open>issue\<close> returns the raw key until it
  expires, whatever else happens to the database, \<open>authenticate\<close> answers exactly the
  metadata that was issued, or 401 once the key has been revoked.
\<close>

theorem issued_key_authenticates:
  assumes "db_reachable e s" and "hex_random r"
    and "issue e kdf cancelled now r c expires scopes aliases policies cap s = (Inr (k, raw), t)"
    and "(db_step e)\<^sup>*\<^sup>* t u" and "now \<le> now'" and "now' < expires"
  shows "authenticate kdf raw now' u =
    (if key_revoked (cx_tenant_id c) (ak_id k) u then err UNSUPPORTED 401 else Inr k)"
proof -
  let ?ow = "cx_tenant_id c" and ?i = "kr_id r"
  note k = issue_ok [OF assms(3)]
  have ids: "ak_id k = ?i" "is_identifier ?ow" "ak_prefix k = ''bbx_'' @ kr_prefix r"
    "ak_created_at k = now" "ak_expires_at k = expires" "ak_revoked_at k = None"
    using k(1,3) by (simp_all add: new_key_def valid_key_def)
  note bearer = bearer_raw [OF assms(2) ids(2)]
  note saved = save_key_ok [OF k(4)]
  have salt: "is_hex 32 (kr_salt r)" using assms(2) by (simp add: hex_random_def)
  have "db_reachable e t"
    using db_reachable.step [OF assms(1) db_step.save_key, of ?ow k _ "Some cap"] k(4) by (metis snd_conv)
  then have u: "keys_sound u" by (rule keys_sound_reachable [OF reachable_steps [OF assms(4)]])
  have "record_at t (?ow, KKey, ?i, 1) = Some (PlKey k)" using saved ids(1) by simp
  then have at1: "record_at u (?ow, KKey, ?i, 1) = Some (PlKey k)"
    using steps_grow_log [OF assms(4)] by (simp add: log.grows_def)
  obtain v' k' w where l: "1 \<le> v'" "record_at u (?ow, KKey, ?i, v') = Some (PlKey k')"
    "w \<in> set (db_verifiers u)" "verifier_key w = (?ow, ?i)" "key_record ?ow ?i u = Inr (k', vf_verifier w)"
    using key_record_at [OF u at1] by blast
  have same: "k' = k" if "ak_revoked_at k' = None"
    using key_row_at [OF u l(2)] that at1 l(2) by auto
  let ?w = "\<lparr> vf_owner = ?ow, vf_id = ?i, vf_verifier = verifier_text kdf raw (kr_salt r) \<rparr>"
  have "?w \<in> set (db_verifiers u)"
    using saved ids(1) steps_verifiers [OF assms(4)] by (auto simp: verifiers_grow_def)
  then have "w = ?w"
    using key_unique [of verifier_key "db_verifiers u" w ?w] u l(3,4)
    by (simp add: keys_sound_def verifier_key_def)
  then have "vf_verifier w = verifier_text kdf raw (kr_salt r)" by simp
  then show ?thesis
    using bearer l(5) verifier_parts [OF salt, of kdf raw] saved k(2) same assms(5,6) ids
    by (auto simp: authenticate_def accept_key_def key_revoked_def invalid_key_def decimal_value_def)
qed

text \<open>
  C18. Revocation is final: once \<open>revoke_key\<close> has returned, no bearer that names this key
  authenticates in any later state of the database, at any time.
\<close>

theorem revoked_key_never_authenticates:
  assumes "db_reachable e s" and "revoke_key ow i now s = (Inr k, t)" and "(db_step e)\<^sup>*\<^sup>* t u"
    and "bearer_parts bearer = Some (prefix, ow, i)"
  shows "authenticate kdf bearer now' u = err UNSUPPORTED 401"
proof -
  have "db_reachable e t"
    using db_reachable.step [OF assms(1) db_step.revoke, of ow i now] assms(2) by (metis snd_conv)
  then have u: "keys_sound u" by (rule keys_sound_reachable [OF reachable_steps [OF assms(3)]])
  have "\<exists>v k'. record_at t (ow, KKey, i, v) = Some (PlKey k') \<and> ak_revoked_at k' \<noteq> None"
  proof (rule revoke_ok [OF assms(2)])
    fix v k0 assume "latest ow KKey i s = Inr (v, PlKey k0)" "ak_revoked_at k0 \<noteq> None" "t = s"
    then show ?thesis using latest_ok [of ow KKey i s] by blast
  next
    fix v k0 assume "append_at (ow, KKey, i, v + 1) (PlKey k) s = (Inr (), t)"
      "k = k0\<lparr> ak_revoked_at := Some now \<rparr>"
    then have "record_at t (ow, KKey, i, v + 1) = Some (PlKey k)" "ak_revoked_at k \<noteq> None"
      by (auto simp: append_at_run record_at_rows scalar_append split: option.splits if_splits)
    then show ?thesis by blast
  qed
  then obtain v k' where k': "record_at t (ow, KKey, i, v) = Some (PlKey k')" "ak_revoked_at k' \<noteq> None"
    by blast
  then have at_u: "record_at u (ow, KKey, i, v) = Some (PlKey k')"
    using steps_grow_log [OF assms(3)] by (simp add: log.grows_def)
  obtain v' k2 w where l: "v \<le> v'" "record_at u (ow, KKey, i, v') = Some (PlKey k2)"
    "w \<in> set (db_verifiers u)" "key_record ow i u = Inr (k2, vf_verifier w)"
    using key_record_at [OF u at_u] by blast
  have "1 \<le> v" using key_row_at [OF u at_u] by auto
  then have "ak_revoked_at k2 \<noteq> None"
    using key_row_at [OF u l(2)] l(1,2) k' at_u by auto
  moreover have "verifier_format (vf_verifier w)"
    using u l(3) by (simp add: keys_sound_def list_all_iff)
  ultimately show ?thesis
    using assms(4) l(4)
    by (auto simp: authenticate_def accept_key_def invalid_key_def verifier_format_def split: list.splits)
qed

section \<open>The rate limit\<close>

definition charged :: "string \<Rightarrow> string \<Rightarrow> db \<Rightarrow> nat" where
  "charged tenant window s = count_where
     (\<lambda>r. (rs_owner r, rs_budget_id r) = (tenant, window) \<and> 1 \<le> rs_reserved r) (db_reservations s)"

lemma charged_le_reserved:
  "list_all (\<lambda>r. 0 \<le> rs_reserved r) rs \<Longrightarrow> int (count_where
     (\<lambda>r. (rs_owner r, rs_budget_id r) = k \<and> 1 \<le> rs_reserved r) rs) \<le> reserved_in k rs"
  by (induction rs) (auto simp: count_where_def reserved_in_def)

lemma open_window_ok:
  assumes "open_window cap ow w s = (Inr (), t)"
  shows "db_reservations t = db_reservations s
    \<and> (db_budgets t = db_budgets s \<or> db_budgets t = db_budgets s @ [\<lparr> bg_owner = ow, bg_id = w, bg_cap = cap, bg_held = 0 \<rparr>])"
  using assms
  by (auto simp: open_window_def provision_budget_def provision_in_def insert_budget_def catchM_def
      transact_def on_table_def insert_row_def guard_then split: if_splits sum.splits prod.splits)

lemma open_window_sound: "preserves funds_sound (open_window cap ow w)"
  unfolding open_window_def by (intro pres_rules provision_sound)

lemma charge_key_ok:
  assumes "charge_key cap now now' c amount sc s = (Inr (), t)"
  obtains k s1 s2 where "check_key c sc None now s = Inr k"
    "open_window cap (cx_tenant_id c) (rate_window k now') s = (Inr (), s1)"
    "reserve (cx_tenant_id c) (rate_window k now') (''rate-'' @ cx_request_id c)
       (''rate-'' @ cx_request_id c) 1 s1 = (Inr (), s2)"
    "reserve (cx_tenant_id c) (''key-'' @ ak_id k) (''key-'' @ cx_request_id c)
       (''key-'' @ cx_request_id c) amount s2 = (Inr (), t)"
  using assms by (auto simp: charge_key_def Let_def bindM_ok_iff thenM_ok_iff query_ok_iff)


section \<open>A key issued, used and revoked\<close>

definition ex_random :: key_random where
  "ex_random = \<lparr> kr_id = ''aaaaaaaaaaaaaaaaaaaaaaaaaaaaaaaa'', kr_prefix = ''bbbbbbbb'',
     kr_secret = ''cccccccccccccccccccccccccccccccccccccccccccccccccccccccccccccccc'', kr_salt = ''dddddddddddddddddddddddddddddddd'' \<rparr>"

definition ex_studio :: request_context where
  "ex_studio = \<lparr> cx_tenant_id = ''t'', cx_principal_id = ''t'', cx_request_id = ''r'',
     cx_idempotency_key = ''12345678'', cx_deadline = 100, cx_application_key = None \<rparr>"

definition ex_kdf :: "string \<Rightarrow> string \<Rightarrow> nat \<Rightarrow> string" where
  "ex_kdf raw salt n = ''eeeeeeeeeeeeeeeeeeeeeeeeeeeeeeeeeeeeeeeeeeeeeeeeeeeeeeeeeeeeeeee''"

definition ex_key :: application_key where
  "ex_key = new_key 10 ex_random ex_studio 100 [ScChatComplete] [] []"

definition ex_raw :: string where
  "ex_raw = raw_key ex_random ex_studio"

definition ex_verifier :: string where
  "ex_verifier = verifier_text ex_kdf ex_raw (kr_salt ex_random)"

definition ex_key_db :: db where
  "ex_key_db = empty_db\<lparr>
     db_budgets := [\<lparr> bg_owner = ''t'', bg_id = ''key-'' @ ak_id ex_key, bg_cap = 500, bg_held = 0 \<rparr>],
     db_records := [row_for (''t'', KKey, ak_id ex_key, 1) (PlKey ex_key)],
     db_verifiers := [\<lparr> vf_owner = ''t'', vf_id = ak_id ex_key, vf_verifier = ex_verifier \<rparr>] \<rparr>"

definition ex_caller :: request_context where
  "ex_caller = ex_studio\<lparr> cx_application_key := Some ex_key \<rparr>"

lemma ex_hex: "hex_random ex_random"
  by code_simp

lemma ex_bearer: "bearer_parts ex_raw = Some (ak_prefix ex_key, ''t'', ak_id ex_key)"
  by code_simp

lemma ex_key_texts: "is_identifier (ak_id ex_key)" "is_key_prefix (ak_prefix ex_key)"
    "is_identifier ''t''"
  by (simp_all add: ex_key_def new_key_def ex_random_def is_identifier_def is_key_prefix_def
      is_word_char_def is_alnum_def)

lemma ex_hexes: "is_hex 32 (kr_salt ex_random)" "is_hex 64 (ex_kdf raw salt n)"
  by (simp_all add: ex_random_def ex_kdf_def is_hex_def is_hex_digit_def)

lemma ex_format: "verifier_format ex_verifier"
proof -
  have "split_colon ex_verifier = [''pbkdf2_sha256'', ''310000'', kr_salt ex_random,
      ex_kdf ex_raw (kr_salt ex_random) 310000]"
    using hex_chars [OF ex_hexes(1)] hex_chars [OF ex_hexes(2), of ex_raw "kr_salt ex_random" 310000]
      split_colon_append [of "''pbkdf2_sha256''"] split_colon_append [of "''310000''"]
      split_colon_append [of "kr_salt ex_random"]
      split_colon_plain [of "ex_kdf ex_raw (kr_salt ex_random) 310000"]
    by (simp add: ex_verifier_def verifier_text_def)
  then show ?thesis using ex_hexes by (simp add: verifier_format_def is_decimal_def)
qed

lemma ex_key_fields: "ak_tenant_id ex_key = ''t''" "ak_revoked_at ex_key = None"
    "ak_created_at ex_key = 10" "ak_expires_at ex_key = 100" "ak_scopes ex_key = [ScChatComplete]"
    "ak_alias_ids ex_key = []" "ak_workflow_policies ex_key = []"
  by (simp_all add: ex_key_def new_key_def ex_studio_def)

lemma ex_key_valid: "valid_key ex_key" "valid_key (ex_key\<lparr> ak_revoked_at := Some 20 \<rparr>)"
  by (simp_all add: valid_key_def key_dates_def ex_key_texts ex_key_fields)

lemma ex_new_key: "new_key 10 ex_random ex_studio 100 [ScChatComplete] [] [] = ex_key"
    "raw_key ex_random ex_studio = ex_raw" "verifier_text ex_kdf ex_raw (kr_salt ex_random) = ex_verifier"
    "cx_tenant_id ex_studio = ''t''" "studio_identity ex_studio"
  by (simp_all add: ex_key_def ex_raw_def ex_verifier_def ex_studio_def studio_identity_def)

lemma ex_saved: "save_application_key ''t'' ex_key ex_verifier (Some 500) empty_db = (Inr (), ex_key_db)"
  using ex_format ex_key_fields
  by (simp add: save_application_key_def thenM_run provision_in_def insert_budget_def on_table_def
      insert_row_def empty_db_def append_record_at append_at_run record_at_def find_record_def
      insert_verifier_def transact_def conflict_on_integrity_def catchM_def ex_key_db_def)

lemma ex_issue_run:
  "issue ex_env ex_kdf (ok ()) 10 ex_random ex_studio 100 [ScChatComplete] [] [] 500 empty_db
     = (Inr (ex_key, ex_raw), ex_key_db)"
  using ex_key_valid ex_saved by (simp add: issue_def Let_def ex_new_key thenM_run)

lemma ex_record: "key_record ''t'' (ak_id ex_key) ex_key_db = Inr (ex_key, ex_verifier)"
  by (simp add: key_record_def latest_def versions_def ex_key_db_def empty_db_def sql_max_def
      find_record_at record_at_rows verifier_key_def scalar_one_def as_key_def Let_def)

lemma ex_check: "check_key ex_caller ScChatComplete None 20 ex_key_db = Inr ex_key"
  using ex_record ex_key_fields
  by (simp add: check_key_def ex_caller_def ex_studio_def authorize_application_key_def guards.simps)

lemma ex_key_reachable: "db_reachable ex_env ex_key_db"
  using db_reachable.step [OF db_reachable.start db_step.save_key] ex_saved by (metis snd_conv)

lemma ex_revoke: "revoke_key ''t'' (ak_id ex_key) 20 ex_key_db
    = (Inr (ex_key\<lparr> ak_revoked_at := Some 20 \<rparr>),
       snd (revoke_key ''t'' (ak_id ex_key) 20 ex_key_db))"
  using ex_key_valid(2) ex_key_fields
  by (simp add: revoke_key_def latest_def versions_def ex_key_db_def empty_db_def sql_max_def
      find_record_at record_at_rows as_key_def Let_def bindM_run thenM_run append_record_at append_at_run
      transact_def conflict_on_integrity_def catchM_def)

theorem issued_key_authenticates_witness:
  "authenticate ex_kdf ex_raw 50 ex_key_db = Inr ex_key"
  using issued_key_authenticates [OF db_reachable.start ex_hex ex_issue_run rtranclp.rtrancl_refl, of 50]
    ex_record ex_key_fields by (simp add: ex_studio_def key_revoked_def)

theorem revoked_key_never_authenticates_witness:
  "authenticate ex_kdf ex_raw 50 (snd (revoke_key ''t'' (ak_id ex_key) 20 ex_key_db))
     = err UNSUPPORTED 401"
  by (rule revoked_key_never_authenticates [OF ex_key_reachable ex_revoke rtranclp.rtrancl_refl ex_bearer])

lemma ex_charge: "charge_key 1 20 20 ex_caller 7 ScChatComplete ex_key_db
    = (Inr (), snd (charge_key 1 20 20 ex_caller 7 ScChatComplete ex_key_db))"
  using ex_check
  by (simp add: charge_key_def Let_def ex_caller_def ex_studio_def open_window_def rate_window_def
      provision_budget_def provision_in_def insert_budget_def on_table_def insert_row_def catchM_def
      transact_def thenM_run reserve_def hold_def update_rows_def insert_reservation_def
      conflict_on_integrity_def ex_key_db_def empty_db_def bindM_run budget_key_def
      reservation_key_def reservation_request_def count_where_def)


end
