(* ===== verification/Texts.thy ===== *)
theory Texts
  imports Contracts
begin

text \<open>
  What the program does with text: \<open>str.lower()\<close>, substring tests and the few regular
  expressions it searches for.  A \<open>char\<close> is a Latin-1 code point, on which the
  functions below agree with Python.
\<close>

definition or_default :: "'a \<Rightarrow> 'a option \<Rightarrow> 'a" where
  "or_default d v = (case v of None \<Rightarrow> d | Some x \<Rightarrow> x)"

lemma or_default_simps [simp]: "or_default d None = d" "or_default d (Some x) = x"
  by (simp_all add: or_default_def)

definition lower_char :: "char \<Rightarrow> char" where
  "lower_char c = (let n = (of_char c :: nat) in
     if (65 \<le> n \<and> n \<le> 90) \<or> (192 \<le> n \<and> n \<le> 222 \<and> n \<noteq> 215) then char_of (n + 32) else c)"

definition lower :: "string \<Rightarrow> string" where
  "lower = map lower_char"

text \<open>The characters \<open>\w\<close> matches.\<close>

definition unicode_word :: "char \<Rightarrow> bool" where
  "unicode_word c = (let n = (of_char c :: nat) in is_alnum c \<or> n = 95
     \<or> n \<in> {170, 178, 179, 181, 185, 186, 188, 189, 190}
     \<or> (192 \<le> n \<and> n \<noteq> 215 \<and> n \<noteq> 247))"

definition occurs_at :: "string \<Rightarrow> nat \<Rightarrow> string \<Rightarrow> bool" where
  "occurs_at t k needle = (take (length needle) (drop k t) = needle)"

text \<open>\<open>needle in t\<close>\<close>

definition contains :: "string \<Rightarrow> string \<Rightarrow> bool" where
  "contains t needle = list_ex (\<lambda>k. occurs_at t k needle) [0..<Suc (length t)]"

definition contains_any :: "string \<Rightarrow> string list \<Rightarrow> bool" where
  "contains_any t needles = list_ex (contains t) needles"

text \<open>\<open>re.search(r"\bword\b", t, re.I)\<close> for a lower-case literal word.\<close>

definition contains_word :: "string \<Rightarrow> string \<Rightarrow> bool" where
  "contains_word t w = (let s = lower t in list_ex (\<lambda>k. occurs_at s k w
     \<and> (k = 0 \<or> \<not> unicode_word (s ! (k - 1)))
     \<and> (length s \<le> k + length w \<or> \<not> unicode_word (s ! (k + length w)))) [0..<length s])"

text \<open>\<open>re.search("a.b", t, re.I)\<close>: the dot is any character but a newline.\<close>

definition contains_gap :: "string \<Rightarrow> string \<Rightarrow> string \<Rightarrow> bool" where
  "contains_gap t a b = (let s = lower t in list_ex (\<lambda>k. occurs_at s k a
     \<and> k + length a < length s \<and> s ! (k + length a) \<noteq> CHR 0x0A
     \<and> occurs_at s (k + length a + 1) b) [0..<length s])"

definition join :: "string \<Rightarrow> string list \<Rightarrow> string" where
  "join sep ws = (case ws of [] \<Rightarrow> [] | w # rest \<Rightarrow> w @ concat (map (\<lambda>x. sep @ x) rest))"

lemma occurs_at_append: "occurs_at (a @ needle @ b) (length a) needle"
  by (simp add: occurs_at_def)

lemma contains_iff: "contains t needle \<longleftrightarrow> (\<exists>a b. t = a @ needle @ b)"
proof
  assume "contains t needle"
  then obtain k where "take (length needle) (drop k t) = needle"
    unfolding contains_def list_ex_iff occurs_at_def by blast
  then have "t = take k t @ needle @ drop (length needle) (drop k t)"
    by (metis append_take_drop_id)
  then show "\<exists>a b. t = a @ needle @ b" by blast
next
  assume "\<exists>a b. t = a @ needle @ b"
  then obtain a b where "t = a @ needle @ b" by blast
  then show "contains t needle"
    unfolding contains_def list_ex_iff using occurs_at_append [of a needle b]
    by (intro bexI [of _ "length a"]) auto
qed

end
