(* ===== verification/Selection.thy ===== *)
theory Selection
  imports Catalog Texts Store_Schema Examples
begin

text \<open>
  \<open>intelligence/selection/engine.py\<close>: evidence-gated eligibility, the ordinal price
  rank and the bounded portfolio search.  \<open>datetime.fromisoformat\<close> is the argument
  \<open>parse\<close>: None where it raises, \<open>Some None\<close> for a naive time, otherwise the instant;
  the readings of the clock keeps_within one call are one instant.  Catalogs are validated
  snapshots; looking up an artifact that is not there raises KeyError all the same.
\<close>

section \<open>Gates\<close>

datatype gate = GOpenWeight | GDownload | GCost | GLatency | GRegion | GAgent | GCapabilities
  | GModality | GDeployment | GUnrepresented string

record decision =
  dc_gate :: gate
  dc_value :: "bool option"
  dc_sources :: "string list"

definition decide :: "gate \<Rightarrow> bool option \<Rightarrow> string list \<Rightarrow> decision" where
  "decide g v sources = \<lparr> dc_gate = g, dc_value = v, dc_sources = sort (remdups sources) \<rparr>"

definition rule_name :: "gate \<Rightarrow> string" where
  "rule_name g = (case g of GOpenWeight \<Rightarrow> ''open_weight''
     | GDownload \<Rightarrow> ''artifact_download_and_legal_scope'' | GCost \<Rightarrow> ''cost_ceiling''
     | GLatency \<Rightarrow> ''latency_ceiling'' | GRegion \<Rightarrow> ''region'' | GAgent \<Rightarrow> ''bounded_agent''
     | GCapabilities \<Rightarrow> ''model_tool_output_capabilities'' | GModality \<Rightarrow> ''input_modality''
     | GDeployment \<Rightarrow> ''deployment'' | GUnrepresented _ \<Rightarrow> ''unrepresented_hard_requirement'')"

definition unknown_reason :: "gate \<Rightarrow> string" where
  "unknown_reason g = (case g of
       GOpenWeight \<Rightarrow> ''Open-weight evidence is missing, unresolved or only inferred''
     | GDownload \<Rightarrow> ''Current exact download and contextual license-policy evidence is required; a listing alone is insufficient''
     | GCost \<Rightarrow> ''Mandatory cost_ceiling evidence unavailable/invalid; unknown is not zero''
     | GLatency \<Rightarrow> ''Mandatory latency_ceiling evidence unavailable/invalid; unknown is not zero''
     | GRegion \<Rightarrow> ''Required region is not established; region alone does not establish privacy or retention''
     | GAgent \<Rightarrow> ''Agent-loop/tool-call execution is not supported''
     | GCapabilities \<Rightarrow> ''Current configuration-specific tool-call/output support needs verification''
     | GModality \<Rightarrow> ''Mandatory deployment/modality unknown or stale''
     | GDeployment \<Rightarrow> ''Mandatory deployment/modality unknown or stale''
     | GUnrepresented r \<Rightarrow> ''Cannot evaluate '' @ [CHR 0x27] @ r @ [CHR 0x27] @ '' through the frozen contract; do not infer it from parameter count, prose or provider listing'')"

definition ev_by_id :: "catalog \<Rightarrow> string \<Rightarrow> evidence option" where
  "ev_by_id c i = List.find (\<lambda>e. ev_id e = i) (rev (cat_evidence c))"

definition established_kind :: "prov_kind \<Rightarrow> bool" where
  "established_kind k = (k = PObserved \<or> k = PDocumented)"

definition source_valid :: "catalog \<Rightarrow> provenance \<Rightarrow> bool" where
  "source_valid c p = (let ids = prov_evidence_ids p in
     if ids = [] \<or> list_ex (\<lambda>i. ev_by_id c i = None) ids then False
     else if cat_synthetic c then prov_kind p = PSynthetic \<or> established_kind (prov_kind p)
     else established_kind (prov_kind p)
       \<and> list_all (\<lambda>i. case ev_by_id c i of None \<Rightarrow> False
            | Some e \<Rightarrow> established_kind (prov_kind (ev_prov e))) ids)"

definition fact_sources :: "'a fact \<Rightarrow> string list" where
  "fact_sources f = prov_evidence_ids (fact_prov f)"

definition eligibility_current :: "(string \<Rightarrow> int option option) \<Rightarrow> int \<Rightarrow> eligibility \<Rightarrow> bool" where
  "eligibility_current parse now e = (case (parse (el_observed_at e), parse (el_expires_at e)) of
     (Some (Some observed), Some (Some expires)) \<Rightarrow> observed \<le> now \<and> now < expires
   | _ \<Rightarrow> False)"

definition open_weight_gate :: "catalog \<Rightarrow> model_artifact \<Rightarrow> decision" where
  "open_weight_gate c a = decide GOpenWeight
     (if source_valid c (fact_prov (art_open_weight a)) then fact_value (art_open_weight a) else None)
     (fact_sources (art_open_weight a))"

definition download_gate :: "catalog \<Rightarrow> bool \<Rightarrow> eligibility option \<Rightarrow> model_artifact \<Rightarrow> decision" where
  "download_gate c current el a = (case el of
     None \<Rightarrow> decide GDownload None (prov_evidence_ids (art_prov a))
   | Some e \<Rightarrow> decide GDownload
       (if current \<and> list_all (\<lambda>f. fact_value f = Some True \<and> source_valid c (fact_prov f))
             [el_weights_access e, el_license_policy e] then Some True else None)
       (fact_sources (el_weights_access e) @ fact_sources (el_license_policy e)))"

definition ceiling_gate :: "catalog \<Rightarrow> gate \<Rightarrow> pyfloat fact \<Rightarrow> rat option \<Rightarrow> decision list" where
  "ceiling_gate c g f ceiling_at = (case ceiling_at of None \<Rightarrow> [] | Some m \<Rightarrow>
     [decide g (case fact_value f of
          Some (Finite q) \<Rightarrow> if 0 \<le> q \<and> source_valid c (fact_prov f) then Some (q \<le> m) else None
        | _ \<Rightarrow> None) (fact_sources f)])"

definition region_gate :: "catalog \<Rightarrow> string fact \<Rightarrow> string option \<Rightarrow> decision list" where
  "region_gate c f required = (case required of None \<Rightarrow> [] | Some r \<Rightarrow>
     [decide GRegion (if source_valid c (fact_prov f) then map_option (\<lambda>v. v = r) (fact_value f)
        else None) (fact_sources f)])"

definition requires_parameters :: "workflow \<Rightarrow> string list" where
  "requires_parameters w =
     (let q = wf_requirements w;
          json_prose = list_ex (\<lambda>n. nd_kind n = KLlm \<and> (contains_word (nd_purpose n) ''json''
             \<or> contains (lower (nd_purpose n)) ''structured output'')) (wf_nodes w);
          tool_prose = list_ex (\<lambda>n. contains_gap (nd_purpose n) ''tool'' ''call'') (wf_nodes w) in
      (if req_structured_output q \<or> json_prose then [''response_format''] else [])
      @ (if req_tool_calling q \<or> tool_prose then [''tools'', ''tool_choice''] else []))"

definition capability_gate :: "catalog \<Rightarrow> bool \<Rightarrow> eligibility option \<Rightarrow> string list \<Rightarrow> decision list" where
  "capability_gate c current el required = (if required = [] then [] else [case el of
     None \<Rightarrow> decide GCapabilities None []
   | Some e \<Rightarrow> decide GCapabilities
       (if current \<and> source_valid c (fact_prov (el_supported_parameters e))
           \<and> (case fact_value (el_supported_parameters e) of None \<Rightarrow> False
              | Some ps \<Rightarrow> set required \<subseteq> set ps) then Some True else None)
       (fact_sources (el_supported_parameters e))])"

definition modality_text :: "modality \<Rightarrow> string" where
  "modality_text m = (case m of MText \<Rightarrow> ''text'' | MImage \<Rightarrow> ''image'')"

definition modality_gate :: "catalog \<Rightarrow> bool \<Rightarrow> eligibility option \<Rightarrow> modality \<Rightarrow> decision list" where
  "modality_gate c current el m = (if cat_synthetic c \<and> m = MText then [] else [case el of
     None \<Rightarrow> decide GModality None []
   | Some e \<Rightarrow> let f = el_input_modalities e in decide GModality
       (if current \<and> source_valid c (fact_prov f)
        then map_option (\<lambda>ms. modality_text m \<in> set ms) (fact_value f) else None)
       (fact_sources f)])"

definition deployment_text :: "deployment_req \<Rightarrow> string" where
  "deployment_text d = (case d of DAny \<Rightarrow> ''any'' | DSelfHosted \<Rightarrow> ''self_hosted'' | DApi \<Rightarrow> ''api'')"

definition deployment_gate :: "catalog \<Rightarrow> bool \<Rightarrow> eligibility option \<Rightarrow> deployment_req
    \<Rightarrow> decision list" where
  "deployment_gate c current el d = (if d = DAny then [] else [case el of
     None \<Rightarrow> decide GDeployment None []
   | Some e \<Rightarrow> let f = el_deployment e in decide GDeployment
       (if current \<and> source_valid c (fact_prov f)
        then map_option (\<lambda>v. deployment_text d = v) (fact_value f) else None)
       (fact_sources f)])"

definition unrepresented :: "string list" where
  "unrepresented = [''context window'', ''output token'', ''commercial license'',
     ''license policy'', ''zero retention'', ''on-prem'', ''on prem'', ''air-gapped'',
     ''gpu memory'', ''hardware fit'', ''monthly budget'', ''per workflow budget'',
     ''per document budget'']"

definition prose :: "workflow \<Rightarrow> string" where
  "prose w = lower (join '' '' (wf_title w # map nd_purpose (wf_nodes w)))"

definition candidate_checks :: "(string \<Rightarrow> int option option) \<Rightarrow> int \<Rightarrow> workflow \<Rightarrow> catalog \<Rightarrow> candidate
    \<Rightarrow> model_artifact \<Rightarrow> decision list" where
  "candidate_checks parse now w c k a =
     (let el = List.find (\<lambda>e. el_configuration_id e = cfg_id k) (cat_eligibility c);
          current = (case el of None \<Rightarrow> False | Some e \<Rightarrow> eligibility_current parse now e);
          con = wf_constraints w; q = wf_requirements w in
      [open_weight_gate c a]
      @ (if cat_synthetic c then [] else [download_gate c current el a])
      @ ceiling_gate c GCost (cfg_cost_per_1k_tokens k) (con_max_cost_per_1k_tokens con)
      @ ceiling_gate c GLatency (cfg_latency_ms k) (con_max_latency_ms con)
      @ region_gate c (cfg_region k) (con_required_region con)
      @ (if list_ex (\<lambda>n. nd_kind n = KBoundedAgent) (wf_nodes w) then [decide GAgent None []] else [])
      @ capability_gate c current el (requires_parameters w)
      @ modality_gate c current el (req_input_modality q)
      @ deployment_gate c current el (req_deployment q)
      @ map (\<lambda>r. decide (GUnrepresented r) None []) (filter (contains (prose w)) unrepresented))"

definition art_by_id :: "catalog \<Rightarrow> string \<Rightarrow> model_artifact option" where
  "art_by_id c i = List.find (\<lambda>a. art_id a = i) (rev (cat_artifacts c))"

fun traverse :: "('a \<Rightarrow> 'b res) \<Rightarrow> 'a list \<Rightarrow> 'b list res" where
  "traverse f [] = ok []"
| "traverse f (x # xs) = rbind (f x) (\<lambda>y. rbind (traverse f xs) (\<lambda>ys. ok (y # ys)))"

definition assess_one :: "(string \<Rightarrow> int option option) \<Rightarrow> int \<Rightarrow> workflow \<Rightarrow> catalog \<Rightarrow> candidate
    \<Rightarrow> (string \<times> decision list) res" where
  "assess_one parse now w c k = (case art_by_id c (cfg_artifact_id k) of
     None \<Rightarrow> Inl KeyError | Some a \<Rightarrow> ok (cfg_id k, candidate_checks parse now w c k a))"

definition assess :: "(string \<Rightarrow> int option option) \<Rightarrow> int \<Rightarrow> workflow \<Rightarrow> catalog
    \<Rightarrow> (string \<times> decision list) list res" where
  "assess parse now w c = traverse (assess_one parse now w c) (sort_key cfg_id (cat_configurations c))"

section \<open>Eligibility and rank\<close>

definition passes :: "decision list \<Rightarrow> bool" where
  "passes ds = list_all (\<lambda>d. dc_value d = Some True) ds"

definition needing_verification :: "(string \<Rightarrow> int option option) \<Rightarrow> int \<Rightarrow> workflow \<Rightarrow> catalog
    \<Rightarrow> string list res" where
  "needing_verification parse now w c = rbind (assess parse now w c) (\<lambda>rows. ok (map fst
     (filter (\<lambda>(_, ds). list_all (\<lambda>d. dc_value d \<noteq> Some False) ds
        \<and> list_ex (\<lambda>d. dc_value d = None) ds) rows)))"

definition contradicted :: "(string \<Rightarrow> int option option) \<Rightarrow> int \<Rightarrow> workflow \<Rightarrow> catalog
    \<Rightarrow> string list res" where
  "contradicted parse now w c = rbind (assess parse now w c) (\<lambda>rows. ok (map fst
     (filter (\<lambda>(_, ds). list_ex (\<lambda>d. dc_value d = Some False) ds) rows)))"

definition exclusion :: "decision \<Rightarrow> string" where
  "exclusion d = (if dc_value d = None then ''UNKNOWN'' else ''CONTRADICTED'')
     @ '' selection-1.0:'' @ rule_name (dc_gate d) @ ''; sources=''
     @ (if dc_sources d = [] then ''none'' else join '', '' (dc_sources d)) @ ''; ''
     @ (if dc_value d = None then unknown_reason (dc_gate d) else ''hard requirement is contradicted'')"

definition filter_candidates :: "(string \<Rightarrow> int option option) \<Rightarrow> int \<Rightarrow> workflow \<Rightarrow> catalog
    \<Rightarrow> filter_result res" where
  "filter_candidates parse now w c = rbind (assess parse now w c) (\<lambda>rows.
     let eligible = map fst (filter (\<lambda>(_, ds). passes ds) rows) in
     ok \<lparr> fr_eligible = eligible,
          fr_excluded = map (\<lambda>(i, ds). (i, map exclusion (filter (\<lambda>d. dc_value d \<noteq> Some True) ds)))
            (filter (\<lambda>(i, _). i \<notin> set eligible) rows) \<rparr>)"

text \<open>The key \<open>(not known, value or inf, id)\<close>: an unknown price needs no value.\<close>

definition price_key :: "catalog \<Rightarrow> candidate \<Rightarrow> bool \<times> rat \<times> string" where
  "price_key c k = (case fact_value (cfg_cost_per_1k_tokens k) of
     Some (Finite q) \<Rightarrow> if 0 \<le> q \<and> source_valid c (fact_prov (cfg_cost_per_1k_tokens k))
       then (False, q, cfg_id k) else (True, 0, cfg_id k)
   | _ \<Rightarrow> (True, 0, cfg_id k))"

definition by_price :: "catalog \<Rightarrow> string list \<Rightarrow> string list" where
  "by_price c ids = map cfg_id (sort_key (price_key c)
     (filter (\<lambda>k. cfg_id k \<in> set ids) (cat_configurations c)))"

text \<open>Equality of two results; \<open>excluded\<close> is a dict, whose order does not matter.\<close>

definition same_filter :: "filter_result \<Rightarrow> filter_result \<Rightarrow> bool" where
  "same_filter a b = (fr_eligible a = fr_eligible b
     \<and> list_all (\<lambda>i. map_of (fr_excluded a) i = map_of (fr_excluded b) i)
         (dict_keys (fr_excluded a) @ dict_keys (fr_excluded b)))"

definition rank_for_verification :: "(string \<Rightarrow> int option option) \<Rightarrow> int \<Rightarrow> workflow \<Rightarrow> catalog
    \<Rightarrow> string list res" where
  "rank_for_verification parse now w c = rbind (needing_verification parse now w c)
     (\<lambda>ids. ok (by_price c ids))"

definition rank :: "(string \<Rightarrow> int option option) \<Rightarrow> int \<Rightarrow> workflow \<Rightarrow> catalog \<Rightarrow> filter_result
    \<Rightarrow> string list res" where
  "rank parse now w c given = rbind (filter_candidates parse now w c) (\<lambda>current.
     rbind (check (same_filter current given) (DomainError CONFLICT 409)) (\<lambda>_.
     ok (by_price c (fr_eligible current))))"

section \<open>The portfolio search\<close>

record selector =
  sel_max_candidates :: nat
  sel_max_mappings :: nat
  sel_max_model_nodes :: nat

definition valid_selector :: "selector \<Rightarrow> bool" where
  "valid_selector s = (1 \<le> sel_max_candidates s \<and> sel_max_candidates s \<le> 12
     \<and> 1 \<le> sel_max_mappings s \<and> sel_max_mappings s \<le> 100000
     \<and> 1 \<le> sel_max_model_nodes s \<and> sel_max_model_nodes s \<le> 10)"

definition default_selector :: selector where
  "default_selector = \<lparr> sel_max_candidates = 8, sel_max_mappings = 4096, sel_max_model_nodes = 8 \<rparr>"

record stack_comparison =
  sc_configuration_ids :: "string list"
  sc_rationale :: string

definition compare :: "catalog \<Rightarrow> string list \<Rightarrow> stack_comparison res" where
  "compare c ranked = rbind (check (distinct ranked
       \<and> set ranked \<subseteq> set (map cfg_id (cat_configurations c))) (DomainError INVALID 400))
     (\<lambda>_. ok \<lparr> sc_configuration_ids = take 1 ranked,
       sc_rationale = ''selection-1.0: candidate-only view; no Workflow was supplied to this frozen port. Not an admissibility decision. First ranked configuration minimizes complexity; use compare_stacks for workload-aware bounded search.'' \<rparr>)"

text \<open>\<open>itertools.combinations(xs, k)\<close> and \<open>itertools.product(xs, repeat=n)\<close>, in their order.\<close>

fun combos :: "'a list \<Rightarrow> nat \<Rightarrow> 'a list list" where
  "combos xs 0 = [[]]"
| "combos [] (Suc k) = []"
| "combos (x # xs) (Suc k) = map ((#) x) (combos xs k) @ combos xs (Suc k)"

fun product_repeat :: "'a list \<Rightarrow> nat \<Rightarrow> 'a list list" where
  "product_repeat xs 0 = [[]]"
| "product_repeat xs (Suc n) = concat (map (\<lambda>x. map ((#) x) (product_repeat xs n)) xs)"

text \<open>A \<open>for\<close> loop that ends when its body leaves a state satisfying \<open>stop\<close>.\<close>

fun for_until :: "('s \<Rightarrow> bool) \<Rightarrow> ('a \<Rightarrow> 's \<Rightarrow> 's) \<Rightarrow> 'a list \<Rightarrow> 's \<Rightarrow> 's" where
  "for_until stop body [] s = s"
| "for_until stop body (x # xs) s =
     (let t = body x s in if stop t then t else for_until stop body xs t)"

type_synonym score = "nat \<times> nat \<times> string list"

record search =
  sr_best_score :: "score option"
  sr_best :: "string list"
  sr_searched :: nat
  sr_exhausted :: bool

definition rank_index :: "string list \<Rightarrow> string \<Rightarrow> nat" where
  "rank_index ranked i = or_default 0 (map_of (rev (zip ranked [0..<length ranked])) i)"

definition mapping_score :: "string list \<Rightarrow> nat \<Rightarrow> string list \<Rightarrow> score" where
  "mapping_score ranked k m =
     (sum_list (map (rank_index ranked) m) + 2 * (k - 1), k, m)"

definition try_mapping :: "selector \<Rightarrow> string list \<Rightarrow> nat \<Rightarrow> string list \<Rightarrow> search \<Rightarrow> search" where
  "try_mapping sel ranked k m st =
     (if length (remdups m) \<noteq> k then st
      else if sel_max_mappings sel \<le> sr_searched st then st\<lparr> sr_exhausted := True \<rparr>
      else let st = st\<lparr> sr_searched := sr_searched st + 1 \<rparr>; score = mapping_score ranked k m in
        if (case sr_best_score st of None \<Rightarrow> True | Some b \<Rightarrow> score < b)
        then st\<lparr> sr_best_score := Some score, sr_best := m \<rparr> else st)"

definition search_mappings :: "selector \<Rightarrow> string list \<Rightarrow> nat \<Rightarrow> string list \<Rightarrow> search" where
  "search_mappings sel ranked nodes considered =
     for_until sr_exhausted (\<lambda>k.
       for_until sr_exhausted (\<lambda>portfolio.
         for_until sr_exhausted (try_mapping sel ranked k) (product_repeat portfolio nodes))
       (combos considered k))
     [1..<Suc (min 3 (min nodes (length considered)))]
     \<lparr> sr_best_score = None, sr_best = [], sr_searched = 0, sr_exhausted = False \<rparr>"

definition is_model_kind :: "node_kind \<Rightarrow> bool" where
  "is_model_kind k = (k = KLlm \<or> k = KBoundedAgent)"

definition model_nodes :: "workflow \<Rightarrow> string list" where
  "model_nodes w = sort (map nd_id (filter (\<lambda>n. is_model_kind (nd_kind n)) (wf_nodes w)))"

definition assigned :: "string \<Rightarrow> string \<Rightarrow> assignment" where
  "assigned n k = \<lparr> as_node_id = n, as_configuration_id = k,
     as_reason = ''selection-1.0: evidence-gated ordinal price rank plus 2-point penalty per extra configuration; provisional quality, not expected accuracy'' \<rparr>"

text \<open>\<open>zip(nodes, best, strict=True)\<close> raises ValueError when the lengths differ.\<close>

definition search_stack :: "selector \<Rightarrow> (string \<Rightarrow> int option option) \<Rightarrow> int \<Rightarrow> workflow \<Rightarrow> catalog
    \<Rightarrow> (assignment list \<times> nat \<times> bool) res" where
  "search_stack sel parse now w c =
     (let nodes = model_nodes w in
      if nodes = [] then ok ([], 1, True)
      else if sel_max_model_nodes sel < length nodes then err UNSUPPORTED 400
      else rbind (filter_candidates parse now w c) (\<lambda>f. rbind (rank parse now w c f) (\<lambda>ranked.
        if ranked = [] then err INVALID 400
        else
          let considered = take (sel_max_candidates sel) ranked;
              st = search_mappings sel ranked (length nodes) considered in
          if length nodes \<noteq> length (sr_best st) then Inl ValueError
          else ok (map2 assigned nodes (sr_best st), sr_searched st,
                   length considered = length ranked \<and> \<not> sr_exhausted st))))"

definition stack_rationale :: "selector \<Rightarrow> nat \<Rightarrow> nat \<Rightarrow> nat \<Rightarrow> bool \<Rightarrow> string" where
  "stack_rationale sel models configs searched whole =
     ''selection-1.0; distinct models='' @ show_nat models @ '', configurations='' @ show_nat configs
     @ ''; searched mappings='' @ show_nat searched @ '', complete=''
     @ (if whole then ''yes'' else ''no'')
     @ ''; bounds: candidates='' @ show_nat (sel_max_candidates sel)
     @ '', mappings='' @ show_nat (sel_max_mappings sel)
     @ '', model stages='' @ show_nat (sel_max_model_nodes sel)
     @ '', configurations per portfolio<=3. Rules: known evidence-linked unit price before unknown, then ordinal price rank per logical model stage + 2 points per extra configuration, then stable IDs. Logical stages are not actual call counts; no quality score is estimated. Optimal only keeps_within the enumerated mappings; no claim beyond searched space. v1 offers uniform workflow-level constraints, not stage-specific capabilities or benchmark/evaluation scope.''"

definition compare_stacks :: "selector \<Rightarrow> (string \<Rightarrow> int option option) \<Rightarrow> int \<Rightarrow> workflow \<Rightarrow> catalog
    \<Rightarrow> stack_comparison res" where
  "compare_stacks sel parse now w c = rbind (search_stack sel parse now w c)
     (\<lambda>(assignments, searched, whole).
        let configs = sort (remdups (map as_configuration_id assignments));
            models = remdups (map cfg_artifact_id
              (filter (\<lambda>k. cfg_id k \<in> set configs) (cat_configurations c))) in
        ok \<lparr> sc_configuration_ids = configs,
             sc_rationale = stack_rationale sel (length models) (length configs) searched whole \<rparr>)"

text \<open>The evidence a recommendation rests on; what is selected has been assessed.\<close>

definition decisive :: "catalog \<Rightarrow> (string \<times> decision list) list \<Rightarrow> string list \<Rightarrow> string list" where
  "decisive c rows selected = sort (remdups
     (concat (map (\<lambda>i. concat (map dc_sources (or_default [] (map_of rows i)))) selected)
      @ concat (map (\<lambda>k. fact_sources (cfg_cost_per_1k_tokens k))
          (filter (\<lambda>k. cfg_id k \<in> set selected) (cat_configurations c)))))"

definition limitations :: "workflow \<Rightarrow> string \<Rightarrow> string list" where
  "limitations w rationale =
    (let others = map nd_id (filter (\<lambda>n. \<not> is_model_kind (nd_kind n)) (wf_nodes w)) in
    [rationale,
     ''Provisional: workload quality is not established. No unrelated benchmark scores were combined.'',
     ''Fallbacks omitted: v1 lacks typed fallback/retry behavior and stage-specific capability evidence; alternatives are not automatically safe fallback routes.'',
     ''Projected workflow spend unavailable: actual call/token/retry/tool/extra-component quantities are not present in v1. Unit prices are not savings or workflow costs.'',
     ''No-model stages: '' @ (if others = [] then ''none'' else join '', '' others),
     ''Unknown mandatory facts remain blocked. Catalog eligibility does not establish runtime connectivity, hardware fit, privacy approval or customer-workload quality.''])"

definition recommend :: "selector \<Rightarrow> (string \<Rightarrow> int option option) \<Rightarrow> int \<Rightarrow> workflow \<Rightarrow> catalog
    \<Rightarrow> string \<Rightarrow> recommendation res" where
  "recommend sel parse now w c i =
     rbind (search_stack sel parse now w c) (\<lambda>(assignments, _, _).
     rbind (filter_candidates parse now w c) (\<lambda>filtered.
     rbind (assess parse now w c) (\<lambda>rows.
     rbind (compare_stacks sel parse now w c) (\<lambda>summary.
     ok \<lparr> rc_id = i, rc_workflow_id = wf_id w, rc_workflow_version = wf_version w,
          rc_catalog_id = cat_id c, rc_assignments = assignments, rc_alternatives = [],
          rc_filter_result = filtered,
          rc_evidence_ids = decisive c rows (remdups (map as_configuration_id assignments)),
          rc_confidence = (if cat_synthetic c then ConfSyntheticOnly else ConfLow),
          rc_limitations = limitations w (sc_rationale summary) \<rparr>))))"

section \<open>The draft compiler\<close>

definition credential_like :: "string \<Rightarrow> bool" where
  "credential_like v = contains_any (lower v)
     [''sk-'', ''ghp_'', ''apikey'', ''api_key'', ''api-key'', ''password'', ''bearer'']"

definition provisional :: "assignment \<Rightarrow> assignment" where
  "provisional a = a\<lparr> as_reason := ''Provisional mapping; evaluate and obtain human approval before any use'' \<rparr>"

definition compile_draft :: "(string \<Rightarrow> string) \<Rightarrow> (string \<Rightarrow> int option option) \<Rightarrow> int \<Rightarrow> catalog
    \<Rightarrow> workflow \<Rightarrow> recommendation \<Rightarrow> draft_policy res" where
  "compile_draft sha256 parse now c w r =
     rbind (check ((rc_workflow_id r, rc_workflow_version r, rc_catalog_id r)
         = (wf_id w, wf_version w, cat_id c)) (DomainError CONFLICT 409)) (\<lambda>_.
     let nodes = model_nodes w; assignments = rc_assignments r in
     rbind (check (set (map as_node_id assignments) = set nodes
         \<and> length assignments = length (remdups nodes)) (DomainError INVALID 400)) (\<lambda>_.
     rbind (filter_candidates parse now w c) (\<lambda>current.
     rbind (check (same_filter current (rc_filter_result r)
         \<and> list_all (\<lambda>a. as_configuration_id a \<in> set (fr_eligible current)) assignments)
         (DomainError INVALID 400)) (\<lambda>_.
     rbind (check (length (remdups (map as_configuration_id assignments)) \<le> 3)
         (DomainError INVALID 400)) (\<lambda>_.
     rbind (check (rc_alternatives r = []) (DomainError UNSUPPORTED 400)) (\<lambda>_.
     rbind (check (\<not> list_ex credential_like (wf_id w # rc_id r
         # map as_node_id assignments @ map as_configuration_id assignments))
         (DomainError INVALID 400)) (\<lambda>_.
     ok \<lparr> dp_id = ''policy-'' @ take 32 (sha256 (rc_id r)), dp_workflow_id = wf_id w,
          dp_workflow_version = wf_version w, dp_recommendation_id = rc_id r,
          dp_assignments = map provisional assignments,
          dp_synthetic = cat_synthetic c \<rparr>)))))))"

section \<open>Cost components\<close>

definition token_component_cost :: "pyfloat fact \<Rightarrow> int fact \<Rightarrow> rat fact" where
  "token_component_cost price tokens =
     (let prov = \<lparr> prov_kind = PInference,
            prov_source = ''estimate-1.0: token component = price_per_1k * tokens / 1000, in supplied price units; currency unspecified, not total workflow spend'',
            prov_evidence_ids = sort (remdups (fact_sources price @ fact_sources tokens)) \<rparr>;
          unknown = (\<lambda>reason. \<lparr> fact_value = None, fact_prov = prov,
            fact_unknown_reason = Some reason \<rparr>) in
      case (fact_value price, fact_value tokens) of
        (Some p, Some t) \<Rightarrow> (case p of
            Finite q \<Rightarrow> if q < 0 \<or> t < 0 then unknown ''Invalid price or quantity''
              else \<lparr> fact_value = Some (q * of_int t / 1000), fact_prov = prov,
                     fact_unknown_reason = None \<rparr>
          | _ \<Rightarrow> unknown ''Invalid price or quantity'')
      | _ \<Rightarrow> unknown ''Price or token quantity missing; unavailable, not zero'')"

definition projected_workflow_spend :: "pyfloat fact" where
  "projected_workflow_spend = \<lparr> fact_value = None,
     fact_prov = \<lparr> prov_kind = PInference,
       prov_source = ''estimate-1.0: projected customer workflow spend, separate from planning/evaluation'',
       prov_evidence_ids = [] \<rparr>,
     fact_unknown_reason = Some ''v1 does not carry actual calls, tokens, retries, tool prices or extra billed components; logical stages and loop upper bounds do not establish a total budget'' \<rparr>"

section \<open>What makes a configuration eligible\<close>

definition establishes :: "catalog \<Rightarrow> 'a fact \<Rightarrow> 'a \<Rightarrow> bool" where
  "establishes c f v = (fact_value f = Some v \<and> source_valid c (fact_prov f))"

definition eligibility_of :: "catalog \<Rightarrow> candidate \<Rightarrow> eligibility option" where
  "eligibility_of c k = List.find (\<lambda>e. el_configuration_id e = cfg_id k) (cat_eligibility c)"

definition keeps_within :: "catalog \<Rightarrow> pyfloat fact \<Rightarrow> rat option \<Rightarrow> bool" where
  "keeps_within c f ceiling_at = (\<forall>m. ceiling_at = Some m \<longrightarrow> (\<exists>q. establishes c f (Finite q) \<and> 0 \<le> q \<and> q \<le> m))"

definition attested :: "(string \<Rightarrow> int option option) \<Rightarrow> int \<Rightarrow> catalog \<Rightarrow> candidate
    \<Rightarrow> (eligibility \<Rightarrow> bool) \<Rightarrow> bool" where
  "attested parse now c k P =
     (\<exists>e. eligibility_of c k = Some e \<and> eligibility_current parse now e \<and> P e)"

text \<open>Every hard requirement of a workflow, each established by current evidence.\<close>

definition admissible :: "(string \<Rightarrow> int option option) \<Rightarrow> int \<Rightarrow> workflow \<Rightarrow> catalog \<Rightarrow> candidate
    \<Rightarrow> model_artifact \<Rightarrow> bool" where
  "admissible parse now w c k a =
     (let con = wf_constraints w; q = wf_requirements w; needs = requires_parameters w in
        establishes c (art_open_weight a) True
      \<and> (\<not> cat_synthetic c \<longrightarrow> attested parse now c k (\<lambda>e.
            establishes c (el_weights_access e) True \<and> establishes c (el_license_policy e) True))
      \<and> keeps_within c (cfg_cost_per_1k_tokens k) (con_max_cost_per_1k_tokens con)
      \<and> keeps_within c (cfg_latency_ms k) (con_max_latency_ms con)
      \<and> (\<forall>r. con_required_region con = Some r \<longrightarrow> establishes c (cfg_region k) r)
      \<and> (\<forall>n\<in>set (wf_nodes w). nd_kind n \<noteq> KBoundedAgent)
      \<and> (needs \<noteq> [] \<longrightarrow> attested parse now c k (\<lambda>e.
            \<exists>ps. establishes c (el_supported_parameters e) ps \<and> set needs \<subseteq> set ps))
      \<and> (\<not> (cat_synthetic c \<and> req_input_modality q = MText) \<longrightarrow> attested parse now c k (\<lambda>e.
            \<exists>ms. establishes c (el_input_modalities e) ms
              \<and> modality_text (req_input_modality q) \<in> set ms))
      \<and> (req_deployment q \<noteq> DAny \<longrightarrow> attested parse now c k (\<lambda>e.
            establishes c (el_deployment e) (deployment_text (req_deployment q))))
      \<and> (\<forall>r\<in>set unrepresented. \<not> (\<exists>x y. prose w = x @ r @ y)))"

lemma passes_simps [simp]:
  "passes []" "passes (decide g v src # ds) \<longleftrightarrow> v = Some True \<and> passes ds"
  "passes (ds @ ds') \<longleftrightarrow> passes ds \<and> passes ds'"
  by (auto simp: passes_def decide_def)

lemma passes_open_weight:
  "passes (open_weight_gate c a # ds) \<longleftrightarrow> establishes c (art_open_weight a) True \<and> passes ds"
  by (auto simp: open_weight_gate_def establishes_def)

lemma passes_download:
  "passes [download_gate c (case el of None \<Rightarrow> False | Some e \<Rightarrow> eligibility_current parse now e) el a]
   \<longleftrightarrow> (\<exists>e. el = Some e \<and> eligibility_current parse now e
      \<and> establishes c (el_weights_access e) True \<and> establishes c (el_license_policy e) True)"
  by (auto simp: download_gate_def establishes_def split: option.splits)

lemma passes_ceiling: "passes (ceiling_gate c g f ceiling_at) \<longleftrightarrow> keeps_within c f ceiling_at"
  by (auto simp: ceiling_gate_def keeps_within_def establishes_def
      split: option.splits pyfloat.splits if_splits)

lemma passes_region:
  "passes (region_gate c f required) \<longleftrightarrow> (\<forall>r. required = Some r \<longrightarrow> establishes c f r)"
  by (auto simp: region_gate_def establishes_def split: option.splits)

lemma passes_capability:
  "passes (capability_gate c (case el of None \<Rightarrow> False | Some e \<Rightarrow> eligibility_current parse now e)
      el required)
   \<longleftrightarrow> (required \<noteq> [] \<longrightarrow> (\<exists>e. el = Some e \<and> eligibility_current parse now e
      \<and> (\<exists>ps. establishes c (el_supported_parameters e) ps \<and> set required \<subseteq> set ps)))"
  by (auto simp: capability_gate_def establishes_def split: option.splits)

lemma passes_modality:
  "passes (modality_gate c (case el of None \<Rightarrow> False | Some e \<Rightarrow> eligibility_current parse now e) el m)
   \<longleftrightarrow> (\<not> (cat_synthetic c \<and> m = MText) \<longrightarrow> (\<exists>e. el = Some e \<and> eligibility_current parse now e
      \<and> (\<exists>ms. establishes c (el_input_modalities e) ms \<and> modality_text m \<in> set ms)))"
  by (auto simp: modality_gate_def establishes_def Let_def split: option.splits)

lemma passes_deployment:
  "passes (deployment_gate c (case el of None \<Rightarrow> False | Some e \<Rightarrow> eligibility_current parse now e) el d)
   \<longleftrightarrow> (d \<noteq> DAny \<longrightarrow> (\<exists>e. el = Some e \<and> eligibility_current parse now e
      \<and> establishes c (el_deployment e) (deployment_text d)))"
  by (auto simp: deployment_gate_def establishes_def Let_def split: option.splits)

lemma passes_agent:
  "passes (if b then [decide g None src] else []) \<longleftrightarrow> \<not> b"
  by simp

lemma passes_unrepresented:
  "passes (map (\<lambda>r. decide (GUnrepresented r) None []) rs) \<longleftrightarrow> rs = []"
  by (cases rs) simp_all

lemma passes_checks:
  "passes (candidate_checks parse now w c k a) \<longleftrightarrow> admissible parse now w c k a"
  unfolding candidate_checks_def admissible_def Let_def attested_def eligibility_of_def
    append.simps passes_open_weight passes_simps(3)
  by (simp add: passes_download passes_ceiling passes_region passes_capability passes_modality
      passes_deployment passes_agent passes_unrepresented filter_empty_conv list_ex_iff
      contains_iff)

lemma traverse_Inr_map:
  "traverse f xs = Inr ys \<longleftrightarrow> map f xs = map Inr ys"
proof (induction xs arbitrary: ys)
  case Nil
  then show ?case by auto
next
  case (Cons x xs)
  show ?case
    by (cases ys) (auto simp: rbind_Inr_iff Cons.IH)
qed

lemma traverse_map:
  assumes "map f xs = map Inr ys" and "\<And>x y. f x = Inr y \<Longrightarrow> g y = h x"
  shows "map g ys = map h xs"
  using assms(1) by (induction xs arbitrary: ys) (auto simp: Cons_eq_map_conv dest!: assms(2))

lemma assess_one_Inr:
  "assess_one parse now w c k = Inr y \<longleftrightarrow>
   (\<exists>a. art_by_id c (cfg_artifact_id k) = Some a \<and> y = (cfg_id k, candidate_checks parse now w c k a))"
  by (auto simp: assess_one_def split: option.splits)

lemma assess_rows:
  assumes "assess parse now w c = Inr rows"
  shows "map fst rows = map cfg_id (sort_key cfg_id (cat_configurations c))"
    and "set (map Inr rows) = assess_one parse now w c ` set (cat_configurations c)"
proof -
  let ?ks = "sort_key cfg_id (cat_configurations c)"
  have rows: "map (assess_one parse now w c) ?ks = map Inr rows"
    using assms unfolding assess_def traverse_Inr_map .
  show "map fst rows = map cfg_id ?ks"
    by (rule traverse_map [OF rows]) (auto simp: assess_one_Inr)
  show "set (map Inr rows) = assess_one parse now w c ` set (cat_configurations c)"
    unfolding rows [symmetric] by simp
qed

lemma assess_member:
  assumes rows: "assess parse now w c = Inr rows"
  shows "(i, ds) \<in> set rows \<longleftrightarrow> (\<exists>k a. k \<in> set (cat_configurations c) \<and> cfg_id k = i
     \<and> art_by_id c (cfg_artifact_id k) = Some a \<and> ds = candidate_checks parse now w c k a)"
proof -
  have "(i, ds) \<in> set rows \<longleftrightarrow> (Inr (i, ds) :: (string \<times> decision list) res) \<in> set (map Inr rows)"
    by (simp add: image_iff)
  also have "\<dots> \<longleftrightarrow> (\<exists>k\<in>set (cat_configurations c). assess_one parse now w c k = Inr (i, ds))"
    unfolding assess_rows(2) [OF rows] by (auto simp: image_iff eq_commute)
  finally show ?thesis
    by (auto simp: assess_one_Inr)
qed

lemma filter_candidates_Inr:
  assumes "filter_candidates parse now w c = Inr r"
  obtains rows where "assess parse now w c = Inr rows"
    and "fr_eligible r = map fst (filter (\<lambda>(_, ds). passes ds) rows)"
    and "fr_excluded r = map (\<lambda>(i, ds). (i, map exclusion (filter (\<lambda>d. dc_value d \<noteq> Some True) ds)))
            (filter (\<lambda>(i, _). i \<notin> set (fr_eligible r)) rows)"
  using assms by (auto simp: filter_candidates_def rbind_Inr_iff Let_def)

lemma eligible_iff:
  assumes r: "filter_candidates parse now w c = Inr r"
    and ids: "distinct (map cfg_id (cat_configurations c))"
    and k: "k \<in> set (cat_configurations c)"
  shows "cfg_id k \<in> set (fr_eligible r) \<longleftrightarrow>
    (\<exists>a. art_by_id c (cfg_artifact_id k) = Some a \<and> admissible parse now w c k a)"
proof -
  from r obtain rows where rows: "assess parse now w c = Inr rows"
    and eligible: "fr_eligible r = map fst (filter (\<lambda>(_, ds). passes ds) rows)"
    by (rule filter_candidates_Inr)
  have same: "k' = k" if "k' \<in> set (cat_configurations c)" "cfg_id k' = cfg_id k" for k'
    using ids k that by (auto simp: distinct_map inj_on_def)
  have "cfg_id k \<in> set (fr_eligible r) \<longleftrightarrow> (\<exists>ds. (cfg_id k, ds) \<in> set rows \<and> passes ds)"
    unfolding eligible by force
  also have "\<dots> \<longleftrightarrow> (\<exists>a. art_by_id c (cfg_artifact_id k) = Some a
      \<and> passes (candidate_checks parse now w c k a))"
    unfolding assess_member [OF rows] using k same by metis
  finally show ?thesis
    by (simp add: passes_checks)
qed

lemma eligible_known:
  assumes r: "filter_candidates parse now w c = Inr r"
  shows "set (fr_eligible r) \<subseteq> cfg_id ` set (cat_configurations c)"
proof -
  from r obtain rows where rows: "assess parse now w c = Inr rows"
    and eligible: "fr_eligible r = map fst (filter (\<lambda>(_, ds). passes ds) rows)"
    by (rule filter_candidates_Inr)
  have "set (fr_eligible r) \<subseteq> set (map fst rows)"
    unfolding eligible by auto
  also have "\<dots> = cfg_id ` set (cat_configurations c)"
    unfolding assess_rows(1) [OF rows] by simp
  finally show ?thesis .
qed

lemma filter_partition:
  assumes r: "filter_candidates parse now w c = Inr r"
  shows "set (dict_keys (fr_excluded r))
    = cfg_id ` set (cat_configurations c) - set (fr_eligible r)"
proof -
  from r obtain rows where rows: "assess parse now w c = Inr rows"
    and excluded: "fr_excluded r = map (\<lambda>(i, ds).
            (i, map exclusion (filter (\<lambda>d. dc_value d \<noteq> Some True) ds)))
            (filter (\<lambda>(i, _). i \<notin> set (fr_eligible r)) rows)"
    by (rule filter_candidates_Inr)
  have "set (map fst rows) = cfg_id ` set (cat_configurations c)"
    unfolding assess_rows(1) [OF rows] by simp
  moreover have "dict_keys (fr_excluded r) = filter (\<lambda>i. i \<notin> set (fr_eligible r)) (map fst rows)"
    unfolding excluded by (simp add: filter_map comp_def case_prod_unfold)
  ultimately show ?thesis
    by auto
qed

section \<open>The rank\<close>

lemma same_filter_refl [simp]: "same_filter r r"
  by (simp add: same_filter_def list_all_iff)

lemma by_price_facts:
  assumes "distinct (map cfg_id (cat_configurations c))"
  shows "distinct (by_price c ids)"
    and "set (by_price c ids) = cfg_id ` {k \<in> set (cat_configurations c). cfg_id k \<in> set ids}"
proof -
  let ?ks = "filter (\<lambda>k. cfg_id k \<in> set ids) (cat_configurations c)"
  have "distinct (map cfg_id ?ks)"
    using assms by (rule distinct_map_filter)
  then have inj: "inj_on cfg_id (set ?ks)" and "distinct ?ks"
    by (simp_all add: distinct_map)
  then show "distinct (by_price c ids)"
    by (simp add: by_price_def distinct_map)
  show "set (by_price c ids) = cfg_id ` {k \<in> set (cat_configurations c). cfg_id k \<in> set ids}"
    by (auto simp: by_price_def)
qed

lemma rank_of_filter:
  assumes "filter_candidates parse now w c = Inr r"
  shows "rank parse now w c r = Inr (by_price c (fr_eligible r))"
  using assms by (simp add: rank_def)

lemma rank_Inr:
  assumes "rank parse now w c given = Inr ids"
  obtains r where "filter_candidates parse now w c = Inr r" and "same_filter r given"
    and "ids = by_price c (fr_eligible r)"
  using assms by (auto simp: rank_def rbind_Inr_iff)

lemma by_price_eligible:
  assumes "filter_candidates parse now w c = Inr r"
    and "distinct (map cfg_id (cat_configurations c))"
  shows "set (by_price c (fr_eligible r)) = set (fr_eligible r)"
  using by_price_facts(2) [OF assms(2)] eligible_known [OF assms(1)] by auto

section \<open>What the search finds\<close>

lemma for_until_keeps:
  assumes "\<And>x s. x \<in> set xs \<Longrightarrow> P s \<Longrightarrow> P (body x s)" and "P s"
  shows "P (for_until stop body xs s)"
  using assms by (induction xs arbitrary: s) (simp_all add: Let_def)

lemma for_until_first:
  assumes "\<And>x t. x \<in> set xs \<Longrightarrow> P t \<Longrightarrow> P (body x t)" and "P (body x s)"
  shows "P (for_until stop body (x # xs) s)"
  using assms for_until_keeps [of xs P body] by (simp add: Let_def)

lemma combos_elements: "p \<in> set (combos xs k) \<Longrightarrow> x \<in> set p \<Longrightarrow> x \<in> set xs"
  by (induction xs k arbitrary: p rule: combos.induct) fastforce+

lemma combos_subset: "p \<in> set (combos xs k) \<Longrightarrow> set p \<subseteq> set xs"
  using combos_elements by fastforce

lemma product_repeat_elements:
  "m \<in> set (product_repeat xs n) \<Longrightarrow> length m = n \<and> set m \<subseteq> set xs"
proof (induction n arbitrary: m)
  case (Suc n)
  then obtain x m' where "m = x # m'" and "x \<in> set xs" and "m' \<in> set (product_repeat xs n)"
    by auto
  then show ?case
    using Suc.IH [of m'] by simp
qed simp

lemma product_repeat_single: "product_repeat [x] n = [replicate n x]"
  by (induction n) simp_all

lemma map_of_rev_distinct: "distinct (map fst ps) \<Longrightarrow> map_of (rev ps) = map_of ps"
  by (simp add: map_of_inject_set rev_map [symmetric])

lemma rank_index_hd: "distinct (x # xs) \<Longrightarrow> rank_index (x # xs) x = 0"
proof -
  assume "distinct (x # xs)"
  then have "map_of (rev (zip (x # xs) [0..<length (x # xs)])) = map_of (zip (x # xs) [0..<length (x # xs)])"
    by (intro map_of_rev_distinct) simp
  then show ?thesis
    by (simp add: rank_index_def upt_conv_Cons del: upt_Suc)
qed

lemma rank_index_zero:
  assumes d: "distinct ranked" and i: "i \<in> set ranked" and zero: "rank_index ranked i = 0"
  shows "i = hd ranked"
proof -
  obtain j where j: "j < length ranked" "ranked ! j = i"
    using i by (auto simp: in_set_conv_nth)
  let ?z = "zip ranked [0..<length ranked]"
  have "(i, j) \<in> set ?z"
    using j by (auto simp: set_zip)
  moreover have "distinct (map fst ?z)"
    using d by simp
  moreover have "map_of (rev ?z) = map_of ?z"
    using d by (intro map_of_rev_distinct) simp
  ultimately have "map_of (rev ?z) i = Some j"
    by (metis map_of_is_SomeI)
  then have "rank_index ranked i = j"
    by (simp add: rank_index_def)
  then show ?thesis
    using zero j by (cases ranked) auto
qed

text \<open>No mapping beats the one that gives every stage the first-ranked configuration.\<close>

lemma score_minimal:
  assumes d: "distinct ranked" and m: "set m \<subseteq> set ranked"
  shows "\<not> mapping_score ranked (Suc k) m < (0, 1, replicate (length m) (hd ranked))"
proof
  assume less: "mapping_score ranked (Suc k) m < (0, 1, replicate (length m) (hd ranked))"
  then have "sum_list (map (rank_index ranked) m) = 0" and k: "k = 0"
    and m_less: "m < replicate (length m) (hd ranked)"
    by (auto simp: mapping_score_def less_prod_def)
  then have "\<forall>i\<in>set m. rank_index ranked i = 0"
    by simp
  then have "\<forall>i\<in>set m. i = hd ranked"
    using rank_index_zero [OF d] m by blast
  then have "m = replicate (length m) (hd ranked)"
    by (simp add: replicate_length_same)
  then show False
    using m_less by simp
qed

definition found :: "string list \<Rightarrow> nat \<Rightarrow> search \<Rightarrow> bool" where
  "found ranked n st = (sr_best st = replicate n (hd ranked)
     \<and> sr_best_score st = Some (0, 1, replicate n (hd ranked)))"

lemma try_keeps_found:
  assumes "distinct ranked" and "found ranked n st" and "length m = n" and "set m \<subseteq> set ranked"
  shows "found ranked n (try_mapping sel ranked (Suc k) m st)"
  using assms score_minimal [of ranked m k] by (auto simp: found_def try_mapping_def Let_def)

lemma try_first:
  assumes "distinct (x # xs)" and "0 < n" and "1 \<le> sel_max_mappings sel"
    and "sr_searched st = 0" and "sr_best_score st = None"
  shows "found (x # xs) n (try_mapping sel (x # xs) 1 (replicate n x) st)"
  using assms rank_index_hd [OF assms(1)]
  by (simp add: found_def try_mapping_def Let_def mapping_score_def length_remdups_card_conv
      sum_list_replicate)

lemma search_finds_first:
  assumes d: "distinct ranked" and some: "ranked \<noteq> []" and n: "0 < n"
    and sel: "valid_selector sel"
  shows "found ranked n (search_mappings sel ranked n (take (sel_max_candidates sel) ranked))"
proof -
  let ?c = "take (sel_max_candidates sel) ranked"
  let ?s = "\<lparr> sr_best_score = None, sr_best = [], sr_searched = 0, sr_exhausted = False \<rparr>"
  obtain x xs where ranked: "ranked = x # xs"
    using some by (cases ranked) auto
  obtain ys where c: "?c = x # ys"
    using sel unfolding ranked valid_selector_def by (cases "sel_max_candidates sel") auto
  have within: "set ?c \<subseteq> set ranked"
    by (rule set_take_subset)
  have mappings: "found ranked n (for_until sr_exhausted (try_mapping sel ranked (Suc k)) ms t)"
    if "found ranked n t" and "\<And>m. m \<in> set ms \<Longrightarrow> length m = n \<and> set m \<subseteq> set ranked" for k ms t
    by (rule for_until_keeps [where P = "found ranked n"]) (use that try_keeps_found [OF d] in auto)
  have portfolio: "found ranked n (for_until sr_exhausted (try_mapping sel ranked (Suc k))
      (product_repeat p n) t)" if "found ranked n t" and "p \<in> set (combos ?c j)" for k j p t
  proof (rule mappings [OF that(1)])
    fix m assume "m \<in> set (product_repeat p n)"
    then show "length m = n \<and> set m \<subseteq> set ranked"
      using product_repeat_elements [of m p n] combos_subset [OF that(2)] within by auto
  qed
  have sizes: "[1..<Suc (min 3 (min n (length ?c)))] = 1 # [2..<Suc (min 3 (min n (length ?c)))]"
    using n unfolding c by (subst upt_conv_Cons) (auto simp: numeral_2_eq_2)
  obtain ps where ones: "combos ?c 1 = [x] # ps"
    unfolding c by simp
  have first: "found ranked n (for_until sr_exhausted (\<lambda>p.
      for_until sr_exhausted (try_mapping sel ranked 1) (product_repeat p n)) (combos ?c 1) ?s)"
    unfolding ones
  proof (rule for_until_first [where P = "found ranked n"])
    show "found ranked n (for_until sr_exhausted (try_mapping sel ranked 1) (product_repeat [x] n) ?s)"
      unfolding product_repeat_single
      using try_first [of x xs n sel ?s] d n sel by (simp add: ranked valid_selector_def Let_def)
    show "found ranked n (for_until sr_exhausted (try_mapping sel ranked 1) (product_repeat p n) t)"
      if "p \<in> set ps" and "found ranked n t" for p t
      using portfolio [OF that(2), of p 1 0] that(1) by (simp add: ones [simplified])
  qed
  show ?thesis
    unfolding search_mappings_def sizes
  proof (rule for_until_first [where P = "found ranked n"], goal_cases)
    case 2
    show ?case by (rule first)
  next
    case (1 k t)
    then have "k \<in> set [2..<Suc (min 3 (min n (length ?c)))]" and t: "found ranked n t"
      by simp_all
    then have "0 < k"
      unfolding set_upt by simp
    then obtain j where k: "k = Suc j"
      using gr0_conv_Suc by blast
    show ?case
      unfolding k by (rule for_until_keeps [where P = "found ranked n", OF _ t]) (rule portfolio)
  qed
qed

lemma search_stack_first:
  assumes run: "search_stack sel parse now w c = Inr (assignments, searched, whole)"
    and sel: "valid_selector sel" and ids: "distinct (map cfg_id (cat_configurations c))"
    and stages: "model_nodes w \<noteq> []"
  obtains f where "filter_candidates parse now w c = Inr f" and "fr_eligible f \<noteq> []"
    and "by_price c (fr_eligible f) \<noteq> []"
    and "assignments = map (\<lambda>n. assigned n (hd (by_price c (fr_eligible f)))) (model_nodes w)"
proof -
  let ?n = "length (model_nodes w)"
  from run stages obtain f ranked where f: "filter_candidates parse now w c = Inr f"
    and ranked: "rank parse now w c f = Inr ranked" and some: "ranked \<noteq> []"
    and result: "assignments = map2 assigned (model_nodes w)
      (sr_best (search_mappings sel ranked ?n (take (sel_max_candidates sel) ranked)))"
    by (auto simp: search_stack_def rbind_Inr_iff Let_def split: if_splits)
  have price: "ranked = by_price c (fr_eligible f)"
    using ranked rank_of_filter [OF f] by simp
  have d: "distinct ranked"
    unfolding price by (rule by_price_facts(1) [OF ids])
  have "sr_best (search_mappings sel ranked ?n (take (sel_max_candidates sel) ranked))
      = replicate ?n (hd ranked)"
    using search_finds_first [OF d some _ sel, of ?n] stages by (simp add: found_def)
  then have "assignments = map (\<lambda>n. assigned n (hd ranked)) (model_nodes w)"
    unfolding result by (simp add: zip_replicate2 comp_def)
  moreover have "fr_eligible f \<noteq> []"
    using some by (auto simp: price by_price_def)
  ultimately show thesis
    using that f some price by simp
qed

lemma search_stack_eligible:
  assumes run: "search_stack sel parse now w c = Inr (assignments, searched, whole)"
    and sel: "valid_selector sel" and ids: "distinct (map cfg_id (cat_configurations c))"
  shows "map as_node_id assignments = model_nodes w"
    and "filter_candidates parse now w c = Inr f \<Longrightarrow>
         set (map as_configuration_id assignments) \<subseteq> set (fr_eligible f)"
    and "length (remdups (map as_configuration_id assignments)) \<le> 1"
proof -
  have "map as_node_id assignments = model_nodes w
    \<and> (filter_candidates parse now w c = Inr f \<longrightarrow>
         set (map as_configuration_id assignments) \<subseteq> set (fr_eligible f))
    \<and> card (set (map as_configuration_id assignments)) \<le> 1"
  proof (cases "model_nodes w = []")
    case True
    then show ?thesis
      using run by (simp add: search_stack_def)
  next
    case False
    then obtain g where g: "filter_candidates parse now w c = Inr g"
      and ne: "by_price c (fr_eligible g) \<noteq> []"
      and as: "assignments = map (\<lambda>n. assigned n (hd (by_price c (fr_eligible g)))) (model_nodes w)"
      by (rule search_stack_first [OF run sel ids])
    let ?k = "hd (by_price c (fr_eligible g))"
    have k: "?k \<in> set (fr_eligible g)"
      using hd_in_set [OF ne] by_price_eligible [OF g ids] by simp
    have sub: "set (map as_configuration_id assignments) \<subseteq> {?k}"
      unfolding as by (auto simp: assigned_def)
    have "map as_node_id assignments = model_nodes w"
      unfolding as by (simp add: assigned_def comp_def)
    moreover have "card (set (map as_configuration_id assignments)) \<le> 1"
      using card_mono [OF _ sub] by simp
    moreover have "set (map as_configuration_id assignments) \<subseteq> set (fr_eligible f)"
      if "filter_candidates parse now w c = Inr f"
      using subset_trans [OF sub, of "set (fr_eligible f)"] k that g by simp
    ultimately show ?thesis
      by blast
  qed
  then show "map as_node_id assignments = model_nodes w"
    and "filter_candidates parse now w c = Inr f \<Longrightarrow>
         set (map as_configuration_id assignments) \<subseteq> set (fr_eligible f)"
    and "length (remdups (map as_configuration_id assignments)) \<le> 1"
    by (simp_all add: length_remdups_card_conv)
qed

section \<open>Properties\<close>

text \<open>
  C24. A configuration is eligible for a workflow exactly when its artifact is in the
  catalog and every hard requirement is established by evidence that is current at the
  time of the call: open weights, download and licence, both ceilings, the region, the
  capabilities, the modality and the deployment; nothing the contract cannot represent
  may be required, and unknown never counts as satisfied.
\<close>

theorem eligible_iff_admissible:
  assumes "filter_candidates parse now w c = Inr r"
    and "distinct (map cfg_id (cat_configurations c))"
    and "k \<in> set (cat_configurations c)"
  shows "cfg_id k \<in> set (fr_eligible r) \<longleftrightarrow>
    (\<exists>a. art_by_id c (cfg_artifact_id k) = Some a \<and> admissible parse now w c k a)"
  using assms by (rule eligible_iff)

text \<open>
  C26. The portfolio search over combinations of configurations always ends with the
  uniform stack: every model stage is given the eligible configuration that is first by
  known price and then by identifier, whatever the bounds of the selector.
\<close>

theorem search_picks_first_ranked:
  assumes "search_stack sel parse now w c = Inr (assignments, searched, whole)"
    and "valid_selector sel" and "distinct (map cfg_id (cat_configurations c))"
    and "model_nodes w \<noteq> []"
  shows "\<exists>f k. filter_candidates parse now w c = Inr f
    \<and> k \<in> set (cat_configurations c) \<and> cfg_id k \<in> set (fr_eligible f)
    \<and> (\<forall>k'\<in>set (cat_configurations c). cfg_id k' \<in> set (fr_eligible f) \<longrightarrow>
         price_key c k \<le> price_key c k')
    \<and> assignments = map (\<lambda>n. assigned n (cfg_id k)) (model_nodes w)"
proof -
  from assms(4) obtain f where f: "filter_candidates parse now w c = Inr f"
    and ne: "by_price c (fr_eligible f) \<noteq> []"
    and as: "assignments = map (\<lambda>n. assigned n (hd (by_price c (fr_eligible f)))) (model_nodes w)"
    by (rule search_stack_first [OF assms(1-3)])
  define ks where "ks = sort_key (price_key c)
     (filter (\<lambda>k. cfg_id k \<in> set (fr_eligible f)) (cat_configurations c))"
  have "ks \<noteq> []" and first: "hd (by_price c (fr_eligible f)) = cfg_id (hd ks)"
    using ne by (auto simp: by_price_def ks_def hd_map)
  then obtain k ks' where ks: "ks = k # ks'"
    by (cases ks) auto
  have all: "set ks = {k \<in> set (cat_configurations c). cfg_id k \<in> set (fr_eligible f)}"
    by (auto simp: ks_def)
  have "sorted (map (price_key c) ks)"
    by (simp add: ks_def)
  then have "\<forall>k'\<in>set ks. price_key c k \<le> price_key c k'"
    unfolding ks by auto
  then have "\<forall>k'\<in>set (cat_configurations c). cfg_id k' \<in> set (fr_eligible f) \<longrightarrow>
         price_key c k \<le> price_key c k'"
    using all by auto
  moreover have "k \<in> set (cat_configurations c) \<and> cfg_id k \<in> set (fr_eligible f)"
    using all ks by auto
  ultimately show ?thesis
    using f as first by (intro exI [of _ f] exI [of _ k]) (simp add: ks)
qed

text \<open>
  C27. What the selector recommends, the compiler accepts at the same instant: unless an
  identifier looks like a credential, the draft policy names the same stages and the
  same configurations, and is bound to the recommendation, workflow and version.
\<close>

theorem recommendation_compiles:
  assumes run: "recommend sel parse now w c i = Inr r" and sel: "valid_selector sel"
    and ids: "distinct (map cfg_id (cat_configurations c))"
    and nodes: "distinct (map nd_id (wf_nodes w))"
    and clean: "\<not> list_ex credential_like (wf_id w # i
      # map as_node_id (rc_assignments r) @ map as_configuration_id (rc_assignments r))"
  shows "\<exists>p. compile_draft sha256 parse now c w r = Inr p
    \<and> dp_assignments p = map provisional (rc_assignments r)
    \<and> (dp_workflow_id p, dp_workflow_version p, dp_recommendation_id p)
      = (wf_id w, wf_version w, i)"
proof -
  from run obtain searched whole f where
      search: "search_stack sel parse now w c = Inr (rc_assignments r, searched, whole)"
    and f: "filter_candidates parse now w c = Inr f" and same: "rc_filter_result r = f"
    and bound: "rc_id r = i" "rc_workflow_id r = wf_id w" "rc_workflow_version r = wf_version w"
      "rc_catalog_id r = cat_id c" "rc_alternatives r = []"
    by (auto simp: recommend_def rbind_Inr_iff)
  note stack = search_stack_eligible [OF search sel ids]
  have "distinct (model_nodes w)"
    using nodes by (simp add: model_nodes_def distinct_map_filter)
  then have "length (rc_assignments r) = length (remdups (model_nodes w))"
    using arg_cong [OF stack(1), of length] by (simp add: distinct_remdups_id)
  moreover have "as_node_id ` set (rc_assignments r) = set (model_nodes w)"
    using arg_cong [OF stack(1), of set] by simp
  moreover have "list_all (\<lambda>a. as_configuration_id a \<in> set (fr_eligible f)) (rc_assignments r)"
    using stack(2) [OF f] by (auto simp: list_all_iff)
  moreover have "length (remdups (map as_configuration_id (rc_assignments r))) \<le> 3"
    using stack(3) by simp
  ultimately show ?thesis
    using clean f by (simp add: compile_draft_def Let_def bound same)
qed

text \<open>
  C25. A draft policy is only ever compiled from admissible assignments: each model stage
  has exactly one, and each names a configuration that every hard requirement of the
  workflow admits at the moment of compilation, however old the recommendation is.
\<close>

theorem compiled_draft_admissible:
  assumes run: "compile_draft sha256 parse now c w r = Inr p"
    and ids: "distinct (map cfg_id (cat_configurations c))"
    and nodes: "distinct (map nd_id (wf_nodes w))"
  shows "distinct (map as_node_id (dp_assignments p))
    \<and> set (map as_node_id (dp_assignments p)) = set (model_nodes w)
    \<and> (\<forall>a\<in>set (dp_assignments p). \<exists>k\<in>set (cat_configurations c). \<exists>m.
         cfg_id k = as_configuration_id a \<and> art_by_id c (cfg_artifact_id k) = Some m
         \<and> admissible parse now w c k m)"
proof -
  from run obtain f where f: "filter_candidates parse now w c = Inr f"
    and here: "set (map as_node_id (rc_assignments r)) = set (model_nodes w)"
      "length (rc_assignments r) = length (remdups (model_nodes w))"
    and el: "\<forall>a\<in>set (rc_assignments r). as_configuration_id a \<in> set (fr_eligible f)"
    and p: "dp_assignments p = map provisional (rc_assignments r)"
    by (auto simp: compile_draft_def rbind_Inr_iff Let_def list_all_iff)
  have "card (set (map as_node_id (rc_assignments r))) = length (map as_node_id (rc_assignments r))"
    unfolding here(1) by (simp add: here(2) length_remdups_card_conv)
  then have "distinct (map as_node_id (rc_assignments r))"
    by (rule card_distinct)
  moreover have "\<exists>k\<in>set (cat_configurations c). \<exists>m. cfg_id k = as_configuration_id a
      \<and> art_by_id c (cfg_artifact_id k) = Some m \<and> admissible parse now w c k m"
    if a: "a \<in> set (rc_assignments r)" for a
  proof -
    have "as_configuration_id a \<in> cfg_id ` set (cat_configurations c)"
      using el a eligible_known [OF f] by auto
    then obtain k where k: "k \<in> set (cat_configurations c)" "cfg_id k = as_configuration_id a"
      by auto
    then show ?thesis
      using eligible_iff [OF f ids k(1)] el a by auto
  qed
  ultimately show ?thesis
    using here(1) by (auto simp: p provisional_def comp_def)
qed

section \<open>An example\<close>

definition ex_fact :: "'a \<Rightarrow> 'a fact" where
  "ex_fact v = \<lparr> fact_value = Some v, fact_prov = ex_prov, fact_unknown_reason = None \<rparr>"

definition ex_candidate :: "string \<Rightarrow> rat \<Rightarrow> candidate" where
  "ex_candidate i price = \<lparr> cfg_id = i, cfg_artifact_id = ''m'', cfg_provider = ex_fact ''p'',
     cfg_region = ex_fact ''eu'', cfg_quantization = ex_fact ''q8'', cfg_hardware = ex_fact ''h'',
     cfg_prompt_template_ref = ''t'', cfg_harness_ref = ''h'', cfg_reasoning_budget = ex_fact 0,
     cfg_cost_per_1k_tokens = ex_fact (Finite price), cfg_latency_ms = ex_fact (Finite 10),
     cfg_prov = ex_prov \<rparr>"

definition ex_catalog :: catalog where
  "ex_catalog = \<lparr> cat_id = ''c'',
     cat_artifacts = [\<lparr> art_id = ''m'', art_name = ''M'', art_revision = ''1'',
        art_open_weight = ex_fact True, art_license = ex_fact ''mit'', art_prov = ex_prov \<rparr>],
     cat_configurations = [ex_candidate ''a'' 3, ex_candidate ''b'' 2],
     cat_evidence = [\<lparr> ev_id = ''ev1'', ev_title = ''t'', ev_claim = ''c'', ev_source_url = None,
        ev_captured_at = ''now'', ev_prov = ex_prov \<rparr>],
     cat_synthetic = True, cat_eligibility = [], cat_intelligence = [], cat_performance = [] \<rparr>"

lemma ex_filter: "filter_candidates (\<lambda>_. None) 0 ex_workflow ex_catalog
    = Inr \<lparr> fr_eligible = [''a'', ''b''], fr_excluded = [] \<rparr>"
  by code_simp

lemma ex_search: "search_stack default_selector (\<lambda>_. None) 0 ex_workflow ex_catalog
    = Inr ([assigned ''ask'' ''b''], 2, True)"
  by code_simp

lemma ex_nodes: "model_nodes ex_workflow = [''ask'']"
  by code_simp

lemma ex_distinct: "distinct (map cfg_id (cat_configurations ex_catalog))"
    "distinct (map nd_id (wf_nodes ex_workflow))" "valid_selector default_selector"
  by (code_simp, code_simp, simp add: valid_selector_def default_selector_def)

lemma ex_recommend: obtains r where
    "recommend default_selector (\<lambda>_. None) 0 ex_workflow ex_catalog ''r'' = Inr r"
    and "rc_assignments r = [assigned ''ask'' ''b'']"
proof -
  obtain rows where "assess (\<lambda>_. None) 0 ex_workflow ex_catalog = Inr rows"
    using ex_filter by (rule filter_candidates_Inr)
  moreover obtain stack where
    "compare_stacks default_selector (\<lambda>_. None) 0 ex_workflow ex_catalog = Inr stack"
    by (simp add: compare_stacks_def ex_search Let_def del: show_nat.simps)
  ultimately show thesis
    using that by (simp add: recommend_def ex_search ex_filter)
qed

lemma ex_clean: "\<not> list_ex credential_like (wf_id ex_workflow # ''r''
    # map as_node_id [assigned ''ask'' ''b''] @ map as_configuration_id [assigned ''ask'' ''b''])"
  by code_simp

theorem eligible_iff_admissible_witness:
  "admissible (\<lambda>_. None) 0 ex_workflow ex_catalog (ex_candidate ''b'' 2)
     (hd (cat_artifacts ex_catalog))"
proof -
  have "ex_candidate ''b'' 2 \<in> set (cat_configurations ex_catalog)"
    by (simp add: ex_catalog_def)
  moreover have "art_by_id ex_catalog (cfg_artifact_id (ex_candidate ''b'' 2))
      = Some (hd (cat_artifacts ex_catalog))"
    by code_simp
  ultimately show ?thesis
    using eligible_iff_admissible [OF ex_filter ex_distinct(1), of "ex_candidate ''b'' 2"]
    by (simp add: ex_candidate_def)
qed

theorem search_picks_first_ranked_witness:
  "\<exists>f k. filter_candidates (\<lambda>_. None) 0 ex_workflow ex_catalog = Inr f
    \<and> k \<in> set (cat_configurations ex_catalog) \<and> cfg_id k \<in> set (fr_eligible f)
    \<and> [assigned ''ask'' ''b''] = [assigned ''ask'' (cfg_id k)]"
  using search_picks_first_ranked [OF ex_search ex_distinct(3) ex_distinct(1)]
  by (auto simp: ex_nodes)

theorem recommendation_compiles_witness:
  "\<exists>r p. recommend default_selector (\<lambda>_. None) 0 ex_workflow ex_catalog ''r'' = Inr r
    \<and> compile_draft (\<lambda>s. s) (\<lambda>_. None) 0 ex_catalog ex_workflow r = Inr p
    \<and> dp_assignments p = [provisional (assigned ''ask'' ''b'')]"
proof -
  obtain r where r: "recommend default_selector (\<lambda>_. None) 0 ex_workflow ex_catalog ''r'' = Inr r"
    and a: "rc_assignments r = [assigned ''ask'' ''b'']"
    by (rule ex_recommend)
  show ?thesis
    using recommendation_compiles [OF r ex_distinct(3,1,2), of "\<lambda>s. s"] ex_clean r
    unfolding a by auto
qed

definition ex_recommendation :: recommendation where
  "ex_recommendation = \<lparr> rc_id = ''r'', rc_workflow_id = ''w'', rc_workflow_version = 1,
     rc_catalog_id = ''c'', rc_assignments = [assigned ''ask'' ''a''], rc_alternatives = [],
     rc_filter_result = \<lparr> fr_eligible = [''a'', ''b''], fr_excluded = [] \<rparr>,
     rc_evidence_ids = [], rc_confidence = ConfLow, rc_limitations = [] \<rparr>"

theorem compiled_draft_admissible_witness:
  "\<exists>p. compile_draft (\<lambda>s. s) (\<lambda>_. None) 0 ex_catalog ex_workflow ex_recommendation = Inr p
    \<and> set (map as_node_id (dp_assignments p)) = {''ask''}"
proof -
  have "is_ok (compile_draft (\<lambda>s. s) (\<lambda>_. None) 0 ex_catalog ex_workflow ex_recommendation)"
    by code_simp
  then obtain p where
      p: "compile_draft (\<lambda>s. s) (\<lambda>_. None) 0 ex_catalog ex_workflow ex_recommendation = Inr p"
    unfolding is_ok_iff by blast
  then show ?thesis
    using compiled_draft_admissible [OF p ex_distinct(1,2)] by (simp add: ex_nodes)
qed

end
