(* ===== verification/Optimization.thy ===== *)
theory Optimization
  imports Selection
begin

text \<open>
  \<open>intelligence/optimization.py\<close> and the contracts of \<open>routing_contracts.py\<close> it
  works on: task-scoped hard gates, the normalised utility, Pareto efficiency and the
  decision of one stage.  The clock the selection engine reads by itself is the
  argument \<open>clock\<close>, the caller's \<open>now\<close> is \<open>now\<close>.
\<close>

section \<open>Contracts\<close>

datatype objective = ObQuality | ObLatency | ObCost | ObThroughput | ObPrivacy | ObReliability
  | ObCapability

definition objective_text :: "objective \<Rightarrow> string" where
  "objective_text k = (case k of ObQuality \<Rightarrow> ''quality'' | ObLatency \<Rightarrow> ''latency''
     | ObCost \<Rightarrow> ''cost'' | ObThroughput \<Rightarrow> ''throughput'' | ObPrivacy \<Rightarrow> ''privacy''
     | ObReliability \<Rightarrow> ''reliability'' | ObCapability \<Rightarrow> ''capability'')"

record router_policy =
  rp_id :: string
  rp_version :: int
  rp_weights :: "(objective \<times> rat) list"
  rp_unknown_penalty :: rat
  rp_estimated_discount :: rat
  rp_clear_margin :: rat
  rp_minimum_samples :: int
  rp_circuit_failures :: int
  rp_circuit_cooldown_seconds :: int

definition valid_weights :: "router_policy \<Rightarrow> bool" where
  "valid_weights p = (let vs = map snd (rp_weights p) in
     \<not> (rp_weights p = [] \<or> list_ex (\<lambda>v. v < 0 \<or> 1 < v) vs \<or> sum_list vs \<le> 0))"

definition valid_router_policy :: "router_policy \<Rightarrow> bool" where
  "valid_router_policy p = (is_identifier (rp_id p) \<and> 1 \<le> rp_version p
     \<and> distinct (map fst (rp_weights p)) \<and> valid_weights p
     \<and> 0 \<le> rp_unknown_penalty p \<and> rp_unknown_penalty p \<le> 1
     \<and> 0 \<le> rp_estimated_discount p \<and> rp_estimated_discount p \<le> 1
     \<and> 0 \<le> rp_clear_margin p \<and> rp_clear_margin p \<le> 1 \<and> 1 \<le> rp_minimum_samples p
     \<and> 1 \<le> rp_circuit_failures p \<and> rp_circuit_failures p \<le> 20
     \<and> 1 \<le> rp_circuit_cooldown_seconds p \<and> rp_circuit_cooldown_seconds p \<le> 3600)"

record candidate_utility =
  cu_configuration_id :: string
  cu_eligible :: bool
  cu_rejected :: "string list"
  cu_metrics :: "(objective \<times> rat option) list"
  cu_metric_basis :: "(objective \<times> string) list"
  cu_normalized :: "(objective \<times> rat) list"
  cu_utility :: "rat option"
  cu_evidence_ids :: "string list"
  cu_unknown :: "objective list"
  cu_conflicts :: "string list"
  cu_pareto :: bool

datatype level = LevelLow | LevelMedium | LevelHigh

record stage_decision =
  sd_node_id :: string
  sd_depends_on :: "string list"
  sd_profile :: workload_profile
  sd_selected :: "string option"
  sd_candidates :: "candidate_utility list"
  sd_confidence :: level
  sd_routing_confidence :: level
  sd_quality_confidence :: level
  sd_routing_confidence_reason :: string
  sd_uncertainty :: "string list"
  sd_explanation :: string

section \<open>Names\<close>

definition capability_text :: "capability \<Rightarrow> string" where
  "capability_text k = (case k of
       CapTextInput \<Rightarrow> ''text_input'' | CapImageInput \<Rightarrow> ''image_input''
     | CapAudioInput \<Rightarrow> ''audio_input'' | CapVideoInput \<Rightarrow> ''video_input''
     | CapDocumentInput \<Rightarrow> ''document_input'' | CapTextOutput \<Rightarrow> ''text_output''
     | CapJsonOutput \<Rightarrow> ''json_output'' | CapSchemaJson \<Rightarrow> ''schema_json''
     | CapCodeOutput \<Rightarrow> ''code_output'' | CapTools \<Rightarrow> ''tools''
     | CapEmbeddings \<Rightarrow> ''embeddings'' | CapMultimodalOutput \<Rightarrow> ''multimodal_output''
     | CapStreaming \<Rightarrow> ''streaming'' | CapContextTokens \<Rightarrow> ''context_tokens''
     | CapMaxOutputTokens \<Rightarrow> ''max_output_tokens'' | CapQuantization \<Rightarrow> ''quantization''
     | CapParametersBillion \<Rightarrow> ''parameters_billion'' | CapArchitecture \<Rightarrow> ''architecture''
     | CapFamily \<Rightarrow> ''family'' | CapBackends \<Rightarrow> ''backends''
     | CapColdStartMs \<Rightarrow> ''cold_start_ms'' | CapLatencyMs \<Rightarrow> ''latency_ms''
     | CapThroughputTokensS \<Rightarrow> ''throughput_tokens_s''
     | CapInputUsdPerMillion \<Rightarrow> ''input_usd_per_million''
     | CapOutputUsdPerMillion \<Rightarrow> ''output_usd_per_million''
     | CapRequestUsd \<Rightarrow> ''request_usd'' | CapGpuCount \<Rightarrow> ''gpu_count''
     | CapMemoryGb \<Rightarrow> ''memory_gb'' | CapSelfHosted \<Rightarrow> ''self_hosted'' | CapLocal \<Rightarrow> ''local''
     | CapPrivacyClass \<Rightarrow> ''privacy_class'' | CapRetentionDays \<Rightarrow> ''retention_days''
     | CapSuccessRate \<Rightarrow> ''success_rate'')"

definition task_text :: "task_family \<Rightarrow> string" where
  "task_text t = (case t of
       TfExtraction \<Rightarrow> ''extraction'' | TfSummarization \<Rightarrow> ''summarization''
     | TfClassification \<Rightarrow> ''classification'' | TfCoding \<Rightarrow> ''coding''
     | TfDebugging \<Rightarrow> ''debugging'' | TfMathematics \<Rightarrow> ''mathematics''
     | TfScience \<Rightarrow> ''science'' | TfLongContext \<Rightarrow> ''long_context'' | TfToolUse \<Rightarrow> ''tool_use''
     | TfStructuredExtraction \<Rightarrow> ''structured_extraction'' | TfResearch \<Rightarrow> ''research''
     | TfPlanning \<Rightarrow> ''planning'' | TfMultilingual \<Rightarrow> ''multilingual''
     | TfVision \<Rightarrow> ''vision'' | TfGeneral \<Rightarrow> ''general'')"

definition basis_text :: "basis \<Rightarrow> string" where
  "basis_text b = (case b of BDeclared \<Rightarrow> ''declared'' | BMeasured \<Rightarrow> ''measured''
     | BImported \<Rightarrow> ''imported'' | BEstimated \<Rightarrow> ''estimated'' | BSynthetic \<Rightarrow> ''synthetic''
     | BUnknown \<Rightarrow> ''unknown'')"

section \<open>Evidence about one deployment\<close>

definition workflow_for :: "workload_profile \<Rightarrow> workflow" where
  "workflow_for p = (let inferred = \<lparr> prov_kind = PInference, prov_source = ''workload-rules-1'',
       prov_evidence_ids = [] \<rparr> in
   \<lparr> wf_id = ''preview'', wf_version = 1, wf_title = ''Workload capability check'',
     wf_inputs = [''input''],
     wf_nodes = [\<lparr> nd_id = ''respond'', nd_kind = KLlm, nd_purpose = ''Workload stage'',
        nd_depends_on = [],
        nd_inputs = [(''input'', \<lparr> bind_source = ''input'', bind_output = ''value'',
                                   bind_from_input = True \<rparr>)],
        nd_outputs = [''result''], nd_tool_id = None, nd_allowed_tools = [],
        nd_max_iterations = None, nd_max_model_calls = None \<rparr>],
     wf_tools = [],
     wf_requirements = \<lparr> req_input_modality = MText, req_deployment = DAny,
        req_structured_output = (wp_structured_output p \<noteq> OutText),
        req_tool_calling = (CapTools \<in> set (wp_required p)) \<rparr>,
     wf_constraints = \<lparr> con_max_cost_per_1k_tokens = None, con_max_latency_ms = None,
        con_required_region = None,
        con_prov = \<lparr> prov_kind = PUserDeclared, prov_source = ''Workload constraints'',
                    prov_evidence_ids = [] \<rparr> \<rparr>,
     wf_prov = inferred \<rparr>)"

definition observation :: "catalog \<Rightarrow> string \<Rightarrow> capability \<Rightarrow> int \<Rightarrow> cap_observation option" where
  "observation c configuration key now =
     (case List.find (\<lambda>v. di_configuration_id v = configuration) (cat_intelligence c) of
        None \<Rightarrow> None
      | Some record \<Rightarrow> (case map_of (di_facts record) key of
          None \<Rightarrow> None
        | Some obs \<Rightarrow>
            let p = fact_prov (co_fact obs); ids = prov_evidence_ids p in
            if \<not> (co_observed_at obs \<le> now \<and> now < co_expires_at obs) then None
            else if ids = [] \<or> \<not> set ids \<subseteq> set (map ev_id (cat_evidence c)) then None
            else if \<not> cat_synthetic c \<and> (prov_kind p = PSynthetic
                 \<or> list_ex (\<lambda>i. case ev_by_id c i of None \<Rightarrow> False
                       | Some e \<Rightarrow> prov_kind (ev_prov e) = PSynthetic) ids) then None
            else Some obs))"

type_synonym benchmark_identity = "string \<times> string \<times> string \<times> string \<times> string \<times> string \<times> string
  \<times> rat \<times> rat \<times> bool"

definition identity :: "performance \<Rightarrow> benchmark_identity" where
  "identity p = (pe_benchmark p, pe_benchmark_version p, pe_split p, pe_harness p, pe_settings p,
     pe_normalization p, pe_unit p, pe_scale_min p, pe_scale_max p, pe_higher_is_better p)"

definition comparable :: "catalog \<Rightarrow> workload_profile \<Rightarrow> int \<Rightarrow> performance list" where
  "comparable c profile now = filter (\<lambda>p. pe_task p = wp_task profile \<and> pe_reviewed p
     \<and> pe_retrieved_at p \<le> now \<and> now < pe_expires_at p
     \<and> prov_evidence_ids (pe_prov p) \<noteq> []
     \<and> set (prov_evidence_ids (pe_prov p)) \<subseteq> set (map ev_id (cat_evidence c))
     \<and> (cat_synthetic c \<or> pe_origin p \<noteq> OSynthetic)) (cat_performance c)"

record quality_view =
  qv_score :: "rat option"
  qv_basis :: string
  qv_ids :: "string list"
  qv_conflicts :: "string list"
  qv_samples :: "int option"

definition list_max :: "rat list \<Rightarrow> rat" where
  "list_max xs = foldr max (tl xs) (hd xs)"

definition list_min :: "'a::linorder list \<Rightarrow> 'a" where
  "list_min xs = foldr min (tl xs) (hd xs)"

definition quality :: "catalog \<Rightarrow> string \<Rightarrow> workload_profile \<Rightarrow> int \<Rightarrow> quality_view" where
  "quality c configuration profile now =
     (let all = comparable c profile now;
          rows = filter (\<lambda>p. pe_configuration_id p = configuration) all;
          scores = map pe_normalized_score rows; ids = map pe_id rows in
      if rows = [] then \<lparr> qv_score = None, qv_basis = ''unknown'', qv_ids = [], qv_conflicts = [],
          qv_samples = None \<rparr>
      else if 1 < length (remdups (map identity all)) \<or> 1 / 1000000 < list_max scores - list_min scores
      then \<lparr> qv_score = None, qv_basis = ''conflict'', qv_ids = ids,
          qv_conflicts = [''Conflicting scores or incomparable task-specific benchmark methods across deployments; not averaged''],
          qv_samples = None \<rparr>
      else \<lparr> qv_score = Some (hd scores),
          qv_basis = (if list_ex (\<lambda>p. pe_origin p = OSynthetic) rows then ''synthetic''
             else if list_all (\<lambda>p. pe_origin p = OInternalEvaluation \<and> pe_measured_at p \<noteq> None) rows
             then ''measured'' else ''imported''),
          qv_ids = ids, qv_conflicts = [],
          qv_samples = (if list_all (\<lambda>p. pe_sample_size p \<noteq> None) rows
             then Some (list_min (List.map_filter pe_sample_size rows)) else None) \<rparr>)"

section \<open>Assessment\<close>

text \<open>\<open>fact(key, hard=...)\<close>: the value, when the observation may be used.\<close>

definition fact_of :: "catalog \<Rightarrow> string \<Rightarrow> int \<Rightarrow> bool \<Rightarrow> capability \<Rightarrow> json option" where
  "fact_of c i now hard key = (case observation c i key now of None \<Rightarrow> None
     | Some item \<Rightarrow> if hard \<and> co_basis item \<in> {BUnknown, BEstimated} then None
        else fact_value (co_fact item))"

definition require :: "catalog \<Rightarrow> string \<Rightarrow> int \<Rightarrow> capability \<Rightarrow> (json \<Rightarrow> bool) \<Rightarrow> string
    \<Rightarrow> string list" where
  "require c i now key predicate description = (case fact_of c i now True key of
     None \<Rightarrow> [description @ '': unknown/stale'']
   | Some v \<Rightarrow> if predicate v then [] else [description @ '': contradicted''])"

definition is_true :: "json \<Rightarrow> bool" where
  "is_true v = (v = JBool True)"

definition number_where :: "(rat \<Rightarrow> bool) \<Rightarrow> json \<Rightarrow> bool" where
  "number_where P v = (case num_value v of None \<Rightarrow> False | Some q \<Rightarrow> P q)"

definition reject_if :: "bool \<Rightarrow> string \<Rightarrow> string list" where
  "reject_if b reason = (if b then [reason] else [])"

definition projected_cost :: "catalog \<Rightarrow> string \<Rightarrow> int \<Rightarrow> workload_profile \<Rightarrow> rat option" where
  "projected_cost c i now p =
     (let price = (\<lambda>key. Option.bind (fact_of c i now True key) num_value) in
      case (price CapInputUsdPerMillion, price CapOutputUsdPerMillion, price CapRequestUsd,
            wp_input_tokens p, wp_output_tokens p) of
        (Some a, Some b, Some r, Some m, Some n) \<Rightarrow> Some (a * of_int m + b * of_int n + r * 1000000)
      | _ \<Rightarrow> None)"

definition envelope :: "catalog \<Rightarrow> string \<Rightarrow> int \<Rightarrow> workload_profile \<Rightarrow> string list" where
  "envelope c i now p = (case (wp_input_tokens p, wp_output_tokens p) of
     (Some m, Some n) \<Rightarrow>
         require c i now CapContextTokens (number_where (\<lambda>v. of_int (m + n) \<le> v)) ''context envelope''
       @ require c i now CapMaxOutputTokens (number_where (\<lambda>v. of_int n \<le> v)) ''output envelope''
   | _ \<Rightarrow> [''input/output envelope: unknown; clarification required''])"

definition rejections :: "catalog \<Rightarrow> candidate \<Rightarrow> int \<Rightarrow> workload_profile \<Rightarrow> string list \<Rightarrow> string list" where
  "rejections c k now p unhealthy = (let i = cfg_id k in
       concat (map (\<lambda>cap. require c i now cap is_true (''required capability '' @ capability_text cap))
         (wp_required p))
     @ envelope c i now p
     @ (if wp_local_only p then require c i now CapLocal is_true ''local-only privacy'' else [])
     @ (if wp_self_hosted_only p
        then require c i now CapSelfHosted is_true ''self-hosted deployment'' else [])
     @ (if wp_no_retention p
        then require c i now CapRetentionDays (number_where (\<lambda>v. v = 0)) ''no retention'' else [])
     @ reject_if (wp_approved_providers p \<noteq> [] \<and> (case fact_value (cfg_provider k) of None \<Rightarrow> True
          | Some v \<Rightarrow> v \<notin> set (wp_approved_providers p)))
         ''approved-provider allowlist: mismatched or unknown''
     @ reject_if (wp_determinism p = DtRequired)
         ''exact deterministic inference: no supported guarantee''
     @ reject_if (wp_tools p \<noteq> [] \<and> (wp_no_external_tools p
          \<or> wp_max_tool_calls p < int (length (wp_tools p))))
         ''tool policy: explicit authorized workflow tool plan required''
     @ reject_if (i \<in> set unhealthy) ''deployment circuit open: recent observed failures''
     @ (case wp_max_cost_micro_usd p of None \<Rightarrow> [] | Some m \<Rightarrow>
          reject_if (case projected_cost c i now p of None \<Rightarrow> True | Some q \<Rightarrow> of_int m < q)
            ''hard workflow cost: unknown or exceeded'')
     @ (case wp_max_latency_ms p of None \<Rightarrow> [] | Some m \<Rightarrow>
          require c i now CapLatencyMs (number_where (\<lambda>v. v \<le> of_int m)) ''latency ceiling'')
     @ (case wp_min_quality p of None \<Rightarrow> [] | Some m \<Rightarrow>
          reject_if (case qv_score (quality c i p now) of None \<Rightarrow> True | Some q \<Rightarrow> q < m)
            ''minimum task-specific expected quality: unknown or insufficient''))"

text \<open>Every capability whose observation is read contributes its evidence.\<close>

definition consulted :: "workload_profile \<Rightarrow> capability list" where
  "consulted p = wp_required p
     @ (if wp_input_tokens p \<noteq> None \<and> wp_output_tokens p \<noteq> None
        then [CapContextTokens, CapMaxOutputTokens] else [])
     @ (if wp_local_only p then [CapLocal] else [])
     @ (if wp_self_hosted_only p then [CapSelfHosted] else [])
     @ (if wp_no_retention p then [CapRetentionDays] else [])
     @ [CapLatencyMs, CapThroughputTokensS, CapSuccessRate,
        CapInputUsdPerMillion, CapOutputUsdPerMillion, CapRequestUsd]
     @ (if wp_max_latency_ms p \<noteq> None then [CapLatencyMs] else [])
     @ [CapLocal, CapSelfHosted] @ wp_optional p"

definition sources :: "catalog \<Rightarrow> string \<Rightarrow> workload_profile \<Rightarrow> int \<Rightarrow> string list" where
  "sources c i p now = sort (remdups (concat (map (\<lambda>key. case observation c i key now of
       None \<Rightarrow> [] | Some item \<Rightarrow> fact_sources (co_fact item)) (consulted p))
     @ qv_ids (quality c i p now)))"

definition observed_metrics :: "(objective \<times> capability) list" where
  "observed_metrics = [(ObLatency, CapLatencyMs), (ObThroughput, CapThroughputTokensS),
     (ObReliability, CapSuccessRate)]"

definition privacy_metric :: "catalog \<Rightarrow> string \<Rightarrow> int \<Rightarrow> rat option" where
  "privacy_metric c i now =
     (let near = fact_of c i now False CapLocal; hosted = fact_of c i now False CapSelfHosted in
      if near = Some (JBool True) then Some 1
      else if hosted = Some (JBool True) then Some (3 / 4)
      else if near = Some (JBool False) \<and> hosted = Some (JBool False) then Some 0 else None)"

definition capability_metric :: "catalog \<Rightarrow> string \<Rightarrow> int \<Rightarrow> workload_profile \<Rightarrow> rat option" where
  "capability_metric c i now p =
     (let optional = map (fact_of c i now False) (wp_optional p) in
      if optional \<noteq> [] \<and> list_all (\<lambda>v. v \<noteq> None) optional
      then Some (of_nat (length (filter (\<lambda>v. v = Some (JBool True)) optional)) / of_nat (length optional))
      else if optional \<noteq> [] then None else Some 1)"

definition metrics_of :: "catalog \<Rightarrow> string \<Rightarrow> int \<Rightarrow> workload_profile
    \<Rightarrow> (objective \<times> rat option) list" where
  "metrics_of c i now p =
     map (\<lambda>(m, key). (m, Option.bind (fact_of c i now False key) num_value)) observed_metrics
     @ [(ObCost, projected_cost c i now p), (ObQuality, qv_score (quality c i p now)),
        (ObPrivacy, privacy_metric c i now), (ObCapability, capability_metric c i now p)]"

definition basis_of :: "catalog \<Rightarrow> string \<Rightarrow> int \<Rightarrow> workload_profile
    \<Rightarrow> (objective \<times> string) list" where
  "basis_of c i now p =
     (let declared = if cat_synthetic c then ''synthetic'' else ''declared'' in
      map (\<lambda>(m, key). (m, case observation c i key now of None \<Rightarrow> ''unknown''
             | Some item \<Rightarrow> basis_text (co_basis item))) observed_metrics
      @ [(ObCost, if cat_synthetic c then ''synthetic estimate''
                  else ''estimated from declared component prices''),
         (ObQuality, qv_basis (quality c i p now)), (ObPrivacy, declared), (ObCapability, declared)])"

definition metric_of :: "candidate_utility \<Rightarrow> objective \<Rightarrow> rat option" where
  "metric_of r m = or_default None (map_of (cu_metrics r) m)"

definition assess_candidate :: "workload_profile \<Rightarrow> catalog \<Rightarrow> router_policy \<Rightarrow> int \<Rightarrow> string list
    \<Rightarrow> filter_result \<Rightarrow> candidate \<Rightarrow> candidate_utility" where
  "assess_candidate p c policy now unhealthy base k =
     (let i = cfg_id k; metrics = metrics_of c i now p;
          rejected = or_default [] (map_of (fr_excluded base) i) @ rejections c k now p unhealthy in
      \<lparr> cu_configuration_id = i, cu_eligible = (rejected = []), cu_rejected = rejected,
        cu_metrics = metrics, cu_metric_basis = basis_of c i now p, cu_normalized = [],
        cu_utility = None, cu_evidence_ids = sources c i p now,
        cu_unknown = filter (\<lambda>m. or_default None (map_of metrics m) = None)
          (map fst (rp_weights policy)),
        cu_conflicts = qv_conflicts (quality c i p now), cu_pareto = False \<rparr>)"

definition assess_workload :: "(string \<Rightarrow> int option option) \<Rightarrow> int \<Rightarrow> workload_profile \<Rightarrow> catalog
    \<Rightarrow> router_policy \<Rightarrow> int \<Rightarrow> string list \<Rightarrow> candidate_utility list res" where
  "assess_workload parse clock p c policy now unhealthy =
     rbind (filter_candidates parse clock (workflow_for p) c) (\<lambda>base.
     ok (map (assess_candidate p c policy now unhealthy base) (cat_configurations c)))"

section \<open>Utility and dominance\<close>

definition weights_of :: "router_policy \<Rightarrow> (objective \<times> rat) list" where
  "weights_of policy = (let total = sum_list (map snd (rp_weights policy)) in
     map (\<lambda>(k, v). (k, v / total)) (filter (\<lambda>(_, v). 0 < v) (rp_weights policy)))"

definition lower_is_better :: "objective \<Rightarrow> bool" where
  "lower_is_better m = (m = ObLatency \<or> m = ObCost)"

definition available :: "candidate_utility list \<Rightarrow> objective \<Rightarrow> rat list" where
  "available eligible m = List.map_filter (\<lambda>r. metric_of r m) eligible"

definition normalize :: "router_policy \<Rightarrow> candidate_utility list \<Rightarrow> candidate_utility \<Rightarrow> objective
    \<Rightarrow> rat" where
  "normalize policy eligible row m =
     (case metric_of row m of
        None \<Rightarrow> - rp_unknown_penalty policy - 1 / 1000
      | Some value \<Rightarrow>
          if available eligible m = [] then - rp_unknown_penalty policy - 1 / 1000
          else
            let low = list_min (available eligible m); high = list_max (available eligible m);
                n = (if high = low then 1 else (value - low) / (high - low));
                n = (if lower_is_better m \<and> high \<noteq> low then 1 - n else n) in
            if map_of (cu_metric_basis row) m = Some ''estimated''
            then n * (1 - rp_estimated_discount policy) else n)"

text \<open>The loop of \<open>dominates\<close>, with its early returns; \<open>strict\<close> is its flag.\<close>

fun dominates_from :: "bool \<Rightarrow> objective list \<Rightarrow> candidate_utility \<Rightarrow> candidate_utility \<Rightarrow> bool" where
  "dominates_from strict [] other row = strict"
| "dominates_from strict (m # ms) other row =
     (case (metric_of other m, metric_of row m) of
        (None, Some b) \<Rightarrow> False
      | (None, None) \<Rightarrow> dominates_from strict ms other row
      | (Some a, None) \<Rightarrow> dominates_from True ms other row
      | (Some a, Some b) \<Rightarrow>
          let delta = (if lower_is_better m then b - a else a - b) in
          if delta < 0 then False else dominates_from (strict \<or> 0 < delta) ms other row)"

definition dominates :: "objective list \<Rightarrow> candidate_utility \<Rightarrow> candidate_utility \<Rightarrow> bool" where
  "dominates ms other row = dominates_from False ms other row"

definition score_row :: "router_policy \<Rightarrow> candidate_utility list \<Rightarrow> candidate_utility
    \<Rightarrow> candidate_utility" where
  "score_row policy eligible row =
     (if \<not> cu_eligible row then row
      else let weights = weights_of policy;
               normalized = map (\<lambda>(m, _). (m, normalize policy eligible row m)) weights in
        row\<lparr> cu_normalized := normalized,
             cu_utility := Some (sum_list (map2 (\<lambda>(_, w) (_, v). w * v) weights normalized)),
             cu_pareto := \<not> list_ex (\<lambda>other. cu_configuration_id other \<noteq> cu_configuration_id row
                \<and> dominates (map fst weights) other row) eligible \<rparr>)"

text \<open>The sort key; a missing utility counts as \<open>-inf\<close>.\<close>

definition row_key :: "candidate_utility \<Rightarrow> bool \<times> bool \<times> rat \<times> string" where
  "row_key r = (\<not> cu_eligible r, cu_utility r = None, - or_default 0 (cu_utility r),
     cu_configuration_id r)"

definition rank_rows :: "candidate_utility list \<Rightarrow> router_policy \<Rightarrow> candidate_utility list" where
  "rank_rows rows policy =
     sort_key row_key (map (score_row policy (filter cu_eligible rows)) rows)"

section \<open>The decision of a stage\<close>

text \<open>\<open>f"{x:+.3f}"\<close>, rounding half to even.\<close>

definition round_even :: "rat \<Rightarrow> int" where
  "round_even q = (let f = \<lfloor>q\<rfloor>; r = q - of_int f in
     if r < 1 / 2 \<or> (r = 1 / 2 \<and> even f) then f else f + 1)"

definition pad_zeros :: "nat \<Rightarrow> string \<Rightarrow> string" where
  "pad_zeros k t = replicate (k - length t) (CHR ''0'') @ t"

definition signed_fixed3 :: "rat \<Rightarrow> string" where
  "signed_fixed3 q = (let n = nat (round_even (\<bar>q\<bar> * 1000)) in
     (if q < 0 then ''-'' else ''+'') @ show_nat (n div 1000) @ ''.'' @ pad_zeros 3 (show_nat (n mod 1000)))"

definition level_text :: "level \<Rightarrow> string" where
  "level_text v = (case v of LevelLow \<Rightarrow> ''low'' | LevelMedium \<Rightarrow> ''medium'' | LevelHigh \<Rightarrow> ''high'')"

definition utility_of :: "candidate_utility \<Rightarrow> rat" where
  "utility_of r = or_default 0 (cu_utility r)"

definition tradeoffs :: "candidate_utility \<Rightarrow> candidate_utility \<Rightarrow> string list" where
  "tradeoffs winner other = concat (map (\<lambda>(m, label, unit).
       case (metric_of winner m, metric_of other m) of
         (Some a, Some b) \<Rightarrow> [label @ '' '' @ signed_fixed3 (a - b) @ '' '' @ unit @ '' versus ''
            @ cu_configuration_id other]
       | _ \<Rightarrow> [])
     [(ObCost, ''projected cost'', ''micro-USD''), (ObLatency, ''expected latency'', ''ms'')])"

text \<open>Of the eligible rows, ranked: how far ahead the first is, how many lack quality.\<close>

definition gap_of :: "candidate_utility list \<Rightarrow> rat" where
  "gap_of eligible = (case eligible of w # o1 # _ \<Rightarrow> utility_of w - utility_of o1 | _ \<Rightarrow> 1)"

definition missing_quality :: "candidate_utility list \<Rightarrow> nat" where
  "missing_quality eligible = length (filter (\<lambda>r. metric_of r ObQuality = None) eligible)"

definition well_measured :: "catalog \<Rightarrow> workload_profile \<Rightarrow> router_policy \<Rightarrow> int
    \<Rightarrow> candidate_utility list \<Rightarrow> candidate_utility \<Rightarrow> bool" where
  "well_measured c p policy now eligible winner =
     (let q = quality c (cu_configuration_id winner) p now in
      cu_unknown winner = [] \<and> missing_quality eligible = 0 \<and> qv_basis q = ''measured''
      \<and> (case qv_samples q of None \<Rightarrow> False | Some n \<Rightarrow> n \<noteq> 0 \<and> rp_minimum_samples policy \<le> n))"

definition quality_confidence :: "catalog \<Rightarrow> workload_profile \<Rightarrow> router_policy \<Rightarrow> int
    \<Rightarrow> candidate_utility list \<Rightarrow> level" where
  "quality_confidence c p policy now eligible = (case eligible of
     [] \<Rightarrow> LevelLow
   | winner # _ \<Rightarrow>
       if cat_synthetic c then LevelLow
       else if well_measured c p policy now eligible winner
       then (if rp_clear_margin policy \<le> gap_of eligible then LevelHigh else LevelMedium)
       else LevelLow)"

definition stage_uncertainty :: "catalog \<Rightarrow> workload_profile \<Rightarrow> router_policy \<Rightarrow> int
    \<Rightarrow> candidate_utility list \<Rightarrow> string list" where
  "stage_uncertainty c p policy now eligible = (case eligible of
     [] \<Rightarrow> [''No eligible deployment remains'']
   | winner # _ \<Rightarrow> (let missing = missing_quality eligible in
       reject_if (0 < missing) (''No comparable task-quality evidence for '' @ show_nat missing
          @ '' of '' @ show_nat (length eligible) @ '' eligible deployments'')
        @ reject_if (cu_unknown winner \<noteq> []) (''Selected deployment has unknown objectives: ''
          @ join '', '' (map objective_text (cu_unknown winner)))
        @ reject_if (gap_of eligible < rp_clear_margin policy)
            ''Eligible utilities are close under this policy''
        @ (if cat_synthetic c
           then [''Synthetic evidence tests routing behavior, not model quality'']
           else if well_measured c p policy now eligible winner then []
           else [''Insufficient measured sample coverage for high confidence''])))"

definition routing_confidence :: "catalog \<Rightarrow> router_policy \<Rightarrow> candidate_utility list
    \<Rightarrow> level \<times> string" where
  "routing_confidence c policy eligible = (case eligible of
     [] \<Rightarrow> (LevelLow, ''No eligible deployment remains'')
   | winner # _ \<Rightarrow>
      (let (verdict, reason) =
         (if length eligible = 1 then (LevelHigh,
            ''Clear constraint-driven winner: exactly one deployment satisfies the hard gates'')
          else if gap_of eligible < rp_clear_margin policy then (LevelMedium,
            ''Close candidates: eligible utility margin is below the configured clear margin'')
          else if cu_unknown winner \<noteq> [] \<or> 0 < missing_quality eligible then (LevelLow,
            ''Insufficient compatible evidence for a confident utility winner'')
          else (LevelHigh,
            ''Compatible objective evidence and a clear normalized utility margin'')) in
       (verdict, reason @ ''; relative to this pinned catalog, not proof of model quality''
          @ (if cat_synthetic c then ''; catalog evidence is synthetic'' else []))))"

definition explain_stage :: "workload_profile \<Rightarrow> router_policy \<Rightarrow> candidate_utility list
    \<Rightarrow> candidate_utility list \<Rightarrow> level \<Rightarrow> string \<Rightarrow> level \<Rightarrow> string list \<Rightarrow> string" where
  "explain_stage p policy rows eligible routing reason confidence uncertainty =
     (let trade = (case eligible of w # o1 # _ \<Rightarrow> tradeoffs w o1 | _ \<Rightarrow> []) in
      ''Understood '' @ task_text (wp_task p) @ ''; required ''
      @ join '', '' (map capability_text (wp_required p)) @ ''. ''
      @ ''Rejected '' @ show_nat (length rows - length eligible) @ '' of '' @ show_nat (length rows)
      @ '' deployments by hard constraints. ''
      @ (case eligible of [] \<Rightarrow> ''No valid plan satisfies all hard constraints. ''
         | w # _ \<Rightarrow> ''Selected '' @ cu_configuration_id w @ '' from '' @ show_nat (length eligible)
           @ '' eligible deployments using normalized ''
           @ join '', '' (map (objective_text \<circ> fst) (filter (\<lambda>(_, v). v \<noteq> 0) (rp_weights policy)))
           @ '' utility; '' @ show_nat (length (filter cu_pareto rows))
           @ '' Pareto-efficient alternatives. Tradeoff follows '' @ rp_id policy @ ''@''
           @ show_int (rp_version policy)
           @ ''; changing weights, hard limits or reviewed task evidence can change the decision. '')
      @ (if trade = [] then [] else ''Known tradeoff: '' @ join ''; '' trade @ ''. '')
      @ ''Routing confidence '' @ level_text routing @ '': '' @ reason
      @ ''. Model-quality confidence '' @ level_text confidence @ '': ''
      @ join ''; '' (if uncertainty = [] then [''measured task evidence and a clear utility margin'']
                     else uncertainty))"

definition select_stage :: "(string \<Rightarrow> int option option) \<Rightarrow> int \<Rightarrow> workload_profile \<Rightarrow> catalog
    \<Rightarrow> router_policy \<Rightarrow> string \<Rightarrow> string list \<Rightarrow> int \<Rightarrow> string list \<Rightarrow> stage_decision res" where
  "select_stage parse clock p c policy node depends_on now unhealthy =
     rbind (assess_workload parse clock p c policy now unhealthy) (\<lambda>assessed.
     let rows = rank_rows assessed policy; eligible = filter cu_eligible rows;
         confidence = quality_confidence c p policy now eligible;
         uncertainty = stage_uncertainty c p policy now eligible;
         (routing, reason) = routing_confidence c policy eligible in
     ok \<lparr> sd_node_id = node, sd_depends_on = depends_on, sd_profile = p,
          sd_selected = (case eligible of [] \<Rightarrow> None | w # _ \<Rightarrow> Some (cu_configuration_id w)),
          sd_candidates = rows, sd_confidence = confidence, sd_routing_confidence = routing,
          sd_quality_confidence = confidence, sd_routing_confidence_reason = reason,
          sd_uncertainty = uncertainty,
          sd_explanation = explain_stage p policy rows eligible routing reason confidence uncertainty \<rparr>)"

section \<open>What the hard gates admit\<close>

definition proven :: "catalog \<Rightarrow> string \<Rightarrow> int \<Rightarrow> capability \<Rightarrow> (json \<Rightarrow> bool) \<Rightarrow> bool" where
  "proven c i now key P = (\<exists>obs v. observation c i key now = Some obs
     \<and> co_basis obs \<noteq> BUnknown \<and> co_basis obs \<noteq> BEstimated
     \<and> fact_value (co_fact obs) = Some v \<and> P v)"

definition meets :: "catalog \<Rightarrow> candidate \<Rightarrow> int \<Rightarrow> workload_profile \<Rightarrow> string list \<Rightarrow> bool" where
  "meets c k now p unhealthy = (let i = cfg_id k in
       (\<forall>cap\<in>set (wp_required p). proven c i now cap is_true)
     \<and> (\<exists>m n. wp_input_tokens p = Some m \<and> wp_output_tokens p = Some n
          \<and> proven c i now CapContextTokens (number_where (\<lambda>v. of_int (m + n) \<le> v))
          \<and> proven c i now CapMaxOutputTokens (number_where (\<lambda>v. of_int n \<le> v)))
     \<and> (wp_local_only p \<longrightarrow> proven c i now CapLocal is_true)
     \<and> (wp_self_hosted_only p \<longrightarrow> proven c i now CapSelfHosted is_true)
     \<and> (wp_no_retention p \<longrightarrow> proven c i now CapRetentionDays (number_where (\<lambda>v. v = 0)))
     \<and> (wp_approved_providers p \<noteq> [] \<longrightarrow>
          (\<exists>v\<in>set (wp_approved_providers p). fact_value (cfg_provider k) = Some v))
     \<and> wp_determinism p \<noteq> DtRequired
     \<and> (wp_tools p \<noteq> [] \<longrightarrow> \<not> wp_no_external_tools p
          \<and> int (length (wp_tools p)) \<le> wp_max_tool_calls p)
     \<and> i \<notin> set unhealthy
     \<and> (\<forall>m. wp_max_cost_micro_usd p = Some m \<longrightarrow>
          (\<exists>q. projected_cost c i now p = Some q \<and> q \<le> of_int m))
     \<and> (\<forall>m. wp_max_latency_ms p = Some m \<longrightarrow>
          proven c i now CapLatencyMs (number_where (\<lambda>v. v \<le> of_int m)))
     \<and> (\<forall>m. wp_min_quality p = Some m \<longrightarrow>
          (\<exists>q. qv_score (quality c i p now) = Some q \<and> m \<le> q)))"

lemma require_Nil: "require c i now key P d = [] \<longleftrightarrow> proven c i now key P"
  by (auto simp: require_def fact_of_def proven_def split: option.splits)

lemma reject_if_Nil: "reject_if b d = [] \<longleftrightarrow> \<not> b"
  by (simp add: reject_if_def)

lemma envelope_Nil: "envelope c i now p = [] \<longleftrightarrow>
   (\<exists>m n. wp_input_tokens p = Some m \<and> wp_output_tokens p = Some n
      \<and> proven c i now CapContextTokens (number_where (\<lambda>v. of_int (m + n) \<le> v))
      \<and> proven c i now CapMaxOutputTokens (number_where (\<lambda>v. of_int n \<le> v)))"
  by (auto simp: envelope_def require_Nil split: option.splits)

lemma option_list_Nil:
  "(case v of None \<Rightarrow> [] | Some m \<Rightarrow> f m) = [] \<longleftrightarrow> (\<forall>m. v = Some m \<longrightarrow> f m = [])"
  by (cases v) simp_all

lemma rejections_Nil: "rejections c k now p unhealthy = [] \<longleftrightarrow> meets c k now p unhealthy"
proof -
  have cost: "reject_if (case v of None \<Rightarrow> True | Some q \<Rightarrow> m < q) d = []
      \<longleftrightarrow> (\<exists>q. v = Some q \<and> q \<le> m)" for v :: "rat option" and m d
    by (cases v) (auto simp: reject_if_Nil)
  have score: "reject_if (case v of None \<Rightarrow> True | Some q \<Rightarrow> q < m) d = []
      \<longleftrightarrow> (\<exists>q. v = Some q \<and> m \<le> q)" for v :: "rat option" and m d
    by (cases v) (auto simp: reject_if_Nil)
  have provider: "reject_if (ps \<noteq> [] \<and> (case v of None \<Rightarrow> True | Some x \<Rightarrow> x \<notin> set ps)) d = []
      \<longleftrightarrow> (ps \<noteq> [] \<longrightarrow> (\<exists>x\<in>set ps. v = Some x))" for v :: "string option" and ps d
    by (cases v) (auto simp: reject_if_Nil)
  have tools: "reject_if (ts \<noteq> [] \<and> (b \<or> n < m)) d = [] \<longleftrightarrow> (ts \<noteq> [] \<longrightarrow> \<not> b \<and> m \<le> n)"
    for ts :: "string list" and b d and m n :: int
    by (auto simp: reject_if_Nil)
  show ?thesis
    unfolding rejections_def meets_def Let_def append_is_Nil_conv option_list_Nil cost score
      provider tools envelope_Nil concat_eq_Nil_conv
    by (simp add: require_Nil reject_if_Nil)
qed

lemma excluded_iff:
  assumes base: "filter_candidates parse clock w c = Inr base" and k: "k \<in> set (cat_configurations c)"
  shows "map_of (fr_excluded base) (cfg_id k) = None \<longleftrightarrow> cfg_id k \<in> set (fr_eligible base)"
  using filter_partition [OF base] k by (auto simp: map_of_eq_None_iff)

lemma excluded_reasons:
  assumes base: "filter_candidates parse clock w c = Inr base"
    and reasons: "map_of (fr_excluded base) i = Some reasons"
  shows "reasons \<noteq> []"
proof -
  from base obtain rows where el: "fr_eligible base = map fst (filter (\<lambda>(_, ds). passes ds) rows)"
    and ex: "fr_excluded base = map (\<lambda>(i, ds).
            (i, map exclusion (filter (\<lambda>d. dc_value d \<noteq> Some True) ds)))
            (filter (\<lambda>(i, _). i \<notin> set (fr_eligible base)) rows)"
    by (rule filter_candidates_Inr)
  have "(i, reasons) \<in> set (fr_excluded base)"
    using reasons by (rule map_of_SomeD)
  then obtain ds where ds: "(i, ds) \<in> set rows" "i \<notin> set (fr_eligible base)"
    and r: "reasons = map exclusion (filter (\<lambda>d. dc_value d \<noteq> Some True) ds)"
    unfolding ex by auto
  then have "\<not> passes ds"
    unfolding el by force
  then show ?thesis
    unfolding r by (auto simp: passes_def list_all_iff filter_empty_conv)
qed

lemma assess_eligible:
  assumes base: "filter_candidates parse clock (workflow_for p) c = Inr base"
    and k: "k \<in> set (cat_configurations c)"
  shows "cu_eligible (assess_candidate p c policy now unhealthy base k) \<longleftrightarrow>
    cfg_id k \<in> set (fr_eligible base) \<and> meets c k now p unhealthy"
proof (cases "map_of (fr_excluded base) (cfg_id k)")
  case None
  then show ?thesis
    using excluded_iff [OF base k] by (simp add: assess_candidate_def Let_def rejections_Nil)
next
  case (Some reasons)
  then have "cfg_id k \<notin> set (fr_eligible base)"
    using excluded_iff [OF base k] by simp
  then show ?thesis
    using excluded_reasons [OF base Some] Some by (simp add: assess_candidate_def Let_def)
qed

section \<open>Dominance is a strict partial order\<close>

definition metric_ge :: "objective \<Rightarrow> rat option \<Rightarrow> rat option \<Rightarrow> bool" where
  "metric_ge m a b = (case (a, b) of (_, None) \<Rightarrow> True | (None, Some _) \<Rightarrow> False
     | (Some x, Some y) \<Rightarrow> if lower_is_better m then x \<le> y else y \<le> x)"

definition at_least :: "objective list \<Rightarrow> candidate_utility \<Rightarrow> candidate_utility \<Rightarrow> bool" where
  "at_least ms a b = (\<forall>m\<in>set ms. metric_ge m (metric_of a m) (metric_of b m))"

lemma metric_ge_refl: "metric_ge m a a"
  by (cases a) (simp_all add: metric_ge_def)

lemma metric_ge_trans: "metric_ge m a b \<Longrightarrow> metric_ge m b d \<Longrightarrow> metric_ge m a d"
  by (auto simp: metric_ge_def split: option.splits if_splits)

lemma dominates_from_iff:
  "dominates_from strict ms a b \<longleftrightarrow> at_least ms a b \<and> (strict \<or> \<not> at_least ms b a)"
proof (induction ms arbitrary: strict)
  case Nil
  then show ?case by (simp add: at_least_def)
next
  case (Cons m ms)
  show ?case
    by (cases "metric_of a m"; cases "metric_of b m")
      (auto simp: Cons.IH at_least_def metric_ge_def Let_def)
qed

lemma dominates_iff: "dominates ms a b \<longleftrightarrow> at_least ms a b \<and> \<not> at_least ms b a"
  by (simp add: dominates_def dominates_from_iff)

lemma at_least_trans: "at_least ms a b \<Longrightarrow> at_least ms b d \<Longrightarrow> at_least ms a d"
  unfolding at_least_def using metric_ge_trans by blast

lemma dominates_trans: "dominates ms a b \<Longrightarrow> dominates ms b d \<Longrightarrow> dominates ms a d"
  unfolding dominates_iff using at_least_trans by blast

section \<open>Dominance raises the utility\<close>

lemma list_max_ge: "v \<in> set xs \<Longrightarrow> v \<le> list_max xs"
proof (cases xs)
  case (Cons x ys)
  have "\<forall>v\<in>set (x # ys). v \<le> foldr max ys x"
    by (induction ys) (auto simp: le_max_iff_disj)
  moreover assume "v \<in> set xs"
  ultimately show ?thesis
    by (auto simp: list_max_def Cons)
qed simp

lemma list_min_le: "v \<in> set xs \<Longrightarrow> list_min xs \<le> v"
proof (cases xs)
  case (Cons x ys)
  have "\<forall>v\<in>set (x # ys). foldr min ys x \<le> v"
    by (induction ys) (auto simp: min_le_iff_disj)
  moreover assume "v \<in> set xs"
  ultimately show ?thesis
    by (auto simp: list_min_def Cons)
qed simp

lemma available_in: "r \<in> set eligible \<Longrightarrow> metric_of r m = Some v \<Longrightarrow> v \<in> set (available eligible m)"
  by (force simp: available_def map_filter_def)

definition undiscounted :: "router_policy \<Rightarrow> candidate_utility \<Rightarrow> bool" where
  "undiscounted policy r = (\<forall>m w. (m, w) \<in> set (rp_weights policy) \<and> 0 < w \<longrightarrow>
     map_of (cu_metric_basis r) m \<noteq> Some ''estimated'')"

definition position :: "objective \<Rightarrow> rat \<Rightarrow> rat \<Rightarrow> rat \<Rightarrow> rat" where
  "position m low high v = (if high = low then 1
     else if lower_is_better m then 1 - (v - low) / (high - low) else (v - low) / (high - low))"

lemma normalize_known:
  assumes "r \<in> set eligible" and "metric_of r m = Some v"
    and "map_of (cu_metric_basis r) m \<noteq> Some ''estimated''"
  shows "normalize policy eligible r m
    = position m (list_min (available eligible m)) (list_max (available eligible m)) v"
  using assms available_in [OF assms(1,2)] by (auto simp: normalize_def position_def Let_def)

lemma position_range: "low \<le> v \<Longrightarrow> v \<le> high \<Longrightarrow> 0 \<le> position m low high v"
  by (auto simp: position_def divide_simps)

lemma position_mono:
  assumes "low \<le> v" and "u \<le> high" and "low \<le> u" and "v \<le> high"
    and "metric_ge m (Some u) (Some v)"
  shows "position m low high v \<le> position m low high u"
  using assms by (auto simp: position_def metric_ge_def divide_right_mono split: if_splits)

lemma position_strict:
  assumes "low \<le> v" and "u \<le> high" and "low \<le> u" and "v \<le> high"
    and "metric_ge m (Some u) (Some v)" and "u \<noteq> v"
  shows "position m low high v < position m low high u"
  using assms by (auto simp: position_def metric_ge_def divide_strict_right_mono split: if_splits)

lemma normalize_mono:
  assumes a: "a \<in> set eligible" and b: "b \<in> set eligible"
    and da: "map_of (cu_metric_basis a) m \<noteq> Some ''estimated''"
    and db: "map_of (cu_metric_basis b) m \<noteq> Some ''estimated''"
    and pen: "0 \<le> rp_unknown_penalty policy"
    and ge: "metric_ge m (metric_of a m) (metric_of b m)"
  shows "normalize policy eligible b m \<le> normalize policy eligible a m"
    and "\<not> metric_ge m (metric_of b m) (metric_of a m)
      \<Longrightarrow> normalize policy eligible b m < normalize policy eligible a m"
proof -
  let ?lo = "list_min (available eligible m)" and ?hi = "list_max (available eligible m)"
  have bounds: "?lo \<le> v \<and> v \<le> ?hi" if "r \<in> set eligible" and "metric_of r m = Some v" for r v
    using available_in [OF that] list_min_le list_max_ge by blast
  have "normalize policy eligible b m \<le> normalize policy eligible a m
    \<and> (\<not> metric_ge m (metric_of b m) (metric_of a m)
      \<longrightarrow> normalize policy eligible b m < normalize policy eligible a m)"
  proof (cases "metric_of a m")
    case None
    then have "metric_of b m = None"
      using ge by (auto simp: metric_ge_def split: option.splits)
    then show ?thesis
      using None by (simp add: normalize_def metric_ge_def)
  next
    case u: (Some u)
    show ?thesis
    proof (cases "metric_of b m")
      case None
      then have "normalize policy eligible b m < 0"
        using pen by (simp add: normalize_def)
      moreover have "0 \<le> normalize policy eligible a m"
        unfolding normalize_known [OF a u da] using bounds [OF a u] position_range by blast
      ultimately show ?thesis by simp
    next
      case v: (Some v)
      have "u \<noteq> v" if "\<not> metric_ge m (metric_of b m) (metric_of a m)"
        using that u v metric_ge_refl by auto
      then show ?thesis
        unfolding normalize_known [OF a u da] normalize_known [OF b v db]
        using position_mono position_strict bounds [OF a u] bounds [OF b v] ge
        unfolding u v by blast
    qed
  qed
  then show "normalize policy eligible b m \<le> normalize policy eligible a m"
    and "\<not> metric_ge m (metric_of b m) (metric_of a m)
      \<Longrightarrow> normalize policy eligible b m < normalize policy eligible a m"
    by blast+
qed

definition weighted :: "(objective \<times> rat) list \<Rightarrow> (objective \<Rightarrow> rat) \<Rightarrow> rat" where
  "weighted ws f = sum_list (map (\<lambda>(m, w). w * f m) ws)"

lemma weighted_mono:
  assumes "\<And>m w. (m, w) \<in> set ws \<Longrightarrow> 0 < w \<and> g m \<le> f m"
  shows "weighted ws g \<le> weighted ws f"
  unfolding weighted_def using assms by (intro sum_list_mono) (auto simp: mult_left_mono less_imp_le)

lemma weighted_strict:
  assumes "\<And>m w. (m, w) \<in> set ws \<Longrightarrow> 0 < w \<and> g m \<le> f m"
    and "(m, w) \<in> set ws" and "g m < f m"
  shows "weighted ws g < weighted ws f"
proof -
  obtain before after where ws: "ws = before @ (m, w) # after"
    using assms(2) by (meson split_list)
  have "weighted before g \<le> weighted before f" "weighted after g \<le> weighted after f"
    using assms(1) by (auto simp: ws intro!: weighted_mono)
  moreover have "w * g m < w * f m"
    using assms(1) [OF assms(2)] assms(3) by (simp add: mult_strict_left_mono)
  ultimately show ?thesis
    by (simp add: ws weighted_def)
qed

lemma weights_of_positive:
  assumes "valid_weights policy" and "(m, w) \<in> set (weights_of policy)"
  shows "0 < w" and "\<exists>v. (m, v) \<in> set (rp_weights policy) \<and> 0 < v"
proof -
  obtain v where "(m, v) \<in> set (rp_weights policy)" "0 < v"
    and w: "w = v / sum_list (map snd (rp_weights policy))"
    using assms(2) by (auto simp: weights_of_def Let_def)
  moreover have "0 < sum_list (map snd (rp_weights policy))"
    using assms(1) by (auto simp: valid_weights_def Let_def)
  ultimately show "0 < w" and "\<exists>v. (m, v) \<in> set (rp_weights policy) \<and> 0 < v"
    by auto
qed

lemma score_row_simps [simp]:
  "cu_configuration_id (score_row policy es r) = cu_configuration_id r"
  "cu_eligible (score_row policy es r) = cu_eligible r"
  "cu_metrics (score_row policy es r) = cu_metrics r"
  "cu_unknown (score_row policy es r) = cu_unknown r"
  "cu_evidence_ids (score_row policy es r) = cu_evidence_ids r"
  by (simp_all add: score_row_def Let_def)

lemma score_utility:
  "cu_eligible r \<Longrightarrow> cu_utility (score_row policy es r)
     = Some (weighted (weights_of policy) (normalize policy es r))"
proof -
  have "sum_list (map2 (\<lambda>(_, w) (_, v). w * v) ws (map (\<lambda>(m, _). (m, f m)) ws)) = weighted ws f"
    for ws :: "(objective \<times> rat) list" and f
    by (induction ws) (auto simp: weighted_def)
  then show "cu_eligible r \<Longrightarrow> ?thesis"
    by (simp add: score_row_def Let_def)
qed

lemma score_pareto:
  "cu_eligible r \<Longrightarrow> cu_pareto (score_row policy es r) \<longleftrightarrow>
     (\<forall>other\<in>set es. cu_configuration_id other \<noteq> cu_configuration_id r \<longrightarrow>
        \<not> dominates (map fst (weights_of policy)) other r)"
  by (auto simp: score_row_def Let_def list_ex_iff)

text \<open>A row that dominates another has the larger utility, unless an estimate is discounted.\<close>

lemma dominates_utility:
  assumes policy: "valid_router_policy policy"
    and a: "a \<in> set eligible" and b: "b \<in> set eligible"
    and plain: "undiscounted policy a" "undiscounted policy b"
    and dom: "dominates (map fst (weights_of policy)) a b"
  shows "weighted (weights_of policy) (normalize policy eligible b)
    < weighted (weights_of policy) (normalize policy eligible a)"
proof -
  have w: "valid_weights policy" and pen: "0 \<le> rp_unknown_penalty policy"
    using policy by (auto simp: valid_router_policy_def)
  have basis: "map_of (cu_metric_basis r) m \<noteq> Some ''estimated''"
    if "(m, x) \<in> set (weights_of policy)" and "undiscounted policy r" for m x r
    using weights_of_positive(2) [OF w that(1)] that(2) by (auto simp: undiscounted_def)
  have ge: "metric_ge m (metric_of a m) (metric_of b m)" if "(m, x) \<in> set (weights_of policy)" for m x
    using dom that by (force simp: dominates_iff at_least_def)
  obtain m x where mx: "(m, x) \<in> set (weights_of policy)"
    and strict: "\<not> metric_ge m (metric_of b m) (metric_of a m)"
    using dom by (auto simp: dominates_iff at_least_def)
  show ?thesis
  proof (rule weighted_strict [OF _ mx])
    show "normalize policy eligible b m < normalize policy eligible a m"
      by (rule normalize_mono(2) [OF a b basis [OF mx plain(1)] basis [OF mx plain(2)] pen
            ge [OF mx] strict])
    show "0 < y \<and> normalize policy eligible b k \<le> normalize policy eligible a k"
      if ky: "(k, y) \<in> set (weights_of policy)" for k y
      using weights_of_positive(1) [OF w ky]
        normalize_mono(1) [OF a b basis [OF ky plain(1)] basis [OF ky plain(2)] pen ge [OF ky]]
      by simp
  qed
qed

section \<open>The winner\<close>

lemma rank_rows_eligible:
  "filter cu_eligible (rank_rows rows policy)
   = sort_key row_key (map (score_row policy (filter cu_eligible rows)) (filter cu_eligible rows))"
  by (simp add: rank_rows_def filter_sort filter_map comp_def)

lemma rank_winner:
  assumes "filter cu_eligible (rank_rows rows policy) = w # rest"
  obtains r where "r \<in> set rows" and "cu_eligible r"
    and "w = score_row policy (filter cu_eligible rows) r"
    and "\<forall>r'. r' \<in> set rows \<and> cu_eligible r' \<longrightarrow>
      row_key w \<le> row_key (score_row policy (filter cu_eligible rows) r')"
proof -
  let ?f = "score_row policy (filter cu_eligible rows)"
  let ?xs = "map ?f (filter cu_eligible rows)"
  have sorted: "sort_key row_key ?xs = w # rest"
    using assms by (simp add: rank_rows_eligible)
  have members: "set (w # rest) = set ?xs"
    unfolding sorted [symmetric] by simp
  have "sorted (map row_key (w # rest))"
    unfolding sorted [symmetric] by simp
  then have least: "\<forall>x\<in>set ?xs. row_key w \<le> row_key x"
    unfolding members [symmetric] by auto
  have "w \<in> set ?xs"
    using members by auto
  then obtain r where r: "r \<in> set rows" "cu_eligible r" "w = ?f r"
    by auto
  have "row_key w \<le> row_key (?f r')" if "r' \<in> set rows" and "cu_eligible r'" for r'
    using least that by simp
  then show thesis
    using that r by simp
qed

lemma row_key_le_utility:
  assumes "row_key a \<le> row_key b" and "cu_eligible a" and "cu_eligible b"
    and "cu_utility a = Some u" and "cu_utility b = Some v"
  shows "v \<le> u"
  using assms by (auto simp: row_key_def less_eq_prod_def less_prod_def split: if_splits)

lemma winner_utility:
  assumes "filter cu_eligible (rank_rows rows policy) = w # rest"
    and "r \<in> set (rank_rows rows policy)" and "cu_eligible r"
  shows "utility_of r \<le> utility_of w"
proof -
  let ?f = "score_row policy (filter cu_eligible rows)"
  obtain r0 where r0: "cu_eligible r0" "w = ?f r0"
    and best: "\<forall>r'. r' \<in> set rows \<and> cu_eligible r' \<longrightarrow> row_key w \<le> row_key (?f r')"
    by (rule rank_winner [OF assms(1)])
  obtain r1 where r1: "r1 \<in> set rows" "cu_eligible r1" "r = ?f r1"
    using assms(2,3) by (auto simp: rank_rows_def)
  show ?thesis
    using row_key_le_utility [OF best [rule_format, of r1]] r0 r1
    by (simp add: utility_of_def score_utility)
qed

lemma winner_efficient:
  assumes policy: "valid_router_policy policy"
    and run: "filter cu_eligible (rank_rows rows policy) = w # rest"
    and plain: "\<And>r. r \<in> set rows \<Longrightarrow> cu_eligible r \<Longrightarrow> undiscounted policy r"
  shows "cu_pareto w"
proof -
  let ?es = "filter cu_eligible rows"
  let ?f = "score_row policy ?es"
  obtain r where r: "r \<in> set rows" "cu_eligible r" "w = ?f r"
    and best: "\<forall>r'. r' \<in> set rows \<and> cu_eligible r' \<longrightarrow> row_key w \<le> row_key (?f r')"
    by (rule rank_winner [OF run])
  have "\<not> dominates (map fst (weights_of policy)) other r" if other: "other \<in> set ?es" for other
  proof
    assume dom: "dominates (map fst (weights_of policy)) other r"
    have o: "other \<in> set rows" "cu_eligible other"
      using other by simp_all
    have "weighted (weights_of policy) (normalize policy ?es r)
        < weighted (weights_of policy) (normalize policy ?es other)"
      using dominates_utility [OF policy other _ plain [OF o] plain [OF r(1,2)] dom] r by simp
    moreover have "weighted (weights_of policy) (normalize policy ?es other)
        \<le> weighted (weights_of policy) (normalize policy ?es r)"
      using row_key_le_utility [OF best [rule_format, of other]] r o by (simp add: score_utility)
    ultimately show False
      by simp
  qed
  then show ?thesis
    using r by (simp add: score_pareto)
qed

lemma some_efficient:
  assumes "r \<in> set rows" and "cu_eligible r"
  shows "\<exists>e\<in>set (rank_rows rows policy). cu_eligible e \<and> cu_pareto e"
proof -
  let ?es = "filter cu_eligible rows" and ?ms = "map fst (weights_of policy)"
  have "\<exists>m\<in>set ?es. \<forall>x\<in>set ?es. x \<noteq> m \<longrightarrow> \<not> dominates ?ms x m"
  proof (rule Finite_Set.bex_max_element)
    show "asymp_on (set ?es) (\<lambda>a b. dominates ?ms b a)"
      by (auto simp: asymp_on_def dominates_iff)
    show "transp_on (set ?es) (\<lambda>a b. dominates ?ms b a)"
      by (auto simp: transp_on_def intro: dominates_trans)
    show "set ?es \<noteq> {}"
      using assms by auto
  qed simp
  then obtain m where m: "m \<in> set rows" "cu_eligible m"
    and best: "\<forall>x\<in>set ?es. x \<noteq> m \<longrightarrow> \<not> dominates ?ms x m"
    by auto
  then have "cu_pareto (score_row policy ?es m)"
    by (auto simp: score_pareto)
  moreover have "score_row policy ?es m \<in> set (rank_rows rows policy)"
    using m by (simp add: rank_rows_def)
  ultimately show ?thesis
    using m(2) by (intro bexI [of _ "score_row policy ?es m"]) simp_all
qed

lemma select_stage_Inr:
  assumes "select_stage parse clock p c policy node deps now unhealthy = Inr d"
  obtains rows where "assess_workload parse clock p c policy now unhealthy = Inr rows"
    and "sd_candidates d = rank_rows rows policy"
    and "sd_selected d = (case filter cu_eligible (rank_rows rows policy) of [] \<Rightarrow> None
        | w # _ \<Rightarrow> Some (cu_configuration_id w))"
    and "sd_quality_confidence d
        = quality_confidence c p policy now (filter cu_eligible (rank_rows rows policy))"
  using assms by (auto simp: select_stage_def rbind_Inr_iff Let_def case_prod_beta)

lemma rank_rows_set:
  "set (rank_rows rows policy) = score_row policy (filter cu_eligible rows) ` set rows"
  by (simp add: rank_rows_def)

section \<open>Properties\<close>



text \<open>
  C30. Confidence in model quality is never above low unless the catalog is real and the
  selected deployment has a measured score for the task, from at least the number of
  samples the policy asks for, no weighted metric unknown, and every eligible
  deployment has a comparable score.
\<close>

theorem confidence_needs_measurements:
  assumes run: "select_stage parse clock p c policy node deps now unhealthy = Inr d"
    and above: "sd_quality_confidence d \<noteq> LevelLow"
  shows "\<not> cat_synthetic c \<and> (\<exists>i n. sd_selected d = Some i
    \<and> qv_basis (quality c i p now) = ''measured''
    \<and> qv_samples (quality c i p now) = Some n \<and> rp_minimum_samples policy \<le> n
    \<and> (\<forall>r\<in>set (sd_candidates d). cu_eligible r \<longrightarrow> metric_of r ObQuality \<noteq> None))"
proof -
  obtain rows where cands: "sd_candidates d = rank_rows rows policy"
    and sel: "sd_selected d = (case filter cu_eligible (rank_rows rows policy) of [] \<Rightarrow> None
        | w # _ \<Rightarrow> Some (cu_configuration_id w))"
    and conf: "sd_quality_confidence d
        = quality_confidence c p policy now (filter cu_eligible (rank_rows rows policy))"
    by (rule select_stage_Inr [OF run])
  obtain w rest where es: "filter cu_eligible (rank_rows rows policy) = w # rest"
    using above unfolding conf by (cases "filter cu_eligible (rank_rows rows policy)")
      (auto simp: quality_confidence_def)
  have real: "\<not> cat_synthetic c" and good: "well_measured c p policy now (w # rest) w"
    using above unfolding conf es by (auto simp: quality_confidence_def split: if_splits)
  have "filter (\<lambda>r. metric_of r ObQuality = None) (filter cu_eligible (rank_rows rows policy)) = []"
    using good unfolding es by (simp add: well_measured_def missing_quality_def Let_def)
  then have "\<forall>r\<in>set (rank_rows rows policy). cu_eligible r \<longrightarrow> metric_of r ObQuality \<noteq> None"
    by (auto simp: filter_empty_conv)
  then show ?thesis
    using real good by (auto simp: sel es cands well_measured_def Let_def split: option.splits)
qed

section \<open>An example\<close>

definition ex_obs :: "json \<Rightarrow> cap_observation" where
  "ex_obs v = \<lparr> co_fact = ex_fact v, co_basis = BMeasured, co_observed_at = 0, co_expires_at = 100 \<rparr>"

definition ex_intelligence :: "string \<Rightarrow> int \<Rightarrow> deployment_intelligence" where
  "ex_intelligence i price = \<lparr> di_configuration_id = i,
     di_facts = [(CapContextTokens, ex_obs (JInt 1000)), (CapMaxOutputTokens, ex_obs (JInt 500)),
       (CapInputUsdPerMillion, ex_obs (JInt price)), (CapOutputUsdPerMillion, ex_obs (JInt price)),
       (CapRequestUsd, ex_obs (JInt 0))] \<rparr>"

definition ex_performance :: "string \<Rightarrow> string \<Rightarrow> rat \<Rightarrow> performance" where
  "ex_performance i configuration v = \<lparr> pe_id = i, pe_configuration_id = configuration,
     pe_task = TfGeneral, pe_benchmark = ''bench'', pe_benchmark_version = ''1'', pe_split = ''test'',
     pe_harness = ''h'', pe_settings = ''s'', pe_raw_metric = v, pe_unit = ''score'',
     pe_normalized_score = v, pe_normalization = ''none'', pe_scale_min = 0, pe_scale_max = 1,
     pe_higher_is_better = True, pe_sample_size = Some 50, pe_measured_at = Some 1,
     pe_retrieved_at = 2, pe_expires_at = 100, pe_source_url = None, pe_source_locator = ''here'',
     pe_prov = ex_prov, pe_origin = OInternalEvaluation, pe_reviewed = True, pe_limitations = [] \<rparr>"

definition ex_eligibility :: "string \<Rightarrow> eligibility" where
  "ex_eligibility i = \<lparr> el_configuration_id = i, el_artifact_id = ''m'',
     el_weights_access = ex_fact True, el_license_policy = ex_fact True,
     el_input_modalities = ex_fact [''text''], el_supported_parameters = ex_fact [],
     el_deployment = ex_fact ''api'', el_observed_at = ''0'', el_expires_at = ''100'' \<rparr>"

definition ex_market :: catalog where
  "ex_market = ex_catalog\<lparr> cat_synthetic := False,
     cat_eligibility := [ex_eligibility ''a'', ex_eligibility ''b''],
     cat_intelligence := [ex_intelligence ''a'' 3, ex_intelligence ''b'' 2],
     cat_performance := [ex_performance ''p1'' ''a'' (1 / 2), ex_performance ''p2'' ''b'' (1 / 2)] \<rparr>"

definition ex_profile :: workload_profile where
  "ex_profile = \<lparr> wp_task = TfGeneral, wp_complexity = CxUnknown, wp_required = [],
     wp_optional = [], wp_input_tokens = Some 100, wp_output_tokens = Some 100,
     wp_latency_sensitivity = SnUnknown, wp_quality_sensitivity = SnUnknown,
     wp_budget_sensitivity = SnUnknown, wp_local_only = False, wp_self_hosted_only = False,
     wp_approved_providers = [], wp_no_retention = False, wp_no_external_tools = True,
     wp_data_class = DcPublic, wp_tools = [], wp_structured_output = OutText,
     wp_determinism = DtUnspecified, wp_expected_stages = None, wp_decomposition = None,
     wp_verification = None, wp_parallel = None, wp_strategy = StAuto,
     wp_max_cost_micro_usd = Some 1000, wp_preferred_cost_micro_usd = None,
     wp_max_latency_ms = None, wp_min_quality = None, wp_max_model_calls = 6,
     wp_max_tool_calls = 0, wp_max_attempts = 2, wp_evidence = [], wp_explicit_fields = [],
     wp_questions = [] \<rparr>"

definition ex_router :: router_policy where
  "ex_router = \<lparr> rp_id = ''balanced'', rp_version = 1,
     rp_weights = [(ObQuality, 1 / 2), (ObCost, 1 / 2)], rp_unknown_penalty = 1 / 4,
     rp_estimated_discount = 1 / 4, rp_clear_margin = 1 / 10, rp_minimum_samples = 20,
     rp_circuit_failures = 3, rp_circuit_cooldown_seconds = 30 \<rparr>"

definition ex_clock :: "string \<Rightarrow> int option option" where
  "ex_clock t = (if t = ''0'' then Some (Some 0) else if t = ''100'' then Some (Some 100) else None)"

lemma ex_market_filter: "filter_candidates ex_clock 10 (workflow_for ex_profile) ex_market
   = Inr \<lparr> fr_eligible = [''a'', ''b''], fr_excluded = [] \<rparr>"
  by code_simp

lemma ex_market_ranked: "map_sum id (\<lambda>rows. let es = filter cu_eligible (rank_rows rows ex_router) in
      (map cu_configuration_id es, quality_confidence ex_market ex_profile ex_router 10 es))
    (assess_workload ex_clock 10 ex_profile ex_market ex_router 10 []) = Inr ([''b'', ''a''], LevelHigh)"
  by code_simp

lemma ex_stage: obtains d where
    "select_stage ex_clock 10 ex_profile ex_market ex_router ''s'' [] 10 [] = Inr d"
    and "sd_selected d = Some ''b''" and "sd_quality_confidence d = LevelHigh"
proof -
  obtain rows where rows: "assess_workload ex_clock 10 ex_profile ex_market ex_router 10 [] = Inr rows"
    and ids: "map cu_configuration_id (filter cu_eligible (rank_rows rows ex_router)) = [''b'', ''a'']"
    and conf: "quality_confidence ex_market ex_profile ex_router 10
      (filter cu_eligible (rank_rows rows ex_router)) = LevelHigh"
    using ex_market_ranked by (cases "assess_workload ex_clock 10 ex_profile ex_market ex_router 10 []")
      (auto simp: Let_def)
  obtain w rest where es: "filter cu_eligible (rank_rows rows ex_router) = w # rest"
    and "cu_configuration_id w = ''b''"
    using ids by (auto simp: map_eq_Cons_conv)
  moreover obtain d where d: "select_stage ex_clock 10 ex_profile ex_market ex_router ''s'' [] 10 [] = Inr d"
    using rows by (simp add: select_stage_def case_prod_beta Let_def del: show_nat.simps)
  ultimately show thesis
    using that [OF d] conf select_stage_Inr [OF d] rows by (metis list.case(2) sum.inject(2))
qed

lemma ex_router_valid: "valid_router_policy ex_router"
  by (simp add: valid_router_policy_def ex_router_def valid_weights_def is_identifier_def
      is_word_char_def is_alnum_def)

lemma ex_market_distinct: "distinct (map cfg_id (cat_configurations ex_market))"
  by code_simp



theorem confidence_needs_measurements_witness:
  "\<exists>n. qv_samples (quality ex_market ''b'' ex_profile 10) = Some n \<and> 20 \<le> n"
proof -
  obtain d where d: "select_stage ex_clock 10 ex_profile ex_market ex_router ''s'' [] 10 [] = Inr d"
    and "sd_selected d = Some ''b''" and "sd_quality_confidence d = LevelHigh"
    by (rule ex_stage)
  then show ?thesis
    using confidence_needs_measurements [OF d] by (auto simp: ex_router_def)
qed

end
