(* ===== verification/Validators.thy ===== *)
theory Validators
  imports Chat_Contracts Texts
begin

text \<open>
  What is checked of a model's answer: the validation rules of \<open>validators.py\<close>,
  \<open>validate_completion\<close> of \<open>gateway/service.py\<close>, and the typed reconstruction of a
  stream in \<open>stream_validation.py\<close>.  The grammar of Python (\<open>ast.parse\<close>) and of JSON
  are the arguments \<open>parses\<close> and \<open>reader\<close>; texts of observations are left out.
\<close>

section \<open>Text\<close>

text \<open>The length of \<open>text.encode()\<close>.\<close>

definition utf8_length :: "string \<Rightarrow> nat" where
  "utf8_length t = sum_list (map (\<lambda>c. if (of_char c :: nat) < 128 then 1 else 2) t)"

text \<open>\<open>str.casefold()\<close>, up to the folding of the micro sign, which no other character shares.\<close>

definition casefold :: "string \<Rightarrow> string" where
  "casefold t = concat (map (\<lambda>c. if (of_char c :: nat) = 223 then ''ss'' else [lower_char c]) t)"

definition is_space :: "char \<Rightarrow> bool" where
  "is_space c = (let n = (of_char c :: nat) in
     (9 \<le> n \<and> n \<le> 13) \<or> (28 \<le> n \<and> n \<le> 32) \<or> n = 133 \<or> n = 160)"

definition url_char :: "char \<Rightarrow> bool" where
  "url_char c = (\<not> is_space c \<and> (of_char c :: nat) \<notin> {60, 62, 34, 93, 41})"

text \<open>A match of \<open>https?://[^\s<>"\])]+\<close> at the start of the text.\<close>

definition url_here :: "string \<Rightarrow> string option" where
  "url_here t =
     (let scheme = (if take 8 t = ''https://'' then 8 else if take 7 t = ''http://'' then 7 else 0);
          rest = takeWhile url_char (drop scheme t) in
      if scheme = 0 \<or> rest = [] then None else Some (take scheme t @ rest))"

lemma url_here_nonempty: "url_here t = Some u \<Longrightarrow> 0 < length u"
  by (auto simp: url_here_def Let_def split: if_splits)

function find_urls :: "string \<Rightarrow> string list" where
  "find_urls t = (case t of [] \<Rightarrow> []
     | c # cs \<Rightarrow> (case url_here t of None \<Rightarrow> find_urls cs
         | Some u \<Rightarrow> u # find_urls (drop (length u) t)))"
  by auto

termination
  by (relation "measure length") (auto dest: url_here_nonempty)

declare find_urls.simps [simp del]

section \<open>Validation rules\<close>

definition rule_passes :: "(string \<Rightarrow> bool) \<Rightarrow> string \<Rightarrow> validation_rule \<Rightarrow> bool" where
  "rule_passes parses text r =
     (utf8_length text \<le> 65536 \<and> (case vl_kind r of
        RkRequiredTerms \<Rightarrow> list_all (\<lambda>v. contains (casefold text) (casefold v)) (vl_values r)
      | RkPythonSyntax \<Rightarrow> parses text
      | RkCitationAllowlist \<Rightarrow>
          (let urls = find_urls text in
           urls \<noteq> [] \<and> list_all (\<lambda>u. u \<in> set (vl_values r)) urls)))"

definition validate_rules :: "(string \<Rightarrow> bool) \<Rightarrow> string option \<Rightarrow> validation_rule list
    \<Rightarrow> validation_observation list" where
  "validate_rules parses content rules = map (\<lambda>r. \<lparr> vo_kind = vl_kind r,
     vo_passed = rule_passes parses (or_default [] content) r \<rparr>) rules"

section \<open>A complete answer against its request\<close>

definition named_choice :: "chat_request \<Rightarrow> string option" where
  "named_choice q = (case cq_tool_choice q of Some (TcNamed n) \<Rightarrow> Some n | _ \<Rightarrow> None)"

text \<open>The \<open>definitions\<close> dict: a later tool of the same name would win.\<close>

definition tool_schema :: "chat_request \<Rightarrow> string \<Rightarrow> json_schema option" where
  "tool_schema q n = map_option td_parameters (List.find (\<lambda>t. td_name t = n) (rev (tools_of q)))"

definition validate_call :: "(string \<Rightarrow> doc option) \<Rightarrow> chat_request \<Rightarrow> tool_call \<Rightarrow> unit res" where
  "validate_call reader q c = (case tool_schema q (tc_name c) of
     None \<Rightarrow> Inl ValueError
   | Some schema \<Rightarrow>
       rbind (check (case named_choice q of None \<Rightarrow> True | Some n \<Rightarrow> tc_name c = n) ValueError) (\<lambda>_.
       rbind (parse_json reader (tc_arguments c)) (\<lambda>v.
       check (validate_value schema v 0) ValueError)))"

fun validate_calls :: "(string \<Rightarrow> doc option) \<Rightarrow> chat_request \<Rightarrow> tool_call list \<Rightarrow> unit res" where
  "validate_calls reader q [] = ok ()"
| "validate_calls reader q (c # cs) =
     rbind (validate_call reader q c) (\<lambda>_. validate_calls reader q cs)"

definition is_json_object :: "json \<Rightarrow> bool" where
  "is_json_object v = (case v of JObj _ \<Rightarrow> True | _ \<Rightarrow> False)"

definition validate_format :: "(string \<Rightarrow> doc option) \<Rightarrow> response_format \<Rightarrow> chat_completion
    \<Rightarrow> unit res" where
  "validate_format reader f r =
     (case cc_content r of
        None \<Rightarrow> Inl ValueError
      | Some text \<Rightarrow>
          if cc_finish_reason r \<noteq> FrStop then Inl ValueError
          else rbind (parse_json reader text) (\<lambda>v.
            rbind (check (rf_type f = FtJsonObject \<longrightarrow> is_json_object v) ValueError) (\<lambda>_.
            case rf_json_schema f of None \<Rightarrow> ok ()
            | Some s \<Rightarrow> check (validate_value (jf_schema s) v 0) ValueError)))"

definition returned_calls :: "chat_completion \<Rightarrow> tool_call list" where
  "returned_calls r = or_default [] (cc_tool_calls r)"

definition validate_completion :: "(string \<Rightarrow> doc option) \<Rightarrow> chat_request \<Rightarrow> chat_completion
    \<Rightarrow> unit res" where
  "validate_completion reader q r = (let calls = returned_calls r in
     rbind (check (distinct (map tc_id calls)) ValueError) (\<lambda>_.
     rbind (check ((cc_finish_reason r = FrToolCalls) = (calls \<noteq> [])) ValueError) (\<lambda>_.
     rbind (check (\<not> (cq_tool_choice q = Some TcNone \<and> calls \<noteq> [])) ValueError) (\<lambda>_.
     rbind (check (\<not> ((cq_tool_choice q = Some TcRequired \<or> named_choice q \<noteq> None) \<and> calls = []))
       ValueError) (\<lambda>_.
     rbind (validate_calls reader q calls) (\<lambda>_.
     case cq_response_format q of None \<Rightarrow> ok ()
     | Some f \<Rightarrow> if rf_type f = FtText then ok () else validate_format reader f r))))))"

section \<open>Reconstructing a stream\<close>

record collector =
  co_text :: string
  co_calls :: "(int \<times> tool_call) list"
  co_usage :: "completion_usage option"
  co_finish :: "finish_reason option"

definition new_collector :: collector where
  "new_collector = \<lparr> co_text = [], co_calls = [], co_usage = None, co_finish = None \<rparr>"

definition part_name :: "tool_call_delta \<Rightarrow> string" where
  "part_name p = (case tl_function p of None \<Rightarrow> [] | Some f \<Rightarrow> or_default [] (fd_name f))"

definition part_arguments :: "tool_call_delta \<Rightarrow> string" where
  "part_arguments p = (case tl_function p of None \<Rightarrow> [] | Some f \<Rightarrow> or_default [] (fd_arguments f))"

text \<open>\<open>self.calls[index] = call\<close>: in place when the index is there, else at the end.\<close>

fun set_call :: "int \<Rightarrow> tool_call \<Rightarrow> (int \<times> tool_call) list \<Rightarrow> (int \<times> tool_call) list" where
  "set_call k c [] = [(k, c)]"
| "set_call k c ((j, d) # rest) = (if j = k then (k, c) # rest else (j, d) # set_call k c rest)"

definition previous_call :: "(int \<times> tool_call) list \<Rightarrow> tool_call_delta \<Rightarrow> tool_call res" where
  "previous_call calls p = (case map_of calls (tl_index p) of
     None \<Rightarrow> (let i = or_default [] (tl_id p);
                 c = \<lparr> tc_id = i, tc_name = part_name p, tc_arguments = [] \<rparr> in
              rbind (check (i \<noteq> [] \<and> part_name p \<noteq> []) ValueError) (\<lambda>_.
              rbind (check (valid_tool_call c) ValueError) (\<lambda>_. ok c)))
   | Some c \<Rightarrow>
       rbind (check (\<not> ((case tl_id p of None \<Rightarrow> False | Some i \<Rightarrow> i \<noteq> tc_id c)
                \<or> part_name p \<noteq> [] \<and> part_name p \<noteq> tc_name c)) ValueError) (\<lambda>_. ok c))"

definition accept_part :: "tool_call_delta \<Rightarrow> (int \<times> tool_call) list \<Rightarrow> (int \<times> tool_call) list res" where
  "accept_part p calls =
     rbind (previous_call calls p) (\<lambda>c.
     let c' = c\<lparr> tc_arguments := tc_arguments c @ part_arguments p \<rparr> in
     rbind (check (valid_tool_call c') ValueError) (\<lambda>_. ok (set_call (tl_index p) c' calls)))"

fun accept_parts :: "tool_call_delta list \<Rightarrow> (int \<times> tool_call) list \<Rightarrow> (int \<times> tool_call) list res" where
  "accept_parts [] calls = ok calls"
| "accept_parts (p # ps) calls = rbind (accept_part p calls) (accept_parts ps)"

definition collected_bytes :: "collector \<Rightarrow> nat" where
  "collected_bytes s = utf8_length (co_text s)
     + sum_list (map (\<lambda>(_, c). utf8_length (tc_arguments c)) (co_calls s))"

definition delta_parts :: "completion_delta \<Rightarrow> tool_call_delta list" where
  "delta_parts d = or_default [] (dl_tool_calls d)"

definition delta_text :: "completion_delta \<Rightarrow> string" where
  "delta_text d = or_default [] (dl_content d)"

definition accept_choice :: "chunk_choice \<Rightarrow> collector \<Rightarrow> collector res" where
  "accept_choice h s = (let d = ch_delta h in
     rbind (check (\<not> (co_finish s \<noteq> None \<and> (delta_text d \<noteq> [] \<or> delta_parts d \<noteq> []))) ValueError) (\<lambda>_.
     rbind (check (case (ch_finish_reason h, co_finish s) of (Some a, Some b) \<Rightarrow> a = b | _ \<Rightarrow> True)
        ValueError) (\<lambda>_.
     rbind (accept_parts (delta_parts d) (co_calls s)) (\<lambda>calls.
     let s' = s\<lparr> co_text := co_text s @ delta_text d, co_calls := calls,
           co_finish := (case ch_finish_reason h of None \<Rightarrow> co_finish s | Some a \<Rightarrow> Some a) \<rparr> in
     rbind (check (collected_bytes s' \<le> 1048576) ValueError) (\<lambda>_. ok s')))))"

definition accept_chunk :: "chat_chunk \<Rightarrow> collector \<Rightarrow> collector res" where
  "accept_chunk k s =
     rbind (case ck_usage k of None \<Rightarrow> ok s
       | Some u \<Rightarrow> rbind (check (co_usage s = None \<or> co_usage s = Some u) ValueError)
                     (\<lambda>_. ok (s\<lparr> co_usage := Some u \<rparr>))) (\<lambda>s.
     case ck_choice k of None \<Rightarrow> ok s | Some h \<Rightarrow> accept_choice h s)"

fun collect :: "chat_chunk list \<Rightarrow> collector \<Rightarrow> collector res" where
  "collect [] s = ok s"
| "collect (k # ks) s = rbind (accept_chunk k s) (collect ks)"

definition collected_completion :: "string \<Rightarrow> string \<Rightarrow> collector \<Rightarrow> chat_completion res" where
  "collected_completion request alias_id s = (case co_finish s of
     None \<Rightarrow> Inl ValueError
   | Some reason \<Rightarrow>
       let calls = map snd (sort_key fst (co_calls s));
           r = \<lparr> cc_id = request, cc_created = 0, cc_model = alias_id,
             cc_content = (if co_text s = [] then None else Some (co_text s)),
             cc_tool_calls = (if calls = [] then None else Some calls),
             cc_finish_reason = reason, cc_usage = co_usage s \<rparr> in
       rbind (check (valid_completion r) ValueError) (\<lambda>_. ok r))"

section \<open>What an accepted answer is\<close>

definition call_honours :: "(string \<Rightarrow> doc option) \<Rightarrow> chat_request \<Rightarrow> tool_call \<Rightarrow> bool" where
  "call_honours reader q c = (\<exists>schema v. tool_schema q (tc_name c) = Some schema
     \<and> (\<forall>n. cq_tool_choice q = Some (TcNamed n) \<longrightarrow> tc_name c = n)
     \<and> parse_json reader (tc_arguments c) = Inr v \<and> validate_value schema v 0)"

definition format_honours :: "(string \<Rightarrow> doc option) \<Rightarrow> response_format \<Rightarrow> chat_completion \<Rightarrow> bool" where
  "format_honours reader f r = (cc_finish_reason r = FrStop \<and> (\<exists>text v. cc_content r = Some text
     \<and> parse_json reader text = Inr v \<and> (rf_type f = FtJsonObject \<longrightarrow> (\<exists>kvs. v = JObj kvs))
     \<and> (\<forall>s. rf_json_schema f = Some s \<longrightarrow> validate_value (jf_schema s) v 0)))"

definition honours :: "(string \<Rightarrow> doc option) \<Rightarrow> chat_request \<Rightarrow> chat_completion \<Rightarrow> bool" where
  "honours reader q r =
     (distinct (map tc_id (returned_calls r))
      \<and> (cc_finish_reason r = FrToolCalls \<longleftrightarrow> returned_calls r \<noteq> [])
      \<and> (cq_tool_choice q = Some TcNone \<longrightarrow> returned_calls r = [])
      \<and> (cq_tool_choice q = Some TcRequired \<or> (\<exists>n. cq_tool_choice q = Some (TcNamed n))
           \<longrightarrow> returned_calls r \<noteq> [])
      \<and> (\<forall>c\<in>set (returned_calls r). call_honours reader q c)
      \<and> (\<forall>f. cq_response_format q = Some f \<and> rf_type f \<noteq> FtText \<longrightarrow> format_honours reader f r))"

lemma named_choice_iff: "named_choice q = Some n \<longleftrightarrow> cq_tool_choice q = Some (TcNamed n)"
  by (auto simp: named_choice_def split: option.splits tool_choice.splits)

lemma named_choice_None: "named_choice q = None \<longleftrightarrow> (\<forall>n. cq_tool_choice q \<noteq> Some (TcNamed n))"
  using named_choice_iff by (metis not_Some_eq)

lemma validate_call_ok: "validate_call reader q c = Inr u \<longleftrightarrow> call_honours reader q c"
  by (auto simp: validate_call_def call_honours_def rbind_Inr_iff named_choice_iff named_choice_None
      split: option.splits)

lemma validate_calls_ok:
  "validate_calls reader q cs = Inr u \<longleftrightarrow> (\<forall>c\<in>set cs. call_honours reader q c)"
  by (induction cs) (auto simp: rbind_Inr_iff validate_call_ok)

lemma is_json_object_iff: "is_json_object v \<longleftrightarrow> (\<exists>kvs. v = JObj kvs)"
  by (cases v) (simp_all add: is_json_object_def)

lemma validate_format_ok: "validate_format reader f r = Inr u \<longleftrightarrow> format_honours reader f r"
  by (auto simp: validate_format_def format_honours_def rbind_Inr_iff is_json_object_iff
      split: option.splits)

section \<open>What the collector holds\<close>

definition chunk_text :: "chat_chunk \<Rightarrow> string" where
  "chunk_text k = (case ck_choice k of None \<Rightarrow> [] | Some h \<Rightarrow> delta_text (ch_delta h))"

definition chunk_parts :: "chat_chunk \<Rightarrow> tool_call_delta list" where
  "chunk_parts k = (case ck_choice k of None \<Rightarrow> [] | Some h \<Rightarrow> delta_parts (ch_delta h))"

definition parts_at :: "int \<Rightarrow> tool_call_delta list \<Rightarrow> tool_call_delta list" where
  "parts_at i ps = filter (\<lambda>p. tl_index p = i) ps"

text \<open>A call is the parts of its index put together; they all name the same call.\<close>

definition assembled :: "tool_call_delta list \<Rightarrow> tool_call \<Rightarrow> bool" where
  "assembled ps c = (ps \<noteq> [] \<and> tc_arguments c = concat (map part_arguments ps)
     \<and> tl_id (hd ps) = Some (tc_id c) \<and> part_name (hd ps) = tc_name c
     \<and> (\<forall>p\<in>set ps. (tl_id p = None \<or> tl_id p = Some (tc_id c))
          \<and> (part_name p = [] \<or> part_name p = tc_name c)))"

definition reconstructs :: "tool_call_delta list \<Rightarrow> (int \<times> tool_call) list \<Rightarrow> bool" where
  "reconstructs ps calls = (distinct (map fst calls)
     \<and> (\<forall>i. case map_of calls i of None \<Rightarrow> parts_at i ps = []
            | Some c \<Rightarrow> assembled (parts_at i ps) c))"

lemma map_of_set_call: "map_of (set_call k c xs) i = (if i = k then Some c else map_of xs i)"
  by (induction k c xs rule: set_call.induct) auto

lemma fst_set_call: "set (map fst (set_call k c xs)) = insert k (set (map fst xs))"
  by (induction k c xs rule: set_call.induct) auto

lemma distinct_set_call: "distinct (map fst xs) \<Longrightarrow> distinct (map fst (set_call k c xs))"
proof (induction k c xs rule: set_call.induct)
  case (2 k c j d rest)
  then show ?case
    using fst_set_call [of k c rest] by auto
qed simp

lemma parts_at_snoc: "parts_at i (ps @ [p]) = parts_at i ps @ (if tl_index p = i then [p] else [])"
  by (simp add: parts_at_def)

lemma reconstructsD:
  "reconstructs ps calls \<Longrightarrow> map_of calls i = None \<Longrightarrow> parts_at i ps = []"
  "reconstructs ps calls \<Longrightarrow> map_of calls i = Some c \<Longrightarrow> assembled (parts_at i ps) c"
  unfolding reconstructs_def by (metis option.simps(4)) (metis option.simps(5))

lemma accept_part_reconstructs:
  assumes inv: "reconstructs ps calls" and run: "accept_part p calls = Inr calls'"
  shows "reconstructs (ps @ [p]) calls'"
proof -
  from run obtain c where prev: "previous_call calls p = Inr c"
    and calls': "calls' = set_call (tl_index p) (c\<lparr> tc_arguments := tc_arguments c @ part_arguments p \<rparr>) calls"
    by (auto simp: accept_part_def rbind_Inr_iff Let_def)
  let ?c = "c\<lparr> tc_arguments := tc_arguments c @ part_arguments p \<rparr>"
  have "assembled (parts_at (tl_index p) ps @ [p]) ?c"
  proof (cases "map_of calls (tl_index p)")
    case None
    then have "parts_at (tl_index p) ps = []"
      by (rule reconstructsD(1) [OF inv])
    moreover have "tl_id p = Some (tc_id c)" "part_name p = tc_name c" "tc_arguments c = []"
      using prev None by (auto simp: previous_call_def rbind_Inr_iff Let_def or_default_def
          split: option.splits)
    ultimately show ?thesis
      by (simp add: assembled_def)
  next
    case (Some d)
    then have "assembled (parts_at (tl_index p) ps) d"
      by (rule reconstructsD(2) [OF inv])
    moreover have "d = c" "tl_id p = None \<or> tl_id p = Some (tc_id c)"
        "part_name p = [] \<or> part_name p = tc_name c"
      using prev Some by (auto simp: previous_call_def rbind_Inr_iff split: option.splits)
    ultimately show ?thesis
      by (auto simp: assembled_def)
  qed
  moreover have "case map_of calls i of None \<Rightarrow> parts_at i ps = []
      | Some d \<Rightarrow> assembled (parts_at i ps) d" for i
    using inv by (simp add: reconstructs_def)
  moreover have "distinct (map fst calls')"
    using inv by (simp add: reconstructs_def calls' distinct_set_call)
  ultimately show ?thesis
    by (simp add: reconstructs_def calls' map_of_set_call parts_at_snoc cong: option.case_cong)
qed

lemma accept_parts_reconstructs:
  "reconstructs ps calls \<Longrightarrow> accept_parts qs calls = Inr calls' \<Longrightarrow> reconstructs (ps @ qs) calls'"
proof (induction qs arbitrary: ps calls)
  case (Cons q qs)
  then obtain mid where "accept_part q calls = Inr mid" "accept_parts qs mid = Inr calls'"
    by (auto simp: rbind_Inr_iff)
  then show ?case
    using Cons.IH [of "ps @ [q]" mid] accept_part_reconstructs [OF Cons.prems(1)] by simp
qed simp

definition collects :: "chat_chunk list \<Rightarrow> collector \<Rightarrow> bool" where
  "collects ks s = (co_text s = concat (map chunk_text ks)
     \<and> reconstructs (concat (map chunk_parts ks)) (co_calls s)
     \<and> collected_bytes s \<le> 1048576
     \<and> (\<forall>k\<in>set ks. \<forall>u. ck_usage k = Some u \<longrightarrow> co_usage s = Some u)
     \<and> (\<forall>k\<in>set ks. \<forall>h r. ck_choice k = Some h \<and> ch_finish_reason h = Some r \<longrightarrow> co_finish s = Some r))"

lemma accept_choice_fields:
  assumes "accept_choice h s = Inr t"
  shows "co_text t = co_text s @ delta_text (ch_delta h)"
    and "accept_parts (delta_parts (ch_delta h)) (co_calls s) = Inr (co_calls t)"
    and "collected_bytes t \<le> 1048576" and "co_usage t = co_usage s"
    and "\<And>r. ch_finish_reason h = Some r \<Longrightarrow> co_finish t = Some r"
    and "\<And>r. co_finish s = Some r \<Longrightarrow> co_finish t = Some r"
  using assms by (auto simp: accept_choice_def rbind_Inr_iff Let_def split: option.splits)

lemma accept_chunk_collects:
  assumes inv: "collects ks s" and run: "accept_chunk k s = Inr t"
  shows "collects (ks @ [k]) t"
proof -
  from run obtain s' where usage: "s' = (case ck_usage k of None \<Rightarrow> s | Some u \<Rightarrow> s\<lparr> co_usage := Some u \<rparr>)"
    and same: "\<And>u. ck_usage k = Some u \<Longrightarrow> co_usage s = None \<or> co_usage s = Some u"
    and rest: "(case ck_choice k of None \<Rightarrow> ok s' | Some h \<Rightarrow> accept_choice h s') = Inr t"
    by (auto simp: accept_chunk_def rbind_Inr_iff split: option.splits)
  have s': "co_text s' = co_text s" "co_calls s' = co_calls s" "co_finish s' = co_finish s"
      "collected_bytes s' = collected_bytes s"
      "\<And>u. ck_usage k = Some u \<Longrightarrow> co_usage s' = Some u"
      "\<And>u. co_usage s = Some u \<Longrightarrow> co_usage s' = Some u"
    using same by (auto simp: usage collected_bytes_def split: option.splits)
  show ?thesis
  proof (cases "ck_choice k")
    case None
    then show ?thesis
      using inv rest s' by (auto simp: collects_def chunk_text_def chunk_parts_def)
  next
    case (Some h)
    then have run': "accept_choice h s' = Inr t"
      using rest by simp
    note fields = accept_choice_fields [OF run']
    have "reconstructs (concat (map chunk_parts ks) @ delta_parts (ch_delta h)) (co_calls t)"
      using accept_parts_reconstructs [of _ "co_calls s"] fields(2) inv s'(2) by (simp add: collects_def)
    then show ?thesis
      using inv fields s' Some by (auto simp: collects_def chunk_text_def chunk_parts_def)
  qed
qed

lemma collect_collects:
  "collects ks s \<Longrightarrow> collect ms s = Inr t \<Longrightarrow> collects (ks @ ms) t"
proof (induction ms arbitrary: ks s)
  case (Cons m ms)
  then obtain mid where "accept_chunk m s = Inr mid" "collect ms mid = Inr t"
    by (auto simp: rbind_Inr_iff)
  then show ?case
    using Cons.IH [of "ks @ [m]" mid] accept_chunk_collects [OF Cons.prems(1)] by simp
qed simp

lemma new_collects: "collects [] new_collector"
  by (simp add: collects_def new_collector_def reconstructs_def parts_at_def collected_bytes_def
      utf8_length_def)

section \<open>Properties\<close>

text \<open>
  C39. validate_completion accepts an answer exactly when it honours its request: calls
  with distinct identifiers, finished as such, of requested tools only, with arguments
  that parse and validate against the tool's schema, present or absent as the tool
  choice demands; and a structured response that parses and validates.
\<close>

theorem validate_completion_iff:
  "validate_completion reader q r = Inr () \<longleftrightarrow> honours reader q r"
proof -
  have named: "named_choice q \<noteq> None \<longleftrightarrow> (\<exists>n. cq_tool_choice q = Some (TcNamed n))"
    using named_choice_iff by fastforce
  have form: "(case cq_response_format q of None \<Rightarrow> ok ()
      | Some f \<Rightarrow> if rf_type f = FtText then ok () else validate_format reader f r) = Inr ()
    \<longleftrightarrow> (\<forall>f. cq_response_format q = Some f \<and> rf_type f \<noteq> FtText \<longrightarrow> format_honours reader f r)"
    by (auto simp: validate_format_ok split: option.splits)
  show ?thesis
    unfolding validate_completion_def honours_def Let_def rbind_Inr_iff check_Inr_iff named form
      validate_calls_ok
    by auto
qed

text \<open>
  C40. What the stream collector holds is exactly what the chunks said: the text is the
  concatenation of the deltas, each tool call is assembled from the parts of its index
  in order, which all name one call, usage and finish reason never contradict an earlier
  event, and the whole stays within one mebibyte.
\<close>

theorem collector_reconstructs:
  assumes "collect ks new_collector = Inr s"
  shows "collects ks s"
  using collect_collects [OF new_collects assms] by simp

definition ex_chunk :: "string \<Rightarrow> finish_reason option \<Rightarrow> chat_chunk" where
  "ex_chunk t f = \<lparr> ck_id = ''r'', ck_created = 0, ck_model = ''m'',
     ck_choice = Some \<lparr> ch_delta = \<lparr> dl_role = False, dl_content = Some t, dl_tool_calls = None \<rparr>,
                        ch_finish_reason = f \<rparr>,
     ck_usage = None \<rparr>"

theorem collector_reconstructs_witness:
  "\<exists>s. collect [ex_chunk ''he'' None, ex_chunk ''llo'' (Some FrStop)] new_collector = Inr s
     \<and> co_text s = ''hello''"
proof -
  have "is_ok (collect [ex_chunk ''he'' None, ex_chunk ''llo'' (Some FrStop)] new_collector)"
    by (simp add: ex_chunk_def new_collector_def accept_chunk_def accept_choice_def delta_text_def
        delta_parts_def collected_bytes_def utf8_length_def)
  then obtain s where
      s: "collect [ex_chunk ''he'' None, ex_chunk ''llo'' (Some FrStop)] new_collector = Inr s"
    unfolding is_ok_iff by blast
  then show ?thesis
    using collector_reconstructs [OF s]
    by (auto simp: collects_def ex_chunk_def chunk_text_def delta_text_def)
qed

end
