(* ===== verification/Preflight.thy ===== *)
theory Preflight
  imports Security Record_Log Optimization
begin

text \<open>
  \<open>gateway/preflight.py\<close>: the authority a stage needs before it may reach a provider,
  and the cost and token envelope of a request.  The state of the gateway is the
  database, the selection cache, the clock and the cancellation of the request, which
  advance only while the program waits for an upstream.  The registries \<open>target\<close>,
  \<open>grant\<close>, \<open>credential\<close> and \<open>catalog\<close> are functions of the composition root; the digests
  and JSON lengths are parameters.  A price is the rational its numeral denotes.
\<close>

section \<open>State and environment\<close>

record authority =
  au_env :: env
  au_target :: "string \<Rightarrow> string \<Rightarrow> target res"
  au_grant :: "string \<Rightarrow> string \<Rightarrow> runtime_grant res"
  au_credential :: "string \<Rightarrow> string \<Rightarrow> credential_reference res"
  au_catalog :: "string \<Rightarrow> string \<Rightarrow> catalog res"
  au_is_local :: "string \<Rightarrow> target \<Rightarrow> bool"
  au_parse :: "string \<Rightarrow> int option option"
  au_selection_key :: "workflow \<Rightarrow> catalog \<Rightarrow> string"
  au_catalog_digest :: "catalog \<Rightarrow> string"
  au_request_bytes :: "chat_request \<Rightarrow> nat"

type_synonym selection_cache = "(string \<times> (int \<times> string list)) list"

record authorized =
  az_policy :: executable_policy
  az_stage :: executable_stage
  az_admission :: sandbox_admission
  az_target :: target
  az_credential :: credential_reference
  az_trace :: decision_trace
  az_data_class :: data_class
  az_local_egress :: bool

record inference_call =
  ic_trace :: decision_trace
  ic_credential :: credential_reference
  ic_messages :: chat_request
  ic_budget :: execution_budget
  ic_reservation_id :: string
  ic_target :: target

text \<open>
  What has gone over the wire, the latest first: the calls the providers have been sent,
  each with the database at that moment, and what the client of a stream has been sent.
\<close>

datatype wire = Sent inference_call db | Delivered "gateway_error + chat_chunk"

record gw =
  gw_db :: db
  gw_cache :: selection_cache
  gw_now :: int
  gw_cancelled :: "py_error option"
  gw_log :: "wire list"

definition sent_in :: "wire list \<Rightarrow> (inference_call \<times> db) list" where
  "sent_in ws = concat (map (\<lambda>w. case w of Sent call d \<Rightarrow> [(call, d)] | Delivered _ \<Rightarrow> []) ws)"

abbreviation gw_sent :: "gw \<Rightarrow> (inference_call \<times> db) list" where
  "gw_sent s \<equiv> sent_in (gw_log s)"

lemma sent_in_simps [simp]:
  "sent_in [] = []" "sent_in (Sent call d # ws) = (call, d) # sent_in ws"
  "sent_in (Delivered x # ws) = sent_in ws" "sent_in (ws @ vs) = sent_in ws @ sent_in vs"
  by (simp_all add: sent_in_def)

definition on_db :: "(db, 'a) op \<Rightarrow> (gw, 'a) op" where
  "on_db m s = (case m (gw_db s) of (r, d) \<Rightarrow> (r, s\<lparr> gw_db := d \<rparr>))"

definition denied_op :: "(gw, 'a) op" where
  "denied_op = throw (DomainError UNSUPPORTED 403)"

definition require_op :: "bool \<Rightarrow> (gw, unit) op" where
  "require_op b = guardM b (DomainError UNSUPPORTED 403)"

text \<open>
  \<open>RequestContext.check_cancelled\<close>: a callback that returns or raises.  The first one
  raises the cancellation; the gateway and the runner wrap it with further conditions.
\<close>

type_synonym callback = "gw \<Rightarrow> unit res"

definition cancellation :: callback where
  "cancellation s = (case gw_cancelled s of None \<Rightarrow> ok () | Some x \<Rightarrow> Inl x)"

definition call_back :: "callback \<Rightarrow> (gw, unit) op" where
  "call_back chk = bindM (getsM chk) liftM"

section \<open>The selection cache\<close>

definition lookup_selection :: "string \<Rightarrow> int \<Rightarrow> selection_cache \<Rightarrow> string list option" where
  "lookup_selection key now cache = (case map_of cache key of
     None \<Rightarrow> None | Some (deadline, ids) \<Rightarrow> if now < deadline then Some ids else None)"

text \<open>\<open>cache[key] = value; move_to_end(key)\<close>, then the oldest entries beyond 128 go.\<close>

definition drop_key :: "string \<Rightarrow> selection_cache \<Rightarrow> selection_cache" where
  "drop_key key cache = filter (\<lambda>(k, _). k \<noteq> key) cache"

definition store_selection :: "string \<Rightarrow> int \<times> string list \<Rightarrow> selection_cache \<Rightarrow> selection_cache" where
  "store_selection key v cache = (let c = drop_key key cache @ [(key, v)] in drop (length c - 128) c)"

definition touch_selection :: "string \<Rightarrow> selection_cache \<Rightarrow> selection_cache" where
  "touch_selection key cache = (case map_of cache key of None \<Rightarrow> cache
     | Some v \<Rightarrow> drop_key key cache @ [(key, v)])"

text \<open>
  The instant until which a selection made at \<open>now\<close> may be reused: None when an
  eligibility record is not one whose start has passed and whose end is known.
\<close>

fun reuse_until :: "(string \<Rightarrow> int option option) \<Rightarrow> int \<Rightarrow> eligibility list \<Rightarrow> int \<Rightarrow> int option" where
  "reuse_until parse now [] deadline = Some deadline"
| "reuse_until parse now (e # es) deadline = (case parse (el_expires_at e) of
     None \<Rightarrow> None
   | Some expiry \<Rightarrow> (case parse (el_observed_at e) of
       None \<Rightarrow> None
     | Some observed \<Rightarrow> (case (expiry, observed) of
         (Some x, Some o1) \<Rightarrow> if now < o1 then None else reuse_until parse now es (min deadline x)
       | _ \<Rightarrow> None)))"

definition eligible_ids :: "authority \<Rightarrow> workflow \<Rightarrow> catalog \<Rightarrow> (gw, string list) op" where
  "eligible_ids au w c = bindM (getsM id) (\<lambda>s.
     let key = au_selection_key au w c; now = gw_now s in
     case lookup_selection key now (gw_cache s) of
       Some ids \<Rightarrow> thenM (modifyM (\<lambda>s. s\<lparr> gw_cache := touch_selection key (gw_cache s) \<rparr>)) (ret ids)
     | None \<Rightarrow> bindM (liftM (filter_candidates (au_parse au) now w c)) (\<lambda>f.
         case reuse_until (au_parse au) now (cat_eligibility c) (now + micros 5) of
           None \<Rightarrow> ret (fr_eligible f)
         | Some d \<Rightarrow> thenM (modifyM (\<lambda>s. s\<lparr> gw_cache :=
               store_selection key (d, fr_eligible f) (gw_cache s) \<rparr>)) (ret (fr_eligible f))))"

section \<open>Authority\<close>

definition authority_policy :: "authority \<Rightarrow> request_context \<Rightarrow> callback \<Rightarrow> version_ref
    \<Rightarrow> (gw, executable_policy \<times> sandbox_admission \<times> int) op" where
  "authority_policy au cx chk r =
     (let e = au_env au; tenant = cx_tenant_id cx in
      thenM (call_back chk)
      (bindM (getsM gw_now) (\<lambda>now.
       thenM (require_op (now < cx_deadline cx))
       (bindM (on_db (query (policy e tenant r))) (\<lambda>v.
        let t = vw_transition v; a = or_default [] (pt_admission_id t) in
        thenM (require_op (a \<noteq> []))
        (bindM (on_db (query (\<lambda>d. rbind (read_record tenant KAdmission a 1 d) as_admission))) (\<lambda>adm.
         thenM (liftM (authorize_sandbox (env_digest e) tenant (vw_policy v) t adm now (env_offline e)))
         (ret (vw_policy v, adm, pt_sequence t)))))))))"

definition no_egress :: "workflow \<Rightarrow> bool" where
  "no_egress w = contains_any (prose w)
     [''local only'', ''local-only'', ''no external'', ''no hosted'', ''no cloud'',
      ''must stay local'', ''air gapped'', ''air-gapped'']"

definition default_router :: router_policy where
  "default_router = \<lparr> rp_id = ''balanced'', rp_version = 1,
     rp_weights = [(ObQuality, 35 / 100), (ObLatency, 20 / 100), (ObCost, 25 / 100),
       (ObPrivacy, 10 / 100), (ObReliability, 10 / 100)],
     rp_unknown_penalty = 25 / 100, rp_estimated_discount = 25 / 100, rp_clear_margin = 10 / 100,
     rp_minimum_samples = 20, rp_circuit_failures = 3, rp_circuit_cooldown_seconds = 30 \<rparr>"

definition envelope_approved :: "target \<Rightarrow> int \<Rightarrow> bool" where
  "envelope_approved t now =
     ((case tg_expires_at t of None \<Rightarrow> False | Some x \<Rightarrow> now < x)
      \<and> (case tg_token_envelope_approved t of None \<Rightarrow> False
         | Some f \<Rightarrow> fact_value f = Some True \<and> prov_evidence_ids (fact_prov f) \<noteq> []
             \<and> operational_kind (prov_kind (fact_prov f))))"

definition planned_catalog :: "request_context \<Rightarrow> executable_policy \<Rightarrow> catalog \<Rightarrow> (gw, unit) op" where
  "planned_catalog cx p c =
     bindM (on_db (query (\<lambda>d. plan_view (cx_tenant_id cx) (vr_id (ep_plan p)) (vr_version (ep_plan p))
        (db_planning d)))) (\<lambda>saved.
     require_op (case pw_result saved of None \<Rightarrow> False | Some r \<Rightarrow> px_catalog r = Some c))"

text \<open>The checks of a stage with its own workload profile.\<close>

definition profile_checks :: "authority \<Rightarrow> request_context \<Rightarrow> executable_policy \<Rightarrow> target \<Rightarrow> catalog
    \<Rightarrow> string \<Rightarrow> workload_profile \<Rightarrow> (gw, unit) op" where
  "profile_checks au cx p t c configuration profile = bindM (getsM gw_now) (\<lambda>now.
     thenM (require_op (wp_data_class profile \<noteq> DcRestricted))
     (thenM (require_op (ep_catalog_digest p = Some (au_catalog_digest au c)))
     (bindM (liftM (assess_workload (au_parse au) now profile c default_router now [])) (\<lambda>rows.
      thenM (require_op (case List.find (\<lambda>r. cu_configuration_id r = configuration) rows of
        None \<Rightarrow> False | Some r \<Rightarrow> cu_eligible r))
      (require_op (\<not> (wp_local_only profile \<and> \<not> au_is_local au (cx_tenant_id cx) t)))))))"

definition grant_allows :: "runtime_grant \<Rightarrow> request_context \<Rightarrow> int \<Rightarrow> string \<Rightarrow> data_class
    \<Rightarrow> sandbox_admission \<Rightarrow> bool" where
  "grant_allows g cx now configuration dc adm =
     (gr_tenant_id g = cx_tenant_id cx \<and> now < gr_expires_at g
      \<and> configuration \<in> set (gr_configuration_ids g) \<and> dc \<in> set (gr_allowed_data_classes g)
      \<and> gr_budget_reference g = sa_budget_reference adm)"

definition shared_credentials :: "runtime_grant \<Rightarrow> sandbox_admission \<Rightarrow> string list" where
  "shared_credentials g adm =
     remdups (filter (\<lambda>i. i \<in> set (sa_credential_reference_ids adm)) (gr_credential_reference_ids g))"

definition adapter_of :: "target \<Rightarrow> adapter" where
  "adapter_of t = (if tg_local t \<noteq> None then AdLocalOllama
     else if or_default [] (tg_approved_endpoint_id t) \<noteq> [] then AdOpenaiCompatible else AdOpenrouter)"

definition unknown_identity :: "string fact" where
  "unknown_identity = \<lparr> fact_value = None,
     fact_prov = \<lparr> prov_kind = PInference, prov_source = ''No served identity observation'',
                  prov_evidence_ids = [] \<rparr>,
     fact_unknown_reason = Some ''Provider identity not observed'' \<rparr>"

definition stage_trace :: "request_context \<Rightarrow> version_ref \<Rightarrow> string option \<Rightarrow> executable_policy
    \<Rightarrow> sandbox_admission \<Rightarrow> int \<Rightarrow> executable_stage \<Rightarrow> target \<Rightarrow> decision_trace" where
  "stage_trace cx r alias_id p adm sequence st t =
     \<lparr> dt_request_id = cx_request_id cx, dt_tenant_id = cx_tenant_id cx, dt_policy = r,
       dt_transition_sequence = sequence, dt_alias_id = alias_id, dt_node_id = es_node_id st,
       dt_configuration_id = es_configuration_id st, dt_catalog_id = ep_catalog_id p,
       dt_prompt = es_prompt st, dt_admission_id = sa_id adm,
       dt_evidence_ids = sort (remdups (concat (map fact_sources (admission_facts adm)))),
       dt_requested_endpoint = Some (case tg_endpoint t of Some e \<Rightarrow> en_endpoint_tag e
         | None \<Rightarrow> ''ollama-loopback-11444''),
       dt_served_model = unknown_identity, dt_served_endpoint = unknown_identity,
       dt_quality = ep_quality p, dt_routing_decision_id = ep_routing_decision_id p,
       dt_router_policy_ref = ep_router_policy_ref p,
       dt_workflow_version = Some (wf_version (ep_workflow p)),
       dt_catalog_digest = ep_catalog_digest p,
       dt_capability_schema = (if es_workload_profile st = None then None else Some ''capabilities-1'') \<rparr>"

text \<open>The stage to run: with a fallback pinned in place of its primary when asked to.\<close>

definition pinned_stage :: "executable_policy \<Rightarrow> string \<Rightarrow> string option \<Rightarrow> executable_stage option" where
  "pinned_stage p node configuration =
     (case List.find (\<lambda>s. es_node_id s = node) (ep_stages p) of
        None \<Rightarrow> None
      | Some st \<Rightarrow> (case es_configuration_id st of
          None \<Rightarrow> None
        | Some primary \<Rightarrow>
            if primary = [] then None
            else (case configuration of None \<Rightarrow> Some st
              | Some k \<Rightarrow> if k \<in> set (primary # es_fallback_configuration_ids st)
                         then Some (st\<lparr> es_configuration_id := Some k \<rparr>) else None)))"

text \<open>The second half of \<open>stage\<close>: the target, its catalog, grant and credential.\<close>

definition authorize_target :: "authority \<Rightarrow> request_context \<Rightarrow> version_ref \<Rightarrow> string option
    \<Rightarrow> data_class \<Rightarrow> executable_policy \<Rightarrow> sandbox_admission \<Rightarrow> int \<Rightarrow> executable_stage
    \<Rightarrow> (gw, authorized) op" where
  "authorize_target au cx r alias_id dc p adm sequence st =
     (let tenant = cx_tenant_id cx; offline = env_offline (au_env au);
          k = or_default [] (es_configuration_id st) in
      bindM (liftM (au_target au tenant k)) (\<lambda>t.
      thenM (require_op (\<not> (\<not> au_is_local au tenant t \<and> no_egress (ep_workflow p))))
      (thenM (require_op (cfg_id (tg_configuration t) = k \<and> tg_catalog_id t = ep_catalog_id p))
      (bindM (liftM (au_catalog au tenant (ep_catalog_id p))) (\<lambda>c.
      thenM (if offline then ret () else planned_catalog cx p c)
      (thenM (require_op (\<not> (cat_synthetic c \<and> \<not> offline)))
      (bindM (getsM gw_now) (\<lambda>now.
      thenM (require_op (offline \<or> envelope_approved t now))
      (thenM (require_op (cat_id c = ep_catalog_id p
                \<and> tg_configuration t \<in> set (cat_configurations c)))
      (bindM (eligible_ids au (ep_workflow p) c) (\<lambda>ids.
      thenM (require_op (k \<in> set ids))
      (thenM (case es_workload_profile st of None \<Rightarrow> ret ()
              | Some profile \<Rightarrow> profile_checks au cx p t c k profile)
      (bindM (liftM (au_grant au tenant k)) (\<lambda>g.
      thenM (require_op (grant_allows g cx now k dc adm))
      (let refs = shared_credentials g adm in
      thenM (require_op (length refs = 1))
      (bindM (liftM (au_credential au tenant (hd refs))) (\<lambda>cred.
      thenM (require_op (cr_id cred \<in> set refs \<and> cr_tenant_id cred = tenant
                \<and> now < cr_expires_at cred \<and> cr_adapter_id cred = adapter_of t))
      (ret \<lparr> az_policy = p, az_stage = st, az_admission = adm, az_target = t,
             az_credential = cred, az_trace = stage_trace cx r alias_id p adm sequence st t,
             az_data_class = dc, az_local_egress = au_is_local au tenant t \<rparr>))))))))))))))))))"

definition authority_stage :: "authority \<Rightarrow> request_context \<Rightarrow> callback \<Rightarrow> version_ref \<Rightarrow> string
    \<Rightarrow> string option \<Rightarrow> data_class \<Rightarrow> string option \<Rightarrow> (gw, authorized) op" where
  "authority_stage au cx chk r node alias_id dc configuration =
     bindM (authority_policy au cx chk r) (\<lambda>(p, adm, sequence).
     case pinned_stage p node configuration of None \<Rightarrow> denied_op
     | Some st \<Rightarrow> authorize_target au cx r alias_id dc p adm sequence st)"

section \<open>Cost and token envelope\<close>

definition input_bound :: "authority \<Rightarrow> chat_request \<Rightarrow> int" where
  "input_bound au q = int (au_request_bytes au q) + 128"

text \<open>The loop over the price components; \<open>total\<close> is what they add up to so far.\<close>

fun price_total :: "int \<Rightarrow> int \<Rightarrow> price_component list \<Rightarrow> rat \<Rightarrow> rat res" where
  "price_total input out_tokens [] summed = ok summed"
| "price_total input out_tokens (p # ps) summed =
     (let name = pc_component p in
      if \<not> pc_usd p then denied
      else if name \<in> {''prompt'', ''completion''} \<and> pc_unit p = PuToken
      then price_total input out_tokens ps
             (summed + pc_amount p * of_int (if name = ''prompt'' then input else out_tokens))
      else if name = ''request'' \<and> pc_unit p = PuRequest
      then (if pc_amount p \<noteq> 0 then denied else price_total input out_tokens ps summed)
      else if pc_amount p \<noteq> 0 \<or> pc_unit p = PuUnknown then denied
      else price_total input out_tokens ps summed)"

definition cost_bound :: "target \<Rightarrow> int \<Rightarrow> int \<Rightarrow> int res" where
  "cost_bound t input out_tokens =
     (if tg_local t \<noteq> None then ok 0
      else case tg_endpoint t of None \<Rightarrow> Inl AssertionError
      | Some e \<Rightarrow>
          let names = map pc_component (en_prices e) in
          if \<not> distinct names \<or> \<not> {''prompt'', ''completion'', ''request''} \<subseteq> set names
             \<or> fact_value (en_conditional_pricing e) \<noteq> Some ''none'' then denied
          else rbind (price_total input out_tokens (en_prices e) 0) (\<lambda>summed. ok \<lceil>summed * 1000000\<rceil>))"

definition local_envelope :: "local_deployment \<Rightarrow> int \<Rightarrow> int \<Rightarrow> bool" where
  "local_envelope d count wanted =
     (fact_value (ld_weights_digest d) \<noteq> None \<and> fact_value (ld_privacy d) = Some ''local_only''
      \<and> (case (fact_value (ld_context_tokens d), fact_value (ld_max_output_tokens d)) of
           (Some context, Some most) \<Rightarrow> count + wanted \<le> context \<and> wanted \<le> most | _ \<Rightarrow> False))"

definition endpoint_envelope :: "endpoint \<Rightarrow> int \<Rightarrow> int \<Rightarrow> unit res" where
  "endpoint_envelope e count wanted =
     rbind (effective_output_limit e count) (\<lambda>most.
     deny_if ((case most of None \<Rightarrow> True | Some l \<Rightarrow> l < wanted)
       \<or> fact_value (en_privacy e) \<noteq> Some ''zdr''
       \<or> fact_value (en_provider_restrictions e) \<noteq> Some ''none''
       \<or> en_routing_model_id e = ''openrouter/auto'' \<or> CHR '':'' \<in> set (en_routing_model_id e)))"

definition target_parameters :: "target \<Rightarrow> string list option" where
  "target_parameters t = (case tg_local t of Some d \<Rightarrow> fact_value (ld_supported_parameters d)
     | None \<Rightarrow> (case tg_endpoint t of None \<Rightarrow> None | Some e \<Rightarrow> fact_value (en_supported_parameters e)))"

definition request_parameters :: "target \<Rightarrow> chat_request \<Rightarrow> string list" where
  "request_parameters t q = [''max_tokens'']
     @ (if cq_temperature q \<noteq> None then [''temperature''] else [])
     @ (if or_default [] (tg_approved_endpoint_id t) \<noteq> [] \<and> cq_stream q then [''stream''] else [])
     @ (if tools_of q \<noteq> [] then [''tools''] else [])
     @ (if cq_tool_choice q \<noteq> None then [''tool_choice''] else [])
     @ (if cq_response_format q \<noteq> None then [''response_format''] else [])"

definition endpoint_name :: "target \<Rightarrow> string" where
  "endpoint_name t = (let approved = or_default [] (tg_approved_endpoint_id t) in
     if approved \<noteq> [] then approved
     else case tg_endpoint t of Some e \<Rightarrow> en_id e | None \<Rightarrow> ''ollama-loopback-11444'')"

definition restrictions_ok :: "authorized \<Rightarrow> route_requirements \<Rightarrow> bool" where
  "restrictions_ok a r = (let t = az_target a in
     (rr_allowed_endpoint_ids r = [] \<or> endpoint_name t \<in> set (rr_allowed_endpoint_ids r))
     \<and> (rr_local_only r \<longrightarrow> az_local_egress a)
     \<and> (case rr_required_region r of None \<Rightarrow> True | Some region \<Rightarrow>
          region = [] \<or> fact_value (cfg_region (tg_configuration t)) = Some region))"

definition preflight :: "authority \<Rightarrow> authorized \<Rightarrow> chat_request \<Rightarrow> int res" where
  "preflight au a q =
     (let st = az_stage a; budget = es_budget st; t = az_target a; count = input_bound au q;
          wanted = cq_max_tokens q;
          needed = request_parameters t q
            @ (case es_route_requirements st of None \<Rightarrow> [] | Some r \<Rightarrow> rr_required_parameters r) in
      rbind (deny_if (cq_stream q \<and> es_validation_rules st \<noteq> [])) (\<lambda>_.
      rbind (deny_if (eb_max_input_tokens budget < count \<or> eb_max_output_tokens budget < wanted)) (\<lambda>_.
      rbind (case tg_local t of Some d \<Rightarrow> deny_if (\<not> local_envelope d count wanted)
             | None \<Rightarrow> (case tg_endpoint t of None \<Rightarrow> Inl AssertionError
                 | Some e \<Rightarrow> endpoint_envelope e count wanted)) (\<lambda>_.
      rbind (case es_route_requirements st of None \<Rightarrow> ok ()
             | Some r \<Rightarrow> deny_if (\<not> restrictions_ok a r)) (\<lambda>_.
      rbind (deny_if (tg_local t \<noteq> None
               \<and> (tools_of q \<noteq> [] \<or> cq_response_format q \<noteq> None \<or> cq_stream q))) (\<lambda>_.
      rbind (deny_if (case target_parameters t of None \<Rightarrow> True
               | Some ps \<Rightarrow> \<not> set needed \<subseteq> set ps)) (\<lambda>_.
      rbind (cost_bound t count wanted) (\<lambda>amount.
      rbind (deny_if (eb_max_cost budget < amount)) (\<lambda>_. ok amount)))))))))"

section \<open>The bound covers every charge within the envelope\<close>

text \<open>
  What a provider may charge for one request, given how much of each component it
  bills: tokens of the prompt and of the completion, one request, and anything else.
\<close>

definition charge :: "price_component list \<Rightarrow> (string \<Rightarrow> rat) \<Rightarrow> rat" where
  "charge ps quantity = sum_list (map (\<lambda>p. pc_amount p * quantity (pc_component p)) ps)"

lemma price_total_Cons:
  "price_total input out_tokens (p # ps) summed = Inr result \<longleftrightarrow> pc_usd p \<and>
     (if pc_component p \<in> {''prompt'', ''completion''} \<and> pc_unit p = PuToken
      then price_total input out_tokens ps (summed + pc_amount p
        * of_int (if pc_component p = ''prompt'' then input else out_tokens)) = Inr result
      else pc_amount p = 0 \<and> price_total input out_tokens ps summed = Inr result
        \<and> (pc_component p = ''request'' \<and> pc_unit p = PuRequest \<or> pc_unit p \<noteq> PuUnknown))"
  by (simp add: Let_def denied_def del: insert_iff)

lemma price_total_charge:
  assumes "price_total input out_tokens ps summed = Inr result"
    and "\<forall>p\<in>set ps. 0 \<le> pc_amount p"
    and "quantity ''prompt'' \<le> of_int input" and "quantity ''completion'' \<le> of_int out_tokens"
  shows "summed + charge ps quantity \<le> result"
  using assms(1,2)
proof (induction ps arbitrary: summed)
  case Nil
  then show ?case by (simp add: charge_def)
next
  case (Cons p ps)
  let ?name = "pc_component p"
  have run: "price_total input out_tokens (p # ps) summed = Inr result"
    and pos: "0 \<le> pc_amount p" and rest: "\<forall>p\<in>set ps. 0 \<le> pc_amount p"
    using Cons.prems by auto
  have split: "charge (p # ps) quantity = pc_amount p * quantity ?name + charge ps quantity"
    by (simp add: charge_def)
  show ?case
  proof (cases "?name \<in> {''prompt'', ''completion''} \<and> pc_unit p = PuToken")
    case True
    let ?n = "if ?name = ''prompt'' then input else out_tokens"
    have "pc_amount p * quantity ?name \<le> pc_amount p * of_int ?n"
      using True assms(3,4) pos by (auto intro: mult_left_mono)
    moreover have "price_total input out_tokens ps (summed + pc_amount p * of_int ?n) = Inr result"
      using run unfolding price_total_Cons if_P [OF True] by simp
    then have "summed + pc_amount p * of_int ?n + charge ps quantity \<le> result"
      using Cons.IH rest by blast
    ultimately show ?thesis
      unfolding split by linarith
  next
    case False
    have zero: "pc_amount p = 0" and rest_run: "price_total input out_tokens ps summed = Inr result"
      using run unfolding price_total_Cons if_not_P [OF False] by simp_all
    have "summed + charge ps quantity \<le> result"
      using Cons.IH [OF rest_run rest] .
    then show ?thesis
      unfolding split zero by simp
  qed
qed

lemma cost_bound_charge:
  assumes bound: "cost_bound t input out_tokens = Inr amount"
    and target: "target_deployment t" and e: "tg_endpoint t = Some e"
    and "quantity ''prompt'' \<le> of_int input" and "quantity ''completion'' \<le> of_int out_tokens"
  shows "charge (en_prices e) quantity * 1000000 \<le> of_int amount"
proof -
  have "tg_local t = None"
    using target e by (auto simp: target_deployment_def)
  then obtain summed where summed: "price_total input out_tokens (en_prices e) 0 = Inr summed"
    and amount: "amount = \<lceil>summed * 1000000\<rceil>"
    using bound e by (auto simp: cost_bound_def rbind_Inr_iff Let_def denied_def split: if_splits)
  have "\<forall>p\<in>set (en_prices e). 0 \<le> pc_amount p"
    using target e by (auto simp: target_deployment_def list_all_iff finite_price_def)
  then have "charge (en_prices e) quantity \<le> summed"
    using price_total_charge [OF summed _ assms(4,5)] by simp
  then have "charge (en_prices e) quantity * 1000000 \<le> summed * 1000000"
    by (simp add: mult_right_mono)
  also have "\<dots> \<le> of_int amount"
    unfolding amount by (rule le_of_int_ceiling)
  finally show ?thesis .
qed

lemma preflight_ok:
  assumes "preflight au a q = Inr amount"
  shows "cost_bound (az_target a) (input_bound au q) (cq_max_tokens q) = Inr amount"
    and "amount \<le> eb_max_cost (es_budget (az_stage a))"
    and "input_bound au q \<le> eb_max_input_tokens (es_budget (az_stage a))"
    and "cq_max_tokens q \<le> eb_max_output_tokens (es_budget (az_stage a))"
    and "cq_stream q \<Longrightarrow> es_validation_rules (az_stage a) = []"
    and "tg_local (az_target a) = None \<Longrightarrow> \<exists>e. tg_endpoint (az_target a) = Some e
           \<and> endpoint_envelope e (input_bound au q) (cq_max_tokens q) = Inr ()"
  using assms by (auto simp: preflight_def rbind_Inr_iff Let_def not_less split: option.splits)

lemma cost_bound_nonneg:
  assumes "cost_bound t input out_tokens = Inr amount" and "target_deployment t"
    and "0 \<le> input" and "0 \<le> out_tokens"
  shows "0 \<le> amount"
proof (cases "tg_endpoint t")
  case None
  then show ?thesis
    using assms(1) by (auto simp: cost_bound_def split: if_splits)
next
  case (Some e)
  have "charge (en_prices e) (\<lambda>_. 0) * 1000000 \<le> of_int amount"
    by (rule cost_bound_charge [OF assms(1,2) Some]) (use assms(3,4) in simp_all)
  then show ?thesis
    by (simp add: charge_def sum_list_0)
qed

section \<open>The cache never changes an answer\<close>

text \<open>\<open>S\<close> is the set of workflow and catalog pairs whose digests do not collide.\<close>

definition selection_sound :: "authority \<Rightarrow> (workflow \<times> catalog) set \<Rightarrow> int \<Rightarrow> selection_cache
    \<Rightarrow> bool" where
  "selection_sound au S now cache = (\<forall>w c deadline ids t. (w, c) \<in> S \<and>
     map_of cache (au_selection_key au w c) = Some (deadline, ids) \<and> now \<le> t \<and> t < deadline \<longrightarrow>
     (\<exists>f. filter_candidates (au_parse au) t w c = Inr f \<and> fr_eligible f = ids))"

definition key_injective :: "authority \<Rightarrow> (workflow \<times> catalog) set \<Rightarrow> bool" where
  "key_injective au S = inj_on (\<lambda>(w, c). au_selection_key au w c) S"

lemma checks_cong:
  assumes "\<And>e. e \<in> set (cat_eligibility c) \<Longrightarrow>
    eligibility_current parse t e = eligibility_current parse t' e"
  shows "candidate_checks parse t w c k a = candidate_checks parse t' w c k a"
proof -
  have "(case List.find P (cat_eligibility c) of None \<Rightarrow> False | Some e \<Rightarrow> eligibility_current parse t e)
    = (case List.find P (cat_eligibility c) of None \<Rightarrow> False | Some e \<Rightarrow> eligibility_current parse t' e)" for P
  proof (cases "List.find P (cat_eligibility c)")
    case (Some e)
    then have "e \<in> set (cat_eligibility c)"
      by (auto simp: find_Some_iff)
    then show ?thesis
      using assms Some by simp
  qed simp
  then show ?thesis
    unfolding candidate_checks_def Let_def by simp
qed

lemma filter_cong_time:
  assumes "\<And>e. e \<in> set (cat_eligibility c) \<Longrightarrow>
    eligibility_current parse t e = eligibility_current parse t' e"
  shows "filter_candidates parse t w c = filter_candidates parse t' w c"
proof -
  have "assess_one parse t w c = assess_one parse t' w c"
    by (rule ext) (simp add: assess_one_def checks_cong [OF assms] cong: option.case_cong)
  then show ?thesis
    by (simp add: filter_candidates_def assess_def)
qed

lemma reuse_until_Some:
  assumes "reuse_until parse now es deadline = Some d"
  shows "d \<le> deadline" and "e \<in> set es \<Longrightarrow> now \<le> t \<Longrightarrow> t < d \<Longrightarrow> eligibility_current parse t e"
  using assms
  by (induction es arbitrary: deadline)
    (fastforce simp: eligibility_current_def split: option.splits if_splits)+

lemma reuse_filter:
  assumes d: "reuse_until (au_parse au) now (cat_eligibility c) deadline = Some d"
    and f: "filter_candidates (au_parse au) now w c = Inr f" and t: "now \<le> t" "t < d"
  shows "filter_candidates (au_parse au) t w c = Inr f"
proof -
  have "filter_candidates (au_parse au) t w c = filter_candidates (au_parse au) now w c"
    by (rule filter_cong_time) (use reuse_until_Some(2) [OF d] t in auto)
  then show ?thesis
    using f by simp
qed

lemma map_of_drop_key: "map_of (drop_key key cache) i = (if i = key then None else map_of cache i)"
  by (induction cache) (auto simp: drop_key_def)

lemma distinct_drop_key: "distinct (map fst c) \<Longrightarrow> distinct (map fst (drop_key key c))"
  by (simp add: drop_key_def distinct_map_filter)

lemma map_of_moved:
  "map_of (drop_key key cache @ [(key, v)]) i = (if i = key then Some v else map_of cache i)"
  by (auto simp: map_add_def map_of_drop_key split: option.splits)

lemma map_of_drop_first:
  assumes "distinct (map fst c)" and "map_of (drop n c) i = Some v"
  shows "map_of c i = Some v"
  using assms(1) in_set_dropD [OF map_of_SomeD [OF assms(2)]] by (rule map_of_is_SomeI)

lemma map_of_store:
  assumes "distinct (map fst cache)" and "map_of (store_selection key v cache) i = Some u"
  shows "if i = key then u = v else map_of cache i = Some u"
proof -
  let ?c = "drop_key key cache @ [(key, v)]"
  have "distinct (map fst ?c)"
    using distinct_drop_key [OF assms(1), of key] by (auto simp: drop_key_def)
  then have "map_of ?c i = Some u"
    using assms(2) unfolding store_selection_def Let_def by (rule map_of_drop_first)
  then show ?thesis
    unfolding map_of_moved by (auto split: if_splits)
qed

lemma distinct_store:
  assumes "distinct (map fst cache)"
  shows "distinct (map fst (store_selection key v cache))"
    and "distinct (map fst (touch_selection key cache))"
proof -
  have moved: "distinct (map fst (drop_key key cache @ [(key, u)]))" for u
    using distinct_drop_key [OF assms, of key] by (auto simp: drop_key_def)
  show "distinct (map fst (store_selection key v cache))"
    unfolding store_selection_def Let_def drop_map [symmetric] by (rule distinct_drop) (rule moved)
  show "distinct (map fst (touch_selection key cache))"
    unfolding touch_selection_def using moved assms by (simp del: map_append split: option.splits)
qed

definition cache_ok :: "authority \<Rightarrow> (workflow \<times> catalog) set \<Rightarrow> gw \<Rightarrow> bool" where
  "cache_ok au S s = (distinct (map fst (gw_cache s)) \<and> selection_sound au S (gw_now s) (gw_cache s))"

lemma selection_sound_later:
  "selection_sound au S now cache \<Longrightarrow> now \<le> now' \<Longrightarrow> selection_sound au S now' cache"
  unfolding selection_sound_def by (meson order_trans)

lemma cache_untouched: "\<exists>cache. (s::gw) = s\<lparr> gw_cache := cache \<rparr>"
  by (rule exI [of _ "gw_cache s"]) simp

lemma eligible_ids_run:
  assumes inj: "key_injective au S" and here: "(w, c) \<in> S" and ok: "cache_ok au S s"
    and run: "eligible_ids au w c s = (r, s')"
  shows "r = map_sum id fr_eligible (filter_candidates (au_parse au) (gw_now s) w c)"
    and "cache_ok au S s'" and "\<exists>cache. s' = s\<lparr> gw_cache := cache \<rparr>"
proof -
  let ?key = "au_selection_key au w c" and ?now = "gw_now s" and ?cache = "gw_cache s"
  have d: "distinct (map fst ?cache)" and sound: "selection_sound au S ?now ?cache"
    using ok by (auto simp: cache_ok_def)
  have "r = map_sum id fr_eligible (filter_candidates (au_parse au) ?now w c) \<and> cache_ok au S s'
    \<and> (\<exists>cache. s' = s\<lparr> gw_cache := cache \<rparr>)"
  proof (cases "lookup_selection ?key ?now ?cache")
    case (Some ids)
    then obtain deadline where hit: "map_of ?cache ?key = Some (deadline, ids)" "?now < deadline"
      by (auto simp: lookup_selection_def split: option.splits prod.splits if_splits)
    then obtain f where "filter_candidates (au_parse au) ?now w c = Inr f" "fr_eligible f = ids"
      using sound here by (force simp: selection_sound_def)
    moreover have "r = Inr ids" "s' = s\<lparr> gw_cache := touch_selection ?key ?cache \<rparr>"
      using run Some by (auto simp: eligible_ids_def bindM_run thenM_run Let_def)
    moreover have "map_of (touch_selection ?key ?cache) = map_of ?cache"
      by (rule ext) (auto simp: touch_selection_def map_of_moved simp del: map_of_append
          split: option.splits)
    ultimately show ?thesis
      using sound distinct_store(2) [OF d] by (auto simp: cache_ok_def selection_sound_def)
  next
    case None
    show ?thesis
    proof (cases "filter_candidates (au_parse au) ?now w c")
      case (Inl e)
      then show ?thesis
        using run None ok cache_untouched [of s] by (auto simp: eligible_ids_def bindM_run Let_def)
    next
      case (Inr f)
      show ?thesis
      proof (cases "reuse_until (au_parse au) ?now (cat_eligibility c) (?now + micros 5)")
        case none: None
        then show ?thesis
          using run None Inr ok cache_untouched [of s]
          by (auto simp: eligible_ids_def bindM_run Let_def)
      next
        case (Some dl)
        have s': "s' = s\<lparr> gw_cache := store_selection ?key (dl, fr_eligible f) ?cache \<rparr>"
          and r: "r = Inr (fr_eligible f)"
          using run None Inr Some by (auto simp: eligible_ids_def bindM_run thenM_run Let_def)
        have "selection_sound au S ?now (store_selection ?key (dl, fr_eligible f) ?cache)"
          unfolding selection_sound_def
        proof (intro allI impI, elim conjE)
          fix w' c' deadline ids t
          assume here': "(w', c') \<in> S"
            and m: "map_of (store_selection ?key (dl, fr_eligible f) ?cache) (au_selection_key au w' c')
              = Some (deadline, ids)" and t: "?now \<le> t" "t < deadline"
          show "\<exists>f. filter_candidates (au_parse au) t w' c' = Inr f \<and> fr_eligible f = ids"
          proof (cases "au_selection_key au w' c' = ?key")
            case True
            then have same: "w' = w" "c' = c"
              using inj_onD [OF inj [unfolded key_injective_def], of "(w', c')" "(w, c)"] here here'
              by simp_all
            moreover have "deadline = dl" "ids = fr_eligible f"
              using map_of_store [OF d m] True by auto
            ultimately show ?thesis
              using reuse_filter [OF Some Inr t(1)] t(2) by auto
          next
            case False
            then have "map_of ?cache (au_selection_key au w' c') = Some (deadline, ids)"
              using map_of_store [OF d m] by simp
            then show ?thesis
              using sound t here' by (auto simp: selection_sound_def)
          qed
        qed
        then show ?thesis
          using distinct_store(1) [OF d] by (auto simp: s' r Inr cache_ok_def)
      qed
    qed
  qed
  then show "r = map_sum id fr_eligible (filter_candidates (au_parse au) (gw_now s) w c)"
    and "cache_ok au S s'" and "\<exists>cache. s' = s\<lparr> gw_cache := cache \<rparr>"
    by blast+
qed

section \<open>What an authorised stage is\<close>

lemma on_db_query [simp]: "on_db (query q) s = (q (gw_db s), s)"
  by (simp add: on_db_def query_def bindM_def)

text \<open>Authorising touches nothing but the selection cache.\<close>

definition only_cache :: "gw \<Rightarrow> gw \<Rightarrow> bool" where
  "only_cache s t = (\<exists>cache. t = s\<lparr> gw_cache := cache \<rparr>)"

interpretation oc: effect_order only_cache
  by unfold_locales (auto simp: only_cache_def cache_untouched)

lemma only_cache_same:
  assumes "only_cache s t"
  shows "gw_db t = gw_db s" and "gw_now t = gw_now s" and "gw_log t = gw_log s"
    and "gw_cancelled t = gw_cancelled s"
  using assms by (auto simp: only_cache_def)

lemma only_cache_query: "relates only_cache (on_db (query q))"
  by (simp add: relates_def only_cache_def cache_untouched)

lemma only_cache_parts:
  "relates only_cache (call_back chk)" "relates only_cache (require_op b)"
  "relates only_cache denied_op" "relates only_cache (eligible_ids au w c)"
proof -
  show "relates only_cache (call_back chk)"
    unfolding call_back_def by (intro oc.rel_rules)
  show "relates only_cache (require_op b)" and "relates only_cache denied_op"
    unfolding require_op_def denied_op_def by (intro oc.rel_rules)+
  have "relates only_cache (modifyM (\<lambda>s. s\<lparr> gw_cache := g s \<rparr>))" for g
    by (rule oc.rel_modify) (auto simp: only_cache_def)
  then show "relates only_cache (eligible_ids au w c)"
    unfolding eligible_ids_def Let_def by (intro oc.rel_rules)
qed

lemma only_cache_policy: "relates only_cache (authority_policy au cx chk r)"
  unfolding authority_policy_def Let_def
  by (intro oc.rel_rules only_cache_query only_cache_parts)

lemma only_cache_stage: "relates only_cache (authority_stage au cx chk r node al dc configuration)"
  unfolding authority_stage_def authorize_target_def planned_catalog_def profile_checks_def Let_def
  by (intro oc.rel_rules only_cache_query only_cache_parts only_cache_policy)

definition authorises :: "authority \<Rightarrow> request_context \<Rightarrow> callback \<Rightarrow> version_ref \<Rightarrow> string \<Rightarrow> data_class
    \<Rightarrow> string option \<Rightarrow> gw \<Rightarrow> authorized \<Rightarrow> bool" where
  "authorises au cx chk r node dc configuration s a =
     (let tenant = cx_tenant_id cx; now = gw_now s; p = az_policy a; adm = az_admission a;
          t = az_target a; cred = az_credential a; offline = env_offline (au_env au);
          k = or_default [] (es_configuration_id (az_stage a)) in
      chk s = Inr () \<and> now < cx_deadline cx
      \<and> (\<exists>v. policy (au_env au) tenant r (gw_db s) = Inr v \<and> vw_policy v = p
           \<and> authorize_sandbox (env_digest (au_env au)) tenant p (vw_transition v) adm now offline = Inr ())
      \<and> pinned_stage p node configuration = Some (az_stage a)
      \<and> au_target au tenant k = Inr t \<and> cfg_id (tg_configuration t) = k
      \<and> tg_catalog_id t = ep_catalog_id p
      \<and> (au_is_local au tenant t \<or> \<not> no_egress (ep_workflow p))
      \<and> (offline \<or> envelope_approved t now)
      \<and> (\<exists>c f. au_catalog au tenant (ep_catalog_id p) = Inr c
           \<and> tg_configuration t \<in> set (cat_configurations c) \<and> (cat_synthetic c \<longrightarrow> offline)
           \<and> filter_candidates (au_parse au) now (ep_workflow p) c = Inr f
           \<and> k \<in> set (fr_eligible f))
      \<and> (\<exists>g. au_grant au tenant k = Inr g \<and> grant_allows g cx now k dc adm
           \<and> shared_credentials g adm = [cr_id cred])
      \<and> cr_tenant_id cred = tenant \<and> now < cr_expires_at cred \<and> cr_adapter_id cred = adapter_of t)"

lemma require_op_ok [simp]: "require_op b s = (Inr u, t) \<longleftrightarrow> b \<and> t = s"
  by (simp add: require_op_def)

lemma call_back_run [simp]: "call_back chk s = (chk s, s)"
  by (simp add: call_back_def bindM_run)

lemma authority_policy_ok:
  assumes "authority_policy au cx chk r s = (Inr (p, adm, sequence), t)"
  shows "t = s \<and> chk s = Inr () \<and> gw_now s < cx_deadline cx
    \<and> (\<exists>v. policy (au_env au) (cx_tenant_id cx) r (gw_db s) = Inr v \<and> vw_policy v = p
        \<and> pt_sequence (vw_transition v) = sequence
        \<and> authorize_sandbox (env_digest (au_env au)) (cx_tenant_id cx) p (vw_transition v) adm
            (gw_now s) (env_offline (au_env au)) = Inr ())"
  using assms by (auto simp: authority_policy_def Let_def bindM_ok_iff thenM_ok_iff)

lemma planned_catalog_ok: "planned_catalog cx p c s = (Inr u, t) \<Longrightarrow> t = s"
  by (auto simp: planned_catalog_def bindM_ok_iff)

lemma profile_checks_ok: "profile_checks au cx p tg c k profile s = (Inr u, t) \<Longrightarrow> t = s"
  by (auto simp: profile_checks_def bindM_ok_iff thenM_ok_iff)

lemma authorize_target_ok:
  assumes "authorize_target au cx r al dc p adm sequence st s = (Inr a, s')"
  obtains t c ids g cred where "au_target au (cx_tenant_id cx) (or_default [] (es_configuration_id st)) = Inr t"
    and "au_is_local au (cx_tenant_id cx) t \<or> \<not> no_egress (ep_workflow p)"
    and "cfg_id (tg_configuration t) = or_default [] (es_configuration_id st)"
    and "tg_catalog_id t = ep_catalog_id p"
    and "au_catalog au (cx_tenant_id cx) (ep_catalog_id p) = Inr c"
    and "cat_synthetic c \<longrightarrow> env_offline (au_env au)"
    and "env_offline (au_env au) \<or> envelope_approved t (gw_now s)"
    and "tg_configuration t \<in> set (cat_configurations c)"
    and "eligible_ids au (ep_workflow p) c s = (Inr ids, s')"
    and "or_default [] (es_configuration_id st) \<in> set ids"
    and "au_grant au (cx_tenant_id cx) (or_default [] (es_configuration_id st)) = Inr g"
    and "grant_allows g cx (gw_now s) (or_default [] (es_configuration_id st)) dc adm"
    and "shared_credentials g adm = [cr_id cred]" and "cr_tenant_id cred = cx_tenant_id cx"
    and "gw_now s < cr_expires_at cred" and "cr_adapter_id cred = adapter_of t"
    and "a = \<lparr> az_policy = p, az_stage = st, az_admission = adm, az_target = t,
             az_credential = cred, az_trace = stage_trace cx r al p adm sequence st t,
             az_data_class = dc, az_local_egress = au_is_local au (cx_tenant_id cx) t \<rparr>"
proof -
  from assms obtain t c ids g cred where
      1: "au_target au (cx_tenant_id cx) (or_default [] (es_configuration_id st)) = Inr t"
      "\<not> (\<not> au_is_local au (cx_tenant_id cx) t \<and> no_egress (ep_workflow p))"
      "cfg_id (tg_configuration t) = or_default [] (es_configuration_id st)"
      "tg_catalog_id t = ep_catalog_id p"
      "au_catalog au (cx_tenant_id cx) (ep_catalog_id p) = Inr c"
      "\<not> (cat_synthetic c \<and> \<not> env_offline (au_env au))"
      "env_offline (au_env au) \<or> envelope_approved t (gw_now s)"
      "tg_configuration t \<in> set (cat_configurations c)"
      "eligible_ids au (ep_workflow p) c s = (Inr ids, s')"
      "or_default [] (es_configuration_id st) \<in> set ids"
    and 2: "au_grant au (cx_tenant_id cx) (or_default [] (es_configuration_id st)) = Inr g"
      "grant_allows g cx (gw_now s) (or_default [] (es_configuration_id st)) dc adm"
      "length (shared_credentials g adm) = 1"
      "cr_id cred \<in> set (shared_credentials g adm)" "cr_tenant_id cred = cx_tenant_id cx"
      "gw_now s < cr_expires_at cred" "cr_adapter_id cred = adapter_of t"
    and a: "a = \<lparr> az_policy = p, az_stage = st, az_admission = adm, az_target = t,
        az_credential = cred, az_trace = stage_trace cx r al p adm sequence st t,
        az_data_class = dc, az_local_egress = au_is_local au (cx_tenant_id cx) t \<rparr>"
    unfolding authorize_target_def Let_def bindM_ok_iff thenM_ok_iff
    by (auto split: if_splits option.splits dest!: planned_catalog_ok profile_checks_ok)
  have "shared_credentials g adm = [cr_id cred]"
    using 2(3,4) by (cases "shared_credentials g adm") auto
  then show thesis
    using 1 2 a by (intro that [of t c ids g cred]) blast+
qed

lemma stage_target:
  assumes "authority_stage au cx chk r node al dc configuration s = (Inr a, s')"
    and "\<And>tenant k t. au_target au tenant k = Inr t \<Longrightarrow> P t"
  shows "P (az_target a)"
proof -
  from assms(1) obtain p adm sequence s1 st where
      "authorize_target au cx r al dc p adm sequence st s1 = (Inr a, s')"
    unfolding authority_stage_def bindM_ok_iff by (auto simp: denied_op_def split: option.splits)
  then show ?thesis
    by (rule authorize_target_ok) (use assms(2) in simp)
qed

lemma authority_stage_ok:
  assumes run: "authority_stage au cx chk r node al dc configuration s = (Inr a, s')"
    and inj: "key_injective au S" and cache: "cache_ok au S s"
    and here: "\<And>c. au_catalog au (cx_tenant_id cx) (ep_catalog_id (az_policy a)) = Inr c \<Longrightarrow>
      (ep_workflow (az_policy a), c) \<in> S"
  shows "authorises au cx chk r node dc configuration s a" and "cache_ok au S s'"
    and "\<exists>sequence. az_trace a = stage_trace cx r al (az_policy a) (az_admission a) sequence
         (az_stage a) (az_target a)"
    and "az_local_egress a = au_is_local au (cx_tenant_id cx) (az_target a)"
proof -
  from run obtain p adm sequence s1 where
      pol1: "authority_policy au cx chk r s = (Inr (p, adm, sequence), s1)"
    and next_step: "(case pinned_stage p node configuration of None \<Rightarrow> denied_op
      | Some st \<Rightarrow> authorize_target au cx r al dc p adm sequence st) s1 = (Inr a, s')"
    unfolding authority_stage_def bindM_ok_iff by auto
  have pol: "authority_policy au cx chk r s = (Inr (p, adm, sequence), s)" and s1: "s1 = s"
    using authority_policy_ok [OF pol1] pol1 by simp_all
  obtain st where st: "pinned_stage p node configuration = Some st"
    and rest: "authorize_target au cx r al dc p adm sequence st s = (Inr a, s')"
    using next_step s1 by (auto simp: denied_op_def split: option.splits)
  from rest obtain t c ids g cred where a: "a = \<lparr> az_policy = p, az_stage = st, az_admission = adm,
        az_target = t, az_credential = cred, az_trace = stage_trace cx r al p adm sequence st t,
        az_data_class = dc, az_local_egress = au_is_local au (cx_tenant_id cx) t \<rparr>"
    and facts: "au_target au (cx_tenant_id cx) (or_default [] (es_configuration_id st)) = Inr t"
      "au_is_local au (cx_tenant_id cx) t \<or> \<not> no_egress (ep_workflow p)"
      "cfg_id (tg_configuration t) = or_default [] (es_configuration_id st)"
      "tg_catalog_id t = ep_catalog_id p" "cat_synthetic c \<longrightarrow> env_offline (au_env au)"
      "env_offline (au_env au) \<or> envelope_approved t (gw_now s)"
      "tg_configuration t \<in> set (cat_configurations c)"
      "or_default [] (es_configuration_id st) \<in> set ids"
      "au_grant au (cx_tenant_id cx) (or_default [] (es_configuration_id st)) = Inr g"
      "grant_allows g cx (gw_now s) (or_default [] (es_configuration_id st)) dc adm"
      "shared_credentials g adm = [cr_id cred]" "cr_tenant_id cred = cx_tenant_id cx"
      "gw_now s < cr_expires_at cred" "cr_adapter_id cred = adapter_of t"
    and c: "au_catalog au (cx_tenant_id cx) (ep_catalog_id p) = Inr c"
    and ids: "eligible_ids au (ep_workflow p) c s = (Inr ids, s')"
    by (rule authorize_target_ok) blast
  note sel = eligible_ids_run [OF inj here [unfolded a, simplified, OF c] cache ids]
  obtain f where f: "filter_candidates (au_parse au) (gw_now s) (ep_workflow p) c = Inr f"
    and "fr_eligible f = ids"
    using sel(1) by (cases "filter_candidates (au_parse au) (gw_now s) (ep_workflow p) c") auto
  then show "authorises au cx chk r node dc configuration s a"
    using authority_policy_ok [OF pol] st facts c unfolding authorises_def Let_def a by simp blast
  show "cache_ok au S s'"
    by (rule sel(2))
  show "\<exists>sequence. az_trace a = stage_trace cx r al (az_policy a) (az_admission a) sequence
         (az_stage a) (az_target a)"
    and "az_local_egress a = au_is_local au (cx_tenant_id cx) (az_target a)"
    unfolding a by auto
qed

section \<open>An example\<close>

text \<open>A tenant with a model at two endpoints, one the fallback of the other.\<close>

definition ex_endpoint :: endpoint where
  "ex_endpoint = \<lparr> en_id = ''e'', en_artifact_id = ''m'', en_routing_model_id = ''lab/m'',
     en_endpoint_tag = ''tag'',
     en_supported_parameters = ex_fact [''max_tokens'', ''temperature''],
     en_context_tokens = ex_fact 2000, en_max_prompt_tokens = ex_fact 1500,
     en_max_completion_tokens = ex_fact 500, en_region = ex_fact ''eu'',
     en_privacy = ex_fact ''zdr'', en_provider_restrictions = ex_fact ''none'',
     en_prices = [
       \<lparr> pc_component = ''prompt'', pc_amount = 1 / 1000000, pc_usd = True, pc_unit = PuToken,
         pc_usd_per_million_tokens = Some 1 \<rparr>,
       \<lparr> pc_component = ''completion'', pc_amount = 2 / 1000000, pc_usd = True, pc_unit = PuToken,
         pc_usd_per_million_tokens = Some 2 \<rparr>,
       \<lparr> pc_component = ''request'', pc_amount = 0, pc_usd = True, pc_unit = PuRequest,
         pc_usd_per_million_tokens = None \<rparr>],
     en_conditional_pricing = ex_fact ''none'' \<rparr>"

definition ex_target :: "string \<Rightarrow> target" where
  "ex_target k = \<lparr> tg_configuration = ex_candidate k (if k = ''a'' then 3 else 2),
     tg_catalog_id = ''c'', tg_endpoint = Some ex_endpoint, tg_local = None,
     tg_observed_run_ids = [], tg_limitations = [], tg_approved_endpoint_id = None,
     tg_expires_at = None, tg_token_envelope_approved = None \<rparr>"

definition ex_credential :: credential_reference where
  "ex_credential = \<lparr> cr_id = ''cred'', cr_tenant_id = ''o'', cr_adapter_id = AdOpenrouter,
     cr_secret_reference = Some ''env'', cr_approval_reference = ''ok'', cr_expires_at = 1000 \<rparr>"

definition ex_grant :: runtime_grant where
  "ex_grant = \<lparr> gr_id = ''g'', gr_tenant_id = ''o'', gr_configuration_ids = [''a'', ''b''],
     gr_credential_reference_ids = [''cred''], gr_allowed_data_classes = [DcTenantPrivate],
     gr_budget_reference = ''budget'', gr_permission_reference = ''ok'', gr_expires_at = 1000 \<rparr>"

definition ex_authority :: authority where
  "ex_authority = \<lparr> au_env = ex_env, au_target = (\<lambda>_ k. ok (ex_target k)),
     au_grant = (\<lambda>_ _. ok ex_grant), au_credential = (\<lambda>_ _. ok ex_credential),
     au_catalog = (\<lambda>_ _. ok ex_catalog), au_is_local = (\<lambda>_ t. tg_local t \<noteq> None),
     au_parse = (\<lambda>_. None), au_selection_key = (\<lambda>_ _. ''key''),
     au_catalog_digest = (\<lambda>_. ''digest''), au_request_bytes = (\<lambda>_. 100) \<rparr>"

definition ex_model_stage :: executable_stage where
  "ex_model_stage = ex_stage_ask\<lparr> es_configuration_id := Some ''a'',
     es_fallback_configuration_ids := [''b''] \<rparr>"

definition ex_pinned_policy :: executable_policy where
  "ex_pinned_policy = ex_policy\<lparr> ep_catalog_id := ''c'',
     ep_stages := [ex_model_stage, ex_stage_tidy] \<rparr>"

definition ex_permit :: sandbox_admission where
  "ex_permit = ex_admission\<lparr> sa_configuration_ids := [''a'', ''b''],
     sa_credential_reference_ids := [''cred''] \<rparr>"

definition ex_gate :: policy_transition where
  "ex_gate = \<lparr> pt_policy = ex_ref, pt_sequence = 2, pt_status = PsSandboxEnabled,
     pt_admission_id = Some ''adm'', pt_actor_id = ''o'', pt_occurred_at = 5 \<rparr>"

definition ex_gateway_db :: db where
  "ex_gateway_db = empty_db\<lparr>
     db_records := [row_for (''o'', KPolicy, ''pol'', 1) (PlPolicy ex_pinned_policy),
       row_for (''o'', KAdmission, ''adm'', 1) (PlAdmission ex_permit),
       row_for (''o'', KTransition, state_id ex_env ex_ref, 2) (PlTransition ex_gate)],
     db_heads := [\<lparr> hd_owner = ''o'', hd_policy_id = ''pol'', hd_policy_version = 1,
       hd_sequence = 2 \<rparr>],
     db_budgets := [\<lparr> bg_owner = ''o'', bg_id = ''budget'', bg_cap = 5000, bg_held = 0 \<rparr>] \<rparr>"

definition ex_gateway :: gw where
  "ex_gateway = \<lparr> gw_db = ex_gateway_db, gw_cache = [], gw_now = 10, gw_cancelled = None,
     gw_log = [] \<rparr>"

definition ex_context :: request_context where
  "ex_context = \<lparr> cx_tenant_id = ''o'', cx_principal_id = ''o'', cx_request_id = ''req'',
     cx_idempotency_key = ''12345678'', cx_deadline = 100, cx_application_key = None \<rparr>"

definition ex_question :: chat_request where
  "ex_question = \<lparr> cq_model = ''al'', cq_messages =
     [\<lparr> cm_role = RUser, cm_content = Some ''hi'', cm_tool_calls = None, cm_tool_call_id = None \<rparr>],
     cq_max_tokens = 16, cq_temperature = None, cq_stream = False, cq_tools = None,
     cq_tool_choice = None, cq_response_format = None \<rparr>"

definition ex_authorized :: "string \<Rightarrow> authorized" where
  "ex_authorized k = \<lparr> az_policy = ex_pinned_policy,
     az_stage = ex_model_stage\<lparr> es_configuration_id := Some k \<rparr>, az_admission = ex_permit,
     az_target = ex_target k, az_credential = ex_credential,
     az_trace = stage_trace ex_context ex_ref None ex_pinned_policy ex_permit 2
       (ex_model_stage\<lparr> es_configuration_id := Some k \<rparr>) (ex_target k),
     az_data_class = DcTenantPrivate, az_local_egress = False \<rparr>"

definition ex_pairs :: "(workflow \<times> catalog) set" where
  "ex_pairs = {(ex_workflow, ex_catalog)}"

lemma ex_key_injective: "key_injective ex_authority ex_pairs"
  by (simp add: key_injective_def ex_pairs_def)

lemma ex_cache_ok: "cache_ok ex_authority ex_pairs ex_gateway"
  by (simp add: cache_ok_def selection_sound_def ex_gateway_def)

lemma ex_eligible: "fst (eligible_ids ex_authority ex_workflow ex_catalog ex_gateway) = Inr [''a'', ''b'']"
  by code_simp

lemma ex_stage_run: "fst (authority_stage ex_authority ex_context cancellation ex_ref ''ask'' None DcTenantPrivate
    (Some ''b'') ex_gateway) = Inr (ex_authorized ''b'')"
  by code_simp

lemma ex_preflight: "preflight ex_authority (ex_authorized ''b'') ex_question = Inr 260"
  by code_simp

section \<open>Properties\<close>



text \<open>
  C38. The selection cache is transparent: whatever it holds, the eligible configurations
  are those the selector computes from scratch at that moment, errors included, as long
  as the digests of the workflow and catalog pairs in use do not collide; and the cache
  stays so.
\<close>

theorem selection_cache_transparent:
  assumes "key_injective au S" and "(w, c) \<in> S" and "cache_ok au S s"
  shows "fst (eligible_ids au w c s)
      = map_sum id fr_eligible (filter_candidates (au_parse au) (gw_now s) w c)
    \<and> cache_ok au S (snd (eligible_ids au w c s))"
  using eligible_ids_run [OF assms prod.collapse [symmetric]] by blast

theorem selection_cache_transparent_witness:
  "fst (eligible_ids ex_authority ex_workflow ex_catalog
      (snd (eligible_ids ex_authority ex_workflow ex_catalog ex_gateway))) = Inr [''a'', ''b'']"
proof -
  have here: "(ex_workflow, ex_catalog) \<in> ex_pairs"
    by (simp add: ex_pairs_def)
  note first = selection_cache_transparent [OF ex_key_injective here ex_cache_ok]
  have "gw_now (snd (eligible_ids ex_authority ex_workflow ex_catalog ex_gateway)) = gw_now ex_gateway"
    by (rule only_cache_same(2) [OF rel_snd [OF only_cache_parts(4)]])
  then show ?thesis
    using selection_cache_transparent [OF ex_key_injective here conjunct2 [OF first]] first ex_eligible
    by simp
qed

text \<open>
  C37. The amount preflight admits a request for is a hard cap: it covers, in micro-dollars
  rounded up, whatever the endpoint's published prices charge for any consumption within
  the request's token envelope, it is at most the stage's cap, and the envelope is
  within the stage's bounds.
\<close>

theorem preflight_covers_charge:
  assumes "preflight au a q = Inr amount" and "target_deployment (az_target a)"
    and "tg_endpoint (az_target a) = Some e"
    and "quantity ''prompt'' \<le> of_int (input_bound au q)"
    and "quantity ''completion'' \<le> of_int (cq_max_tokens q)"
  shows "charge (en_prices e) quantity * 1000000 \<le> of_int amount
    \<and> amount \<le> eb_max_cost (es_budget (az_stage a))
    \<and> input_bound au q \<le> eb_max_input_tokens (es_budget (az_stage a))
    \<and> cq_max_tokens q \<le> eb_max_output_tokens (es_budget (az_stage a))"
  using cost_bound_charge [OF preflight_ok(1) [OF assms(1)] assms(2,3), of quantity]
    preflight_ok(2-4) [OF assms(1)] assms(4,5) by blast

theorem preflight_covers_charge_witness:
  "charge (en_prices ex_endpoint) (\<lambda>n. if n = ''prompt'' then 228 else 16) * 1000000 \<le> 260"
proof -
  have "target_deployment (az_target (ex_authorized ''b''))"
    and "tg_endpoint (az_target (ex_authorized ''b'')) = Some ex_endpoint"
    by (simp_all add: target_deployment_def ex_authorized_def ex_target_def ex_endpoint_def
        ex_candidate_def finite_price_def)
  from preflight_covers_charge [OF ex_preflight this, of "\<lambda>n. if n = ''prompt'' then 228 else 16"]
  show ?thesis
    by (simp add: input_bound_def ex_authority_def ex_question_def)
qed

end
