(* ===== verification/Gateway.thy ===== *)
theory Gateway
  imports Preflight Validators Keys Health Runtime_Queue
begin

text \<open>
  \<open>gateway/service.py\<close>: one inference attempt, its accounting, fallback and repair, and the
  operations of the gateway.  The provider is a parameter: \<open>gt_complete\<close> is
  \<open>RuntimeInferencePort.complete\<close> under \<open>asyncio.timeout\<close>, an operation that may do anything
  to the database, the clock and the cancellation, since other tasks and processes run
  while it is awaited; between two awaits a task runs alone.  Digests, JSON texts, the
  Python parser and the conversion of an interval to whole milliseconds are parameters.
\<close>

section \<open>Environment\<close>

datatype stream_item = ItChunk chat_chunk | ItError gateway_error
  | ItObservation "completion_usage option" "int option" decision_trace

record gateway =
  gt_authority :: authority
  gt_complete :: "request_context \<Rightarrow> callback \<Rightarrow> inference_call \<Rightarrow> int \<Rightarrow> (gw, inference_result) op"
  gt_stream :: "request_context \<Rightarrow> callback \<Rightarrow> inference_call \<Rightarrow> int \<Rightarrow> (gw, stream_item) op list"
  gt_deliver :: "gateway_error + chat_chunk \<Rightarrow> (gw, unit) op"
  gt_retain_seconds :: int
  gt_repair_retain_seconds :: int
  gt_streaming_enabled :: bool
  gt_per_minute :: int
  gt_millis :: "int \<Rightarrow> int"
  gt_child :: "string \<Rightarrow> nat \<Rightarrow> string"
  gt_fingerprint :: "string \<Rightarrow> route_alias \<Rightarrow> executable_policy \<Rightarrow> chat_request \<Rightarrow> string"
  gt_dump :: "chat_completion \<Rightarrow> json"
  gt_load :: "json \<Rightarrow> chat_completion res"
  gt_observations :: "validation_observation list \<Rightarrow> json"
  gt_repair_text :: "json \<Rightarrow> validation_rule list \<Rightarrow> string"
  gt_reader :: "string \<Rightarrow> doc option"
  gt_parses :: "string \<Rightarrow> bool"

text \<open>\<open>Gateway.__init__\<close> refuses other retentions.\<close>

definition valid_gateway :: "gateway \<Rightarrow> bool" where
  "valid_gateway g = (0 \<le> gt_retain_seconds g \<and> gt_retain_seconds g \<le> 30 * 86400
     \<and> 0 \<le> gt_repair_retain_seconds g \<and> gt_repair_retain_seconds g \<le> 30 * 86400)"

definition domain_error :: "py_error \<Rightarrow> bool" where
  "domain_error x = (case x of DomainError _ _ \<Rightarrow> True | RoutedFailure _ \<Rightarrow> True | _ \<Rightarrow> False)"

definition failure_kind_of :: "py_error \<Rightarrow> failure_kind" where
  "failure_kind_of x = (case x of
     RoutedFailure k \<Rightarrow> k
   | CancelledError \<Rightarrow> FkCancelled
   | GeneratorExit \<Rightarrow> FkCancelled
   | TimeoutError \<Rightarrow> FkTimeout
   | DomainError _ status \<Rightarrow>
       if status = 408 then FkTimeout
       else if status = 429 then FkRateLimit
       else if status \<in> {400, 403, 422} then FkCapabilityMismatch
       else FkProviderFailure
   | _ \<Rightarrow> FkProviderFailure)"

definition failure :: "bool \<Rightarrow> gateway_error" where
  "failure partially = (if partially then PartialFailure else AccountingUncertain)"

definition on_gw :: "(gw, 'a) op \<Rightarrow> (gw \<times> 'l, 'a) op" where
  "on_gw m = (\<lambda>(s, l). case m s of (r, t) \<Rightarrow> (r, (t, l)))"

definition set_local :: "('l \<Rightarrow> 'l) \<Rightarrow> (gw \<times> 'l, unit) op" where
  "set_local f = modifyM (\<lambda>(s, l). (s, f l))"

definition with_locals :: "'l \<Rightarrow> (gw \<times> 'l, 'a) op \<Rightarrow> (gw, 'a) op" where
  "with_locals l m = (\<lambda>s. case m (s, l) of (r, (t, _)) \<Rightarrow> (r, t))"

text \<open>\<open>except DomainError\<close>\<close>

definition except_domain :: "('s, 'a) op \<Rightarrow> (py_error \<Rightarrow> ('s, 'a) op) \<Rightarrow> ('s, 'a) op" where
  "except_domain m h = catchM m (\<lambda>x. if domain_error x then h x else throw x)"

section \<open>Starting and finishing an attempt\<close>

definition valid_attempt :: "run_attempt \<Rightarrow> bool" where
  "valid_attempt a = (is_identifier (ra_id a) \<and> is_identifier (ra_run_id a)
     \<and> is_identifier (ra_node_id a) \<and> 1 \<le> ra_attempt a \<and> ra_attempt a \<le> 3
     \<and> valid_usage_record (ra_usage a))"

definition reservation_of :: "request_context \<Rightarrow> string" where
  "reservation_of cx = ''call-'' @ cx_request_id cx"

definition new_attempt :: "request_context \<Rightarrow> authorized \<Rightarrow> string \<Rightarrow> int \<Rightarrow> int \<Rightarrow> int \<Rightarrow> run_attempt" where
  "new_attempt cx a run n amount now =
     \<lparr> ra_id = cx_request_id cx, ra_run_id = run, ra_node_id = es_node_id (az_stage a),
       ra_attempt = n, ra_status = AtReserved,
       ra_trace = (az_trace a)\<lparr> dt_request_id := cx_request_id cx \<rparr>,
       ra_usage = \<lparr> ur_reservation_id = reservation_of cx, ur_reserved_micro_usd = amount,
         ur_actual_micro_usd = None, ur_state = UsReserved, ur_tokens = None, ur_observed_at = now \<rparr>,
       ra_output_reference = None, ra_error = None, ra_latency_ms = None,
       ra_gateway_overhead_ms = None, ra_upstream_ms = None, ra_failure_kind = None,
       ra_fallback_reason = None, ra_recovery_action = None, ra_validation = [] \<rparr>"

definition call_of :: "request_context \<Rightarrow> authorized \<Rightarrow> chat_request \<Rightarrow> inference_call" where
  "call_of cx a q = \<lparr> ic_trace = (az_trace a)\<lparr> dt_request_id := cx_request_id cx \<rparr>,
     ic_credential = az_credential a, ic_messages = q, ic_budget = es_budget (az_stage a),
     ic_reservation_id = reservation_of cx, ic_target = az_target a \<rparr>"

definition start :: "gateway \<Rightarrow> request_context \<Rightarrow> callback \<Rightarrow> authorized \<Rightarrow> chat_request \<Rightarrow> string
    \<Rightarrow> int \<Rightarrow> (gw, inference_call \<times> run_attempt) op" where
  "start g cx chk a q run n =
     thenM (call_back chk)
     (bindM (liftM (preflight (gt_authority g) a q)) (\<lambda>amount.
     bindM (getsM gw_now) (\<lambda>now.
     let attempt = new_attempt cx a run n amount now in
     thenM (if cx_application_key cx = None then ret ()
            else on_db (charge_key (gt_per_minute g) now now cx amount ScChatComplete))
     (thenM (on_db (reserve (cx_tenant_id cx) (sa_budget_reference (az_admission a))
               (reservation_of cx) (cx_request_id cx) amount))
     (thenM (guardM (valid_attempt attempt) ValueError)
     (thenM (on_db (save_attempt (cx_tenant_id cx) attempt 1))
       (ret (call_of cx a q, attempt))))))))"

text \<open>What an adapter may not alter: everything but its own observations.\<close>

definition pins :: "decision_trace \<Rightarrow> decision_trace" where
  "pins d = d\<lparr> dt_served_model := unknown_identity, dt_served_endpoint := unknown_identity \<rparr>"

definition overage :: "run_attempt \<Rightarrow> inference_result option \<Rightarrow> bool" where
  "overage attempt result = (case result of None \<Rightarrow> False | Some r \<Rightarrow>
     (case ir_actual_micro_usd r of None \<Rightarrow> False
      | Some a \<Rightarrow> ur_reserved_micro_usd (ra_usage attempt) < a))"

definition finished :: "gateway \<Rightarrow> run_attempt \<Rightarrow> inference_result option \<Rightarrow> bool \<Rightarrow> bool \<Rightarrow> bool \<Rightarrow> int
    \<Rightarrow> run_attempt" where
  "finished g attempt result cancelled partially failed now =
     (let over = overage attempt result;
          charged = Option.bind result ir_actual_micro_usd;
          actual = (if over then None else charged) in
      attempt\<lparr>
        ra_status := (if cancelled then AtCancelled
          else if failed \<and> actual \<noteq> None then AtFailed
          else if result \<noteq> None \<and> actual \<noteq> None then AtSucceeded else AtUncertain),
        ra_usage := \<lparr> ur_reservation_id = ur_reservation_id (ra_usage attempt),
          ur_reserved_micro_usd = ur_reserved_micro_usd (ra_usage attempt),
          ur_actual_micro_usd = actual,
          ur_state = (if actual \<noteq> None then UsReconciled else UsUncertain),
          ur_tokens = Option.bind result ir_usage, ur_observed_at = now \<rparr>,
        ra_trace := (case result of None \<Rightarrow> ra_trace attempt | Some r \<Rightarrow> ir_trace r),
        ra_latency_ms := Some (max 0 (gt_millis g (now - ur_observed_at (ra_usage attempt)))),
        ra_error := (if result \<noteq> None \<and> \<not> over \<and> \<not> failed then None
                     else Some (failure partially)) \<rparr>)"

definition observe_attempt :: "string \<Rightarrow> executable_policy \<Rightarrow> run_attempt \<Rightarrow> (gw, unit) op" where
  "observe_attempt tenant p a = (case ep_circuit_policy p of None \<Rightarrow> ret ()
   | Some c \<Rightarrow> bindM (getsM gw_now) (\<lambda>now. on_db (observe tenant
       (let k = or_default [] (dt_configuration_id (ra_trace a)) in if k = [] then ''missing'' else k)
       (dt_catalog_id (ra_trace a)) c
       (case ra_failure_kind a of Some k \<Rightarrow> Some k
        | None \<Rightarrow> if ra_error a = None then None else Some FkProviderFailure)
       (or_default 0 (ra_latency_ms a)) now)))"

definition finish :: "gateway \<Rightarrow> request_context \<Rightarrow> run_attempt \<Rightarrow> inference_result option \<Rightarrow> bool \<Rightarrow> bool
    \<Rightarrow> bool \<Rightarrow> (gw, run_attempt) op" where
  "finish g cx attempt result cancelled partially failed =
     (let tenant = cx_tenant_id cx; charged = Option.bind result ir_actual_micro_usd in
      thenM (on_db (reconcile tenant (ur_reservation_id (ra_usage attempt)) charged))
      (thenM (if cx_application_key cx = None then ret ()
              else on_db (reconcile tenant (''key-'' @ cx_request_id cx) charged))
      (bindM (getsM gw_now) (\<lambda>now.
       let closed = finished g attempt result cancelled partially failed now in
       thenM (guardM (pins (ra_trace closed) = pins (ra_trace attempt)) (DomainError CONFLICT 500))
       (thenM (on_db (save_trace tenant (ra_trace closed)))
       (thenM (on_db (save_attempt tenant closed 3))
       (bindM (on_db (query (policy (au_env (gt_authority g)) tenant (dt_policy (ra_trace closed))))) (\<lambda>v.
        thenM (observe_attempt tenant (vw_policy v) closed) (ret closed)))))))))"

section \<open>One attempt\<close>

text \<open>The variables of \<open>_infer_once\<close> that its exception handler reads.\<close>

record locals =
  lc_result :: "inference_result option"
  lc_attempt :: run_attempt
  lc_upstream :: "int option"

definition stage_deadline :: "request_context \<Rightarrow> authorized \<Rightarrow> int \<Rightarrow> int" where
  "stage_deadline cx a now = min (cx_deadline cx) (now + eb_timeout_ms (es_budget (az_stage a)) * 1000)"

definition before :: "int \<Rightarrow> callback \<Rightarrow> callback" where
  "before deadline chk s = rbind (chk s) (\<lambda>_. check (gw_now s < deadline) TimeoutError)"

definition acquire_circuit :: "request_context \<Rightarrow> authorized \<Rightarrow> (gw, unit) op" where
  "acquire_circuit cx a = (case ep_circuit_policy (az_policy a) of None \<Rightarrow> ret ()
   | Some c \<Rightarrow> bindM (getsM gw_now) (\<lambda>now.
       bindM (on_db (acquire (cx_tenant_id cx)
         (let k = or_default [] (es_configuration_id (az_stage a)) in if k = [] then ''missing'' else k)
         (ep_catalog_id (az_policy a)) now)) (\<lambda>free.
       guardM free (RoutedFailure FkCircuitOpen))))"

text \<open>Dispatch: the call is sent, then awaited.\<close>

definition send :: "inference_call \<Rightarrow> (gw, unit) op" where
  "send call = modifyM (\<lambda>s. s\<lparr> gw_log := Sent call (gw_db s) # gw_log s \<rparr>)"

definition dispatch :: "gateway \<Rightarrow> request_context \<Rightarrow> callback \<Rightarrow> inference_call \<Rightarrow> (gw, inference_result) op" where
  "dispatch g cx chk call = thenM (send call) (gt_complete g cx chk call (cx_deadline cx))"

text \<open>The last check before an attempt is dispatched, and its record.\<close>

definition recheck :: "gateway \<Rightarrow> request_context \<Rightarrow> callback \<Rightarrow> authorized \<Rightarrow> inference_call \<Rightarrow> run_attempt
    \<Rightarrow> (gw, unit) op" where
  "recheck g cx chk a call attempt =
     thenM (call_back chk)
     (bindM (authority_stage (gt_authority g) cx chk (dt_policy (ic_trace call))
               (dt_node_id (ic_trace call)) (dt_alias_id (ic_trace call)) (az_data_class a)
               (es_configuration_id (az_stage a))) (\<lambda>fresh.
     thenM (guardM (az_target fresh = az_target a \<and> az_credential fresh = az_credential a) ValueError)
       (on_db (save_attempt (cx_tenant_id cx) (attempt\<lparr> ra_status := AtDispatched \<rparr>) 2))))"

definition timed :: "gateway \<Rightarrow> int \<Rightarrow> int \<Rightarrow> int \<Rightarrow> run_attempt \<Rightarrow> run_attempt" where
  "timed g started upstream now attempt = attempt\<lparr>
     ra_gateway_overhead_ms := Some (max 0 (gt_millis g (upstream - started))),
     ra_upstream_ms := Some (max 0 (gt_millis g (now - upstream))) \<rparr>"

text \<open>The checks of a result: its identity, the request it answers, the rules, the budget.\<close>

definition checked :: "gateway \<Rightarrow> callback \<Rightarrow> authorized \<Rightarrow> chat_request \<Rightarrow> inference_result
    \<Rightarrow> (gw \<times> locals, unit) op" where
  "checked g chk a q r =
     thenM (on_gw (call_back chk))
     (thenM (guardM (cc_model (ir_completion r) = cq_model q
               \<and> cc_usage (ir_completion r) = ir_usage r) ValueError)
     (thenM (case validate_completion (gt_reader g) q (ir_completion r) of
               Inr _ \<Rightarrow> ret ()
             | Inl x \<Rightarrow> throw (if x = ValueError then RoutedFailure FkInvalidOutput else x))
     (let seen = validate_rules (gt_parses g) (cc_content (ir_completion r))
                   (es_validation_rules (az_stage a)) in
      thenM (set_local (\<lambda>l. l\<lparr> lc_attempt := (lc_attempt l)\<lparr> ra_validation := seen \<rparr> \<rparr>))
      (thenM (guardM (list_all vo_passed seen) (RoutedFailure FkQualityValidation))
        (guardM (case ir_usage r of None \<Rightarrow> True
           | Some u \<Rightarrow> us_completion_tokens u \<le> cq_max_tokens q
               \<and> us_prompt_tokens u \<le> eb_max_input_tokens (es_budget (az_stage a)))
          (RoutedFailure FkBudgetViolation))))))"

text \<open>From the provider's answer to the finished attempt.\<close>

definition settle_answer :: "gateway \<Rightarrow> request_context \<Rightarrow> callback \<Rightarrow> authorized \<Rightarrow> chat_request \<Rightarrow> int
    \<Rightarrow> int \<Rightarrow> inference_result \<Rightarrow> (gw \<times> locals, inference_result \<times> run_attempt) op" where
  "settle_answer g cx chk a q started upstream r =
     bindM (getsM (\<lambda>(s, l). gw_now s)) (\<lambda>now.
     thenM (set_local (\<lambda>l. l\<lparr> lc_result := Some r,
              lc_attempt := timed g started upstream now (lc_attempt l) \<rparr>))
     (thenM (checked g chk a q r)
     (bindM (getsM (\<lambda>(s, l). lc_attempt l)) (\<lambda>attempt.
     bindM (on_gw (finish g cx attempt (Some r) False False False)) (\<lambda>closed.
     thenM (guardM (ra_error closed = None) (RoutedFailure FkBudgetViolation))
       (ret (r, closed)))))))"

definition attempt_body :: "gateway \<Rightarrow> request_context \<Rightarrow> callback \<Rightarrow> authorized \<Rightarrow> chat_request \<Rightarrow> int
    \<Rightarrow> inference_call \<Rightarrow> (gw \<times> locals, inference_result \<times> run_attempt) op" where
  "attempt_body g cx chk a q started call =
     bindM (getsM (\<lambda>(s, l). lc_attempt l)) (\<lambda>attempt.
     thenM (on_gw (recheck g cx chk a call attempt))
     (bindM (getsM (\<lambda>(s, l). gw_now s)) (\<lambda>upstream.
     thenM (set_local (\<lambda>l. l\<lparr> lc_upstream := Some upstream \<rparr>))
     (bindM (on_gw (dispatch g cx chk call)) (\<lambda>r.
     settle_answer g cx chk a q started upstream r)))))"

text \<open>Keeping an invalid output for a repair, privately and for a bounded time.\<close>

definition valid_output :: "stored_output \<Rightarrow> bool" where
  "valid_output v = (is_identifier (so_id v) \<and> is_identifier (so_run_id v)
     \<and> is_identifier (so_node_id v) \<and> output_retention v)"

definition store_output :: "gateway \<Rightarrow> string \<Rightarrow> string \<Rightarrow> string \<Rightarrow> string \<Rightarrow> json \<Rightarrow> int \<Rightarrow> (gw, unit) op" where
  "store_output g tenant i run node v seconds = bindM (getsM gw_now) (\<lambda>now.
     let output = \<lparr> so_id = i, so_run_id = run, so_node_id = node, so_value = v,
           so_created_at = now, so_expires_at = now + micros seconds \<rparr> in
     thenM (guardM (valid_output output) ValueError)
       (on_db (save_output (au_env (gt_authority g)) tenant output)))"

definition invalid_output :: "gateway \<Rightarrow> inference_result \<Rightarrow> run_attempt \<Rightarrow> json" where
  "invalid_output g r attempt = JObj
     [(''result'', case cc_content (ir_completion r) of None \<Rightarrow> JNull | Some t \<Rightarrow> JStr t),
      (''validation'', gt_observations g (ra_validation attempt))]"

definition keep_invalid :: "gateway \<Rightarrow> request_context \<Rightarrow> authorized \<Rightarrow> string \<Rightarrow> py_error
    \<Rightarrow> (gw \<times> locals, unit) op" where
  "keep_invalid g cx a run x = bindM (getsM snd) (\<lambda>l. case lc_result l of
     None \<Rightarrow> ret ()
   | Some r \<Rightarrow>
       if es_max_repairs (az_stage a) \<noteq> 0 \<and> gt_repair_retain_seconds g \<noteq> 0
          \<and> failure_kind_of x \<in> {FkQualityValidation, FkInvalidOutput}
       then let i = cx_request_id cx @ ''-invalid'' in
         thenM (on_gw (store_output g (cx_tenant_id cx) i run (es_node_id (az_stage a))
                   (invalid_output g r (lc_attempt l)) (gt_repair_retain_seconds g)))
           (set_local (\<lambda>l. l\<lparr> lc_attempt := (lc_attempt l)\<lparr> ra_output_reference := Some i \<rparr> \<rparr>))
       else ret ())"

definition failed_attempt :: "gateway \<Rightarrow> int \<Rightarrow> int \<Rightarrow> py_error \<Rightarrow> locals \<Rightarrow> run_attempt" where
  "failed_attempt g started now x l = (lc_attempt l)\<lparr>
     ra_failure_kind := Some (failure_kind_of x),
     ra_gateway_overhead_ms := Some (max 0 (gt_millis g (or_default now (lc_upstream l) - started))),
     ra_upstream_ms := map_option (\<lambda>u. max 0 (gt_millis g (now - u))) (lc_upstream l) \<rparr>"

text \<open>A dispatched request is never refunded or restarted: it is finished if it was not.\<close>

definition attempt_failed :: "gateway \<Rightarrow> request_context \<Rightarrow> authorized \<Rightarrow> string \<Rightarrow> int \<Rightarrow> py_error
    \<Rightarrow> (gw \<times> locals, inference_result \<times> run_attempt) op" where
  "attempt_failed g cx a run started x =
     thenM (keep_invalid g cx a run x)
     (bindM (getsM id) (\<lambda>(s, l).
     thenM (on_gw (except_domain
         (on_db (exec (query (latest (cx_tenant_id cx) KTrace (cx_request_id cx)))))
         (\<lambda>_. thenM (finish g cx (failed_attempt g started (gw_now s) x l) (lc_result l)
                  (x = CancelledError) False True) (ret ()))))
       (throw (if x = CancelledError then x else RoutedFailure (failure_kind_of x)))))"

definition infer_once :: "gateway \<Rightarrow> request_context \<Rightarrow> callback \<Rightarrow> authorized \<Rightarrow> chat_request \<Rightarrow> string
    \<Rightarrow> int \<Rightarrow> failure_kind option \<Rightarrow> bool \<Rightarrow> (gw, inference_result \<times> run_attempt) op" where
  "infer_once g cx0 chk0 a q run n reason repairing = bindM (getsM gw_now) (\<lambda>now.
     let deadline = stage_deadline cx0 a now; cx = cx0\<lparr> cx_deadline := deadline \<rparr>;
         chk = before deadline chk0 in
     thenM (acquire_circuit cx a)
     (bindM (start g cx chk a q run n) (\<lambda>(call, attempt).
      with_locals \<lparr> lc_result = None, lc_attempt = attempt\<lparr>
          ra_fallback_reason := reason,
          ra_recovery_action := (if repairing then Some RvRepair
            else if reason \<noteq> None then Some RvFallback else None) \<rparr>, lc_upstream = None \<rparr>
        (catchM (attempt_body g cx chk a q now call)
          (\<lambda>x. if x = GeneratorExit then throw x else attempt_failed g cx a run now x)))))"

end
