(* ===== verification/Serving.thy ===== *)
theory Serving
  imports Gateway
begin

text \<open>
  \<open>gateway/service.py\<close>, above a single attempt: the candidates of a stage, the bounded loop
  of fallbacks and repairs, and the operations \<open>models\<close>, \<open>complete\<close> and \<open>stream\<close> with the
  registration that makes them idempotent.  A stream is the list of its
  \<open>__anext__\<close> steps; a \<open>yield\<close> is recorded in \<open>gw_log\<close> and hands control to the client, who
  may close the generator.
\<close>

section \<open>Fallback and repair\<close>

definition candidates :: "gateway \<Rightarrow> request_context \<Rightarrow> callback \<Rightarrow> authorized \<Rightarrow> chat_request
    \<Rightarrow> (gw, authorized list) op" where
  "candidates g cx chk a q =
     bindM (mapM (\<lambda>k. authority_stage (gt_authority g) cx chk (dt_policy (az_trace a))
          (es_node_id (az_stage a)) (dt_alias_id (az_trace a)) (az_data_class a) (Some k))
        (es_fallback_configuration_ids (az_stage a))) (\<lambda>rest.
     bindM (mapM (\<lambda>c. liftM (preflight (gt_authority g) c q)) (a # rest)) (\<lambda>amounts.
     thenM (guardM (sum_list amounts \<le> eb_max_cost (es_budget (az_stage a)))
              (DomainError UNSUPPORTED 429))
       (ret (a # rest))))"

text \<open>The variables of the loop in \<open>infer\<close>.\<close>

record routing =
  rt_index :: nat
  rt_last :: "py_error option"
  rt_candidate :: nat
  rt_repairing :: bool
  rt_request :: chat_request
  rt_repairs :: nat

definition child_context :: "gateway \<Rightarrow> request_context \<Rightarrow> nat \<Rightarrow> request_context" where
  "child_context g cx index = (if index = 0 then cx
     else cx\<lparr> cx_request_id := gt_child g (cx_request_id cx) index \<rparr>)"

definition repair_message :: "gateway \<Rightarrow> authorized \<Rightarrow> json \<Rightarrow> chat_message" where
  "repair_message g a previous = \<lparr> cm_role = RUser,
     cm_content = Some (gt_repair_text g previous (es_validation_rules (az_stage a))),
     cm_tool_calls = None, cm_tool_call_id = None \<rparr>"

definition wants_repair :: "py_error \<Rightarrow> routing \<Rightarrow> bool" where
  "wants_repair x l = (failure_kind_of x \<in> {FkQualityValidation, FkInvalidOutput} \<and> rt_repairs l \<noteq> 0)"

definition repair_step :: "gateway \<Rightarrow> request_context \<Rightarrow> authorized \<Rightarrow> chat_request \<Rightarrow> py_error \<Rightarrow> routing
    \<Rightarrow> (gw, routing) op" where
  "repair_step g cx a q x l = bindM (getsM gw_now) (\<lambda>now.
     bindM (on_db (query (read_output now (cx_tenant_id cx)
        (cx_request_id (child_context g cx (rt_index l)) @ ''-invalid'')))) (\<lambda>previous.
     let m = repair_message g a (so_value previous) in
     thenM (guardM (valid_message m) ValueError)
     (ret (l\<lparr> rt_index := rt_index l + 1, rt_last := Some x, rt_repairing := True,
             rt_request := q\<lparr> cq_messages := cq_messages q @ [m] \<rparr>,
             rt_repairs := rt_repairs l - 1 \<rparr>))))"

definition fallback_step :: "authorized \<Rightarrow> authorized list \<Rightarrow> chat_request \<Rightarrow> py_error \<Rightarrow> routing
    \<Rightarrow> (gw, routing) op" where
  "fallback_step a cs q x l =
     (let on = es_fallback_on (az_stage a); i = rt_candidate l + 1 in
      if on \<noteq> [] \<and> failure_kind_of x \<notin> set on \<or> length cs \<le> i then throw x
      else ret (l\<lparr> rt_index := rt_index l + 1, rt_last := Some x, rt_candidate := i,
             rt_repairing := False, rt_request := q \<rparr>))"

definition next_route :: "gateway \<Rightarrow> request_context \<Rightarrow> callback \<Rightarrow> authorized \<Rightarrow> chat_request
    \<Rightarrow> authorized list \<Rightarrow> py_error \<Rightarrow> routing \<Rightarrow> (gw, routing) op" where
  "next_route g cx chk a q cs x l = thenM (call_back chk)
     (if wants_repair x l then repair_step g cx a q x l else fallback_step a cs q x l)"

fun infer_loop :: "gateway \<Rightarrow> request_context \<Rightarrow> callback \<Rightarrow> authorized \<Rightarrow> chat_request \<Rightarrow> string
    \<Rightarrow> authorized list \<Rightarrow> nat \<Rightarrow> routing \<Rightarrow> (gw, inference_result \<times> run_attempt) op" where
  "infer_loop g cx chk a q run cs 0 l = throw (or_default AssertionError (rt_last l))"
| "infer_loop g cx chk a q run cs (Suc k) l =
     except_domain
       (infer_once g (child_context g cx (rt_index l)) chk (cs ! rt_candidate l) (rt_request l) run
          (int (rt_index l) + 1) (map_option failure_kind_of (rt_last l)) (rt_repairing l))
       (\<lambda>x. bindM (next_route g cx chk a q cs x l) (infer_loop g cx chk a q run cs k))"

definition envelopes :: "gateway \<Rightarrow> authorized list \<Rightarrow> chat_request \<Rightarrow> bool \<Rightarrow> (gw, int list) op" where
  "envelopes g cs q repairing =
     bindM (mapM (\<lambda>c. liftM (preflight (gt_authority g) c q)) cs) (\<lambda>plain.
     if repairing
     then mapM (\<lambda>c. liftM (cost_bound (az_target c)
            (eb_max_input_tokens (es_budget (az_stage c))) (cq_max_tokens q))) cs
     else ret plain)"

definition infer :: "gateway \<Rightarrow> request_context \<Rightarrow> callback \<Rightarrow> authorized \<Rightarrow> chat_request \<Rightarrow> string
    \<Rightarrow> (gw, inference_result \<times> run_attempt) op" where
  "infer g cx chk a q run = bindM (candidates g cx chk a q) (\<lambda>cs.
     let repairs = nat (es_max_repairs (az_stage a)); budget = es_budget (az_stage a) in
     thenM (guardM (\<not> (repairs \<noteq> 0 \<and> (gt_repair_retain_seconds g = 0 \<or> tools_of q \<noteq> [])))
              (DomainError UNSUPPORTED 403))
     (bindM (envelopes g cs q (repairs \<noteq> 0)) (\<lambda>es.
     thenM (guardM (sum_list es + int repairs * Max (set es) \<le> eb_max_cost budget)
              (RoutedFailure FkBudgetViolation))
       (infer_loop g cx chk a q run cs (min (nat (eb_max_attempts budget)) (length cs + repairs))
          \<lparr> rt_index = 0, rt_last = None, rt_candidate = 0, rt_repairing = False, rt_request = q,
            rt_repairs = repairs \<rparr>))))"

section \<open>Complete requests\<close>

definition pinned_prompt :: "authorized \<Rightarrow> prompt_revision option" where
  "pinned_prompt a = (case es_prompt (az_stage a) of None \<Rightarrow> None
     | Some r \<Rightarrow> List.find (\<lambda>p. (pr_id p, pr_version p) = (vr_id r, vr_version r)) (ep_prompts (az_policy a)))"

definition outgoing :: "prompt_revision \<Rightarrow> chat_request \<Rightarrow> chat_request" where
  "outgoing p q = q\<lparr> cq_messages :=
     \<lparr> cm_role = RSystem, cm_content = Some (pr_template p), cm_tool_calls = None,
       cm_tool_call_id = None \<rparr>
     # map (\<lambda>m. if cm_role m = RSystem then m\<lparr> cm_role := RUser \<rparr> else m) (cq_messages q) \<rparr>"

definition check_scope :: "request_context \<Rightarrow> scope \<Rightarrow> string option \<Rightarrow> (gw, application_key) op" where
  "check_scope cx sc alias_id = bindM (getsM gw_now) (\<lambda>now. on_db (query (check_key cx sc alias_id now)))"

text \<open>What precedes the registration: key, alias, authority, pinned prompt and envelope.\<close>

definition admit_request :: "gateway \<Rightarrow> request_context \<Rightarrow> callback \<Rightarrow> chat_request
    \<Rightarrow> (gw, route_alias \<times> authorized \<times> chat_request) op" where
  "admit_request g cx chk q =
     (let au = gt_authority g; tenant = cx_tenant_id cx in
      thenM (check_scope cx ScChatComplete (Some (cq_model q)))
      (bindM (on_db (query (stored_alias tenant (cq_model q)))) (\<lambda>al.
      bindM (authority_stage au cx chk (al_policy al) (al_node_id al) (Some (al_id al)) DcTenantPrivate None) (\<lambda>a.
      thenM (liftM (validate_alias (az_policy a) al))
      (thenM (guardM (\<not> (es_fallback_configuration_ids (az_stage a) \<noteq> []
                  \<and> (tools_of q \<noteq> [] \<or> 1 < length (cq_messages q)))) (DomainError UNSUPPORTED 403))
      (case pinned_prompt a of None \<Rightarrow> throw StopIteration
       | Some p \<Rightarrow>
           let out = outgoing p q in
           thenM (guardM (valid_request out) ValueError)
           (bindM (candidates g cx chk a out) (\<lambda>_. ret (al, a, out))))))))) "

definition prepare :: "gateway \<Rightarrow> request_context \<Rightarrow> callback \<Rightarrow> chat_request
    \<Rightarrow> (gw, request_context \<times> authorized \<times> chat_request \<times> bool) op" where
  "prepare g cx chk q = bindM (admit_request g cx chk q) (\<lambda>(al, a, out).
     bindM (on_db (register_request (cx_tenant_id cx) (cx_idempotency_key cx) (cx_request_id cx)
         (gt_fingerprint g (cx_principal_id cx) al (az_policy a) q))) (\<lambda>(i, created).
       ret (cx\<lparr> cx_request_id := i \<rparr>, a, out, created)))"

definition read_state :: "request_context \<Rightarrow> (gw, run_status) op" where
  "read_state cx = on_db (query (request_state (cx_tenant_id cx) (cx_request_id cx)))"

definition advance :: "request_context \<Rightarrow> run_status \<Rightarrow> run_status \<Rightarrow> (gw, unit) op" where
  "advance cx expected state = on_db (advance_request (cx_tenant_id cx) (cx_request_id cx) expected state)"

text \<open>\<open>if request_state == "running": advance to uncertain\<close>\<close>

definition leave_uncertain :: "request_context \<Rightarrow> (gw, unit) op" where
  "leave_uncertain cx = bindM (read_state cx) (\<lambda>st.
     if st = RsRunning then advance cx RsRunning RsUncertain else ret ())"

definition retain :: "gateway \<Rightarrow> request_context \<Rightarrow> authorized \<Rightarrow> chat_completion \<Rightarrow> (gw, unit) op" where
  "retain g cx a c = (if gt_retain_seconds g = 0 then ret ()
     else store_output g (cx_tenant_id cx) (cx_request_id cx) (cx_request_id cx)
       (es_node_id (az_stage a)) (gt_dump g c) (gt_retain_seconds g))"

definition replay_completion :: "gateway \<Rightarrow> request_context \<Rightarrow> (gw, chat_completion) op" where
  "replay_completion g cx =
     (if gt_retain_seconds g = 0 then throw (DomainError CONFLICT 409)
      else bindM (read_state cx) (\<lambda>st.
        if st = RsSucceeded
        then bindM (getsM gw_now) (\<lambda>now.
          bindM (on_db (query (read_output now (cx_tenant_id cx) (cx_request_id cx)))) (\<lambda>v.
          liftM (gt_load g (so_value v))))
        else throw (DomainError CONFLICT 409)))"

definition settled_state :: "run_attempt \<Rightarrow> run_status" where
  "settled_state a = (if ur_actual_micro_usd (ra_usage a) \<noteq> None then RsSucceeded else RsUncertain)"

definition complete_new :: "gateway \<Rightarrow> request_context \<Rightarrow> callback \<Rightarrow> authorized \<Rightarrow> chat_request
    \<Rightarrow> (gw, chat_completion) op" where
  "complete_new g cx chk a q =
     thenM (advance cx RsQueued RsRunning)
     (catchM (bindM (infer g cx chk a q (cx_request_id cx)) (\<lambda>(r, attempt).
          thenM (retain g cx a (ir_completion r))
          (thenM (advance cx RsRunning (settled_state attempt)) (ret (ir_completion r)))))
        (\<lambda>x. thenM (leave_uncertain cx) (throw x)))"

definition complete_chat :: "gateway \<Rightarrow> request_context \<Rightarrow> callback \<Rightarrow> chat_request
    \<Rightarrow> (gw, chat_completion) op" where
  "complete_chat g cx chk q = bindM (prepare g cx chk q) (\<lambda>(cx, a, out, created).
     if created then complete_new g cx chk a out else replay_completion g cx)"

section \<open>Models\<close>

record model_listing =
  ml_id :: string
  ml_created :: int

definition probe_request :: "string \<Rightarrow> chat_request" where
  "probe_request name = \<lparr> cq_model = name, cq_messages = [\<lparr> cm_role = RUser,
       cm_content = Some ''Capability preflight'', cm_tool_calls = None, cm_tool_call_id = None \<rparr>],
     cq_max_tokens = 1, cq_temperature = None, cq_stream = False, cq_tools = None,
     cq_tool_choice = None, cq_response_format = None \<rparr>"

definition list_model :: "gateway \<Rightarrow> request_context \<Rightarrow> callback \<Rightarrow> string
    \<Rightarrow> (gw, model_listing option) op" where
  "list_model g cx chk name = except_domain
     (bindM (on_db (query (stored_alias (cx_tenant_id cx) name))) (\<lambda>al.
      bindM (authority_stage (gt_authority g) cx chk (al_policy al) (al_node_id al) (Some name) DcTenantPrivate None) (\<lambda>a.
      bindM (liftM (preflight (gt_authority g) a (probe_request name))) (\<lambda>_.
      ret (Some \<lparr> ml_id = name, ml_created = al_created_at al div 1000000 \<rparr>)))))
     (\<lambda>_. ret None)"

definition models :: "gateway \<Rightarrow> request_context \<Rightarrow> callback \<Rightarrow> (gw, model_listing list) op" where
  "models g cx chk = bindM (check_scope cx ScModelsRead None) (\<lambda>k.
     bindM (mapM (list_model g cx chk) (sort (ak_alias_ids k))) (\<lambda>rows.
     ret (concat (map (\<lambda>r. case r of None \<Rightarrow> [] | Some x \<Rightarrow> [x]) rows))))"

end
