(* ===== verification/Streaming.thy ===== *)
theory Streaming
  imports Serving
begin

text \<open>
  \<open>Gateway.stream\<close>: the guarded event stream.  Candidates are tried in turn until content
  has been exposed to the client; from then on there is neither a replay nor another
  model.  The steps \<open>gt_stream\<close> of the provider and the client's \<open>gt_deliver\<close> run under the
  stream's timeout, so either may raise TimeoutError.
\<close>

section \<open>The generator\<close>

record streaming =
  sl_attempt :: "run_attempt option"
  sl_exposed :: bool
  sl_collector :: collector
  sl_observation :: "(completion_usage option \<times> int option \<times> decision_trace) option"

definition new_streaming :: streaming where
  "new_streaming = \<lparr> sl_attempt = None, sl_exposed = False, sl_collector = new_collector,
     sl_observation = None \<rparr>"

definition emit :: "gateway \<Rightarrow> gateway_error + chat_chunk \<Rightarrow> (gw, unit) op" where
  "emit g e = thenM (modifyM (\<lambda>s. s\<lparr> gw_log := Delivered e # gw_log s \<rparr>)) (gt_deliver g e)"

definition exposes :: "chunk_choice \<Rightarrow> bool" where
  "exposes h = (dl_content (ch_delta h) \<noteq> None \<or> delta_parts (ch_delta h) \<noteq> [] \<or> dl_role (ch_delta h))"

definition accept_event :: "gateway \<Rightarrow> chat_request \<Rightarrow> stream_item \<Rightarrow> (gw \<times> streaming, unit) op" where
  "accept_event g q item = (case item of
     ItError _ \<Rightarrow> throw ValueError
   | ItObservation usage actual d \<Rightarrow> bindM (getsM snd) (\<lambda>l.
       thenM (guardM (sl_observation l = None) ValueError)
         (set_local (\<lambda>l. l\<lparr> sl_observation := Some (usage, actual, d) \<rparr>)))
   | ItChunk k \<Rightarrow> bindM (getsM snd) (\<lambda>l.
       thenM (guardM (sl_observation l = None \<and> ck_model k = cq_model q) ValueError)
       (bindM (liftM (accept_chunk k (sl_collector l))) (\<lambda>c.
       thenM (set_local (\<lambda>l. l\<lparr> sl_collector := c \<rparr>))
       (case ck_choice k of None \<Rightarrow> ret ()
        | Some h \<Rightarrow> if exposes h
            then thenM (set_local (\<lambda>l. l\<lparr> sl_exposed := True \<rparr>))
              (on_gw (emit g (Inr (k\<lparr> ck_choice := Some (h\<lparr> ch_finish_reason := None \<rparr>) \<rparr>))))
            else ret ())))))"

text \<open>Before an event is looked at, the key and the policy are checked again.\<close>

definition guard_event :: "gateway \<Rightarrow> request_context \<Rightarrow> callback \<Rightarrow> string \<Rightarrow> version_ref \<Rightarrow> (gw, unit) op" where
  "guard_event g cx chk model r =
     thenM (call_back chk)
     (bindM (check_scope cx ScChatComplete (Some model)) (\<lambda>_.
     bindM (authority_policy (gt_authority g) cx chk r) (\<lambda>_. ret ())))"

fun consume :: "gateway \<Rightarrow> request_context \<Rightarrow> callback \<Rightarrow> chat_request \<Rightarrow> version_ref
    \<Rightarrow> (gw, stream_item) op list \<Rightarrow> (gw \<times> streaming, unit) op" where
  "consume g cx chk q r [] = ret ()"
| "consume g cx chk q r (step # steps) =
     bindM (on_gw step) (\<lambda>item.
     thenM (on_gw (guard_event g cx chk (cq_model q) r))
     (thenM (accept_event g q item) (consume g cx chk q r steps)))"

definition stream_result :: "gateway \<Rightarrow> chat_request \<Rightarrow> inference_call \<Rightarrow> chat_completion \<Rightarrow> streaming
    \<Rightarrow> inference_result" where
  "stream_result g q call c l = (case sl_observation l of
     Some (usage, actual, d) \<Rightarrow> \<lparr> ir_completion = c, ir_actual_micro_usd = actual, ir_usage = usage,
       ir_trace = d \<rparr>
   | None \<Rightarrow> \<lparr> ir_completion = c, ir_actual_micro_usd = None, ir_usage = co_usage (sl_collector l),
       ir_trace = ic_trace call \<rparr>)"

text \<open>After the last event: validation, accounting, retention, then the terminal chunk.\<close>

definition conclude :: "gateway \<Rightarrow> request_context \<Rightarrow> request_context \<Rightarrow> authorized \<Rightarrow> chat_request
    \<Rightarrow> chat_request \<Rightarrow> inference_call \<Rightarrow> run_attempt \<Rightarrow> (gw \<times> streaming, unit) op" where
  "conclude g cx child a q out call attempt = bindM (getsM snd) (\<lambda>l.
     bindM (liftM (collected_completion (cx_request_id child) (cq_model q) (sl_collector l))) (\<lambda>c.
     thenM (liftM (validate_completion (gt_reader g) out c))
     (let r = stream_result g q call c l in
      thenM (guardM (case ir_usage r of None \<Rightarrow> True
               | Some u \<Rightarrow> us_completion_tokens u \<le> cq_max_tokens out) ValueError)
      (bindM (on_gw (finish g child attempt (Some r) False False False)) (\<lambda>closed.
      thenM (guardM (ra_error closed = None) ValueError)
      (thenM (on_gw (retain g cx a c))
      (thenM (on_gw (advance cx RsRunning (settled_state closed)))
        (on_gw (emit g (Inr \<lparr> ck_id = cx_request_id child, ck_created = cc_created c,
            ck_model = cq_model q,
            ck_choice = Some \<lparr> ch_delta = \<lparr> dl_role = False, dl_content = None, dl_tool_calls = None \<rparr>,
                ch_finish_reason = Some (cc_finish_reason c) \<rparr>,
            ck_usage = ir_usage r \<rparr>))))))))))"

definition stream_deadline :: "request_context \<Rightarrow> authorized \<Rightarrow> int \<Rightarrow> int" where
  "stream_deadline cx a now =
     min (now + eb_timeout_ms (es_budget (az_stage a)) * 1000) (max now (cx_deadline cx))"

definition open_stream :: "gateway \<Rightarrow> request_context \<Rightarrow> callback \<Rightarrow> inference_call \<Rightarrow> int
    \<Rightarrow> (gw, (gw, stream_item) op list) op" where
  "open_stream g cx chk call deadline = thenM (send call) (ret (gt_stream g cx chk call deadline))"

text \<open>Everything before the provider is asked: key, circuit, reservation, authority, record.\<close>

definition stream_ready :: "gateway \<Rightarrow> request_context \<Rightarrow> callback \<Rightarrow> chat_request \<Rightarrow> chat_request
    \<Rightarrow> nat \<Rightarrow> authorized \<Rightarrow> (gw \<times> streaming, inference_call \<times> run_attempt \<times> int) op" where
  "stream_ready g cx chk q out index c =
     (let child = child_context g cx index in
      thenM (on_gw (bindM (check_scope cx ScChatComplete (Some (cq_model q))) (\<lambda>_. ret ())))
      (thenM (on_gw (acquire_circuit cx c))
      (bindM (on_gw (start g child chk c out (cx_request_id cx) (int index + 1))) (\<lambda>(call, attempt).
      thenM (set_local (\<lambda>l. l\<lparr> sl_attempt := Some attempt \<rparr>))
      (bindM (on_gw (authority_stage (gt_authority g) child chk (dt_policy (ic_trace call))
           (dt_node_id (ic_trace call)) (Some (cq_model q)) DcTenantPrivate
           (es_configuration_id (az_stage c)))) (\<lambda>fresh.
      thenM (guardM (az_target fresh = az_target c \<and> az_credential fresh = az_credential c) ValueError)
      (thenM (on_gw (on_db (save_attempt (cx_tenant_id child) (attempt\<lparr> ra_status := AtDispatched \<rparr>) 2)))
      (bindM (getsM (\<lambda>(s, l). gw_now s)) (\<lambda>now. ret (call, attempt, stream_deadline cx c now)))))))))) "

definition stream_body :: "gateway \<Rightarrow> request_context \<Rightarrow> callback \<Rightarrow> authorized \<Rightarrow> chat_request
    \<Rightarrow> chat_request \<Rightarrow> nat \<Rightarrow> authorized \<Rightarrow> (gw \<times> streaming, unit) op" where
  "stream_body g cx chk a q out index c =
     (let child = child_context g cx index in
      bindM (stream_ready g cx chk q out index c) (\<lambda>(call, attempt, deadline).
      bindM (on_gw (open_stream g child chk call deadline)) (\<lambda>steps.
      thenM (consume g cx chk q (dt_policy (ic_trace call)) steps)
        (conclude g cx child a q out call attempt))))"

definition interrupted :: "py_error \<Rightarrow> bool" where
  "interrupted x = (x = GeneratorExit \<or> x = CancelledError)"

definition close_attempt :: "gateway \<Rightarrow> request_context \<Rightarrow> py_error \<Rightarrow> (gw \<times> streaming, unit) op" where
  "close_attempt g child x = bindM (getsM snd) (\<lambda>l. case sl_attempt l of None \<Rightarrow> ret ()
   | Some attempt \<Rightarrow> on_gw (except_domain
       (on_db (exec (query (read_trace (cx_tenant_id child) (cx_request_id child)))))
       (\<lambda>_. thenM (finish g child (attempt\<lparr> ra_failure_kind := Some (failure_kind_of x) \<rparr>) None
               False (sl_exposed l) False) (ret ()))))"

text \<open>The exception handler: whether to go on with the next candidate.\<close>

definition stream_failed :: "gateway \<Rightarrow> request_context \<Rightarrow> callback \<Rightarrow> authorized list \<Rightarrow> nat \<Rightarrow> authorized
    \<Rightarrow> py_error \<Rightarrow> (gw \<times> streaming, bool) op" where
  "stream_failed g cx chk cs index c x =
     thenM (close_attempt g (child_context g cx index) x)
     (bindM (getsM snd) (\<lambda>l.
      if sl_exposed l \<or> interrupted x \<or> index + 1 = length cs
         \<or> es_fallback_on (az_stage c) \<noteq> [] \<and> failure_kind_of x \<notin> set (es_fallback_on (az_stage c))
      then thenM (on_gw (leave_uncertain cx))
        (if interrupted x then throw x
         else thenM (on_gw (emit g (Inl (failure (sl_exposed l))))) (ret False))
      else thenM (on_gw (call_back chk)) (ret True)))"

fun stream_loop :: "gateway \<Rightarrow> request_context \<Rightarrow> callback \<Rightarrow> authorized \<Rightarrow> chat_request
    \<Rightarrow> chat_request \<Rightarrow> authorized list \<Rightarrow> nat \<Rightarrow> authorized list \<Rightarrow> (gw, unit) op" where
  "stream_loop g cx chk a q out cs index [] = ret ()"
| "stream_loop g cx chk a q out cs index (c # rest) =
     bindM (with_locals new_streaming
         (catchM (bindM (stream_body g cx chk a q out index c) (\<lambda>_. ret False))
           (stream_failed g cx chk cs index c)))
       (\<lambda>again. if again then stream_loop g cx chk a q out cs (index + 1) rest else ret ())"

definition stream_chat :: "gateway \<Rightarrow> request_context \<Rightarrow> callback \<Rightarrow> chat_request \<Rightarrow> (gw, unit) op" where
  "stream_chat g cx chk q =
     thenM (guardM (gt_streaming_enabled g) (DomainError UNSUPPORTED 503))
     (bindM (prepare g cx chk q) (\<lambda>(cx, a, out, created).
     thenM (guardM created (DomainError CONFLICT 409))
     (thenM (advance cx RsQueued RsRunning)
     (bindM (candidates g cx chk a out) (\<lambda>cs.
     stream_loop g cx chk a q out cs 0 cs)))))"

end
