(* ===== verification/Gateway_Effects.thy ===== *)
theory Gateway_Effects
  imports Streaming
begin

text \<open>
  What the gateway does to the world, composed from its parts.  \<open>advances\<close>: the database
  goes through steps of the storage only, time does not go back, and what has been sent
  stays sent.  The provider and the client may do the same, except send in our name.
\<close>

section \<open>The relation\<close>

definition advances :: "env \<Rightarrow> gw \<Rightarrow> gw \<Rightarrow> bool" where
  "advances e s t = ((db_step e)\<^sup>*\<^sup>* (gw_db s) (gw_db t) \<and> gw_now s \<le> gw_now t
     \<and> (\<exists>new. gw_log t = new @ gw_log s))"

definition elsewhere :: "env \<Rightarrow> gw \<Rightarrow> gw \<Rightarrow> bool" where
  "elsewhere e s t = ((db_step e)\<^sup>*\<^sup>* (gw_db s) (gw_db t) \<and> gw_now s \<le> gw_now t
     \<and> gw_log t = gw_log s)"

text \<open>The hypothesis on the provider and the client.\<close>

definition upstream_ok :: "gateway \<Rightarrow> bool" where
  "upstream_ok g = (let e = au_env (gt_authority g) in
     (\<forall>cx chk call d. relates (elsewhere e) (gt_complete g cx chk call d))
     \<and> (\<forall>cx chk call d. \<forall>step\<in>set (gt_stream g cx chk call d). relates (elsewhere e) step)
     \<and> (\<forall>x. relates (elsewhere e) (gt_deliver g x)))"

definition on_fst :: "('s \<Rightarrow> 's \<Rightarrow> bool) \<Rightarrow> 's \<times> 'l \<Rightarrow> 's \<times> 'l \<Rightarrow> bool" where
  "on_fst R p q = R (fst p) (fst q)"

interpretation db: effect_order "(db_step e)\<^sup>*\<^sup>*" for e
  by unfold_locales auto

lemma list_suffix_trans: "(\<exists>n. b = n @ a) \<Longrightarrow> (\<exists>n. c = n @ b) \<Longrightarrow> (\<exists>n. c = n @ a)"
  by force

interpretation adv: effect_order "advances e" for e
proof
  show "advances e s s" for s
    by (simp add: advances_def)
  show "advances e s u" if "advances e s t" "advances e t u" for s t u
    using that list_suffix_trans [of "gw_log t" "gw_log s" "gw_log u"]
    unfolding advances_def by (meson order_trans rtranclp_trans)
qed

interpretation el: effect_order "elsewhere e" for e
  by unfold_locales (auto simp: elsewhere_def)

lemma effect_order_on_fst: "effect_order R \<Longrightarrow> effect_order (on_fst R)"
  unfolding effect_order_def on_fst_def by blast

interpretation advl: effect_order "on_fst (advances e)" for e
  by (rule effect_order_on_fst) unfold_locales

interpretation ell: effect_order "on_fst (elsewhere e)" for e
  by (rule effect_order_on_fst) unfold_locales

lemma rel_on_gw: "relates R m \<Longrightarrow> relates (on_fst R) (on_gw m)"
  by (auto simp: relates_def on_fst_def on_gw_def split: prod.splits) (metis snd_conv)

lemma rel_set_local: "(\<And>s. R s s) \<Longrightarrow> relates (on_fst R) (set_local f)"
  by (auto simp: relates_def on_fst_def set_local_def)

lemma rel_with_locals: "relates (on_fst R) m \<Longrightarrow> relates R (with_locals l m)"
  unfolding relates_def on_fst_def with_locals_def
  by (metis (mono_tags, lifting) case_prod_conv fst_conv snd_conv surj_pair)

lemma el_ad: "relates (elsewhere e) m \<Longrightarrow> relates (advances e) m"
  by (auto simp: relates_def elsewhere_def advances_def)

lemma el_db: "relates (db_step e)\<^sup>*\<^sup>* m \<Longrightarrow> relates (elsewhere e) (on_db m)"
  by (auto simp: relates_def elsewhere_def on_db_def split: prod.splits) (metis snd_conv)

lemma only_cache_elsewhere: "only_cache s t \<Longrightarrow> elsewhere e s t"
  by (auto simp: only_cache_def elsewhere_def)

lemma el_cache: "relates only_cache m \<Longrightarrow> relates (elsewhere e) m"
  unfolding relates_def by (blast intro: only_cache_elsewhere)

lemma el_query: "relates (elsewhere e) (on_db (query f))"
  by (rule el_cache [OF only_cache_query])

lemma on_db_ok_iff: "on_db m s = (Inr x, t) \<longleftrightarrow> (\<exists>d. m (gw_db s) = (Inr x, d) \<and> t = s\<lparr> gw_db := d \<rparr>)"
  by (auto simp: on_db_def split: prod.splits)

section \<open>The storage's operations are steps\<close>

lemma db_stepI: "(\<And>s. db_step e s (snd (m s))) \<Longrightarrow> relates (db_step e)\<^sup>*\<^sup>* m"
  by (simp add: relates_def r_into_rtranclp)

lemma db_reads: "relates (db_step e)\<^sup>*\<^sup>* (query f)"
  by (simp add: relates_def query_run)

lemma db_append: "plain_kind k \<Longrightarrow> k \<noteq> KKey \<Longrightarrow>
    relates (db_step e)\<^sup>*\<^sup>* (transact (append_record ow k i v p))"
  by (rule db_stepI) (rule db_step.append)

lemma db_methods:
  "relates (db_step e)\<^sup>*\<^sup>* (reserve ow b i rq amount)"
  "relates (db_step e)\<^sup>*\<^sup>* (reconcile ow i actual)"
  "relates (db_step e)\<^sup>*\<^sup>* (provision_budget ow i cap)"
  "relates (db_step e)\<^sup>*\<^sup>* (register_request ow rk i h)"
  "relates (db_step e)\<^sup>*\<^sup>* (advance_request ow i x y)"
  "relates (db_step e)\<^sup>*\<^sup>* (save_output e ow v)"
  by (rule db_stepI; (rule db_step.reserve db_step.reconcile db_step.provision db_step.register
        db_step.advance | unfold save_output_def, rule db_step.save_payload))+

lemma db_saves:
  "relates (db_step e)\<^sup>*\<^sup>* (save_attempt ow a v)" "relates (db_step e)\<^sup>*\<^sup>* (save_trace ow d)"
  unfolding save_attempt_def save_trace_def
  by (intro db.rel_rules db_append; simp add: plain_kind_def)+

lemma db_charge: "relates (db_step e)\<^sup>*\<^sup>* (charge_key cap now now' c amount sc)"
  unfolding charge_key_def open_window_def Let_def
  by (intro db.rel_rules db_reads db_methods)

lemma db_health:
  "relates (db_step e)\<^sup>*\<^sup>* (acquire t c k now)"
  "relates (db_step e)\<^sup>*\<^sup>* (observe t c k p f l now)"
proof -
  have health: "relates (db_step e)\<^sup>*\<^sup>* m"
    if "\<And>s. (snd (m s))\<lparr> db_health := [] \<rparr> = s\<lparr> db_health := [] \<rparr>" for m :: "(db, 'x) op"
  proof (rule db_stepI)
    fix s
    have "db_step e s (snd ((\<lambda>s. (Inr () :: unit res, snd (m s))) s))"
      by (rule db_step.health) (simp add: keeps_def relates_def that)
    then show "db_step e s (snd (m s))"
      by simp
  qed
  show "relates (db_step e)\<^sup>*\<^sup>* (acquire t c k now)" "relates (db_step e)\<^sup>*\<^sup>* (observe t c k p f l now)"
    by (rule health; simp add: acquire_run observe_run Let_def)+
qed

section \<open>The gateway's parts\<close>

text \<open>Everything but a dispatch and a \<open>yield\<close> stays elsewhere.\<close>

lemma el_call_back: "relates (elsewhere e) (call_back chk)"
  by (rule el_cache [OF only_cache_parts(1)])

lemma el_stage: "relates (elsewhere e) (authority_stage au cx chk r node al dc configuration)"
  by (rule el_cache [OF only_cache_stage])

lemma el_policy: "relates (elsewhere e) (authority_policy au cx chk r)"
  by (rule el_cache [OF only_cache_policy])

lemmas el_rules = el.rel_rules el_query el_call_back el_stage el_policy el_db db_methods db_saves
  db_charge db_health

lemma el_except: "relates (elsewhere e) m \<Longrightarrow> (\<And>x. relates (elsewhere e) (h x)) \<Longrightarrow>
    relates (elsewhere e) (except_domain m h)"
  unfolding except_domain_def by (intro el.rel_rules)

lemma el_output: "relates (elsewhere (au_env (gt_authority g))) (store_output g tenant i run node v n)"
  unfolding store_output_def Let_def by (intro el_rules)

lemma el_exec_query: "relates (elsewhere e) (on_db (exec (query f)))"
  by (rule el_db) (simp add: exec_def db.rel_rules db_reads)

lemma el_attempt:
  "relates (elsewhere e) (start g cx chk a q run n)"
  "relates (elsewhere e) (finish g cx attempt result c p f)"
  "relates (elsewhere e) (acquire_circuit cx a)"
  "relates (elsewhere e) (recheck g cx chk a call attempt)"
  unfolding start_def finish_def acquire_circuit_def recheck_def observe_attempt_def Let_def
  by (intro el_rules)+

lemma el_routing:
  "relates (elsewhere e) (candidates g cx chk a q)"
  "relates (elsewhere e) (envelopes g cs q b)"
  "relates (elsewhere e) (next_route g cx chk a q cs x l)"
  unfolding candidates_def envelopes_def next_route_def repair_step_def fallback_step_def Let_def
  by (intro el_rules)+

lemma el_scope: "relates (elsewhere e) (check_scope cx sc al)"
  unfolding check_scope_def by (intro el_rules)

lemma el_admit: "relates (elsewhere e) (admit_request g cx chk q)"
  unfolding admit_request_def Let_def by (intro el_rules el_scope el_routing)

lemma el_serving:
  "relates (elsewhere e) (check_scope cx sc al)"
  "relates (elsewhere e) (prepare g cx chk q)"
  "relates (elsewhere e) (read_state cx)"
  "relates (elsewhere e) (advance cx x y)"
  "relates (elsewhere e) (leave_uncertain cx)"
  "relates (elsewhere e) (replay_completion g cx)"
  "relates (elsewhere e) (models g cx chk)"
proof -
  show scope: "relates (elsewhere e) (check_scope cx sc al)" for sc al
    by (rule el_scope)
  show "relates (elsewhere e) (prepare g cx chk q)"
    unfolding prepare_def by (intro el_rules el_admit)
  show state: "relates (elsewhere e) (read_state cx)"
    unfolding read_state_def by (intro el_rules)
  show advance: "relates (elsewhere e) (advance cx x y)" for x y
    unfolding advance_def by (intro el_rules)
  show "relates (elsewhere e) (leave_uncertain cx)" "relates (elsewhere e) (replay_completion g cx)"
    unfolding leave_uncertain_def replay_completion_def by (intro el_rules state advance)+
  have "relates (elsewhere e) (list_model g cx chk name)" for name
    unfolding list_model_def by (intro el_rules el_except)
  then show "relates (elsewhere e) (models g cx chk)"
    unfolding models_def by (intro el_rules scope) simp
qed

lemma el_guard_event: "relates (elsewhere e) (guard_event g cx chk m r)"
  unfolding guard_event_def by (intro el_rules el_serving)

lemma el_retain: "relates (elsewhere (au_env (gt_authority g))) (retain g cx a c)"
  unfolding retain_def by (intro el_rules el_output)

section \<open>Locals\<close>

lemmas ell_rules = ell.rel_rules rel_on_gw rel_set_local

lemma ell_checked: "relates (on_fst (elsewhere e)) (checked g chk a q r)"
  unfolding checked_def Let_def by (intro ell_rules el_rules el.R_refl)

lemma ell_failed:
  "relates (on_fst (elsewhere (au_env (gt_authority g)))) (attempt_failed g cx a run started x)"
  unfolding attempt_failed_def keep_invalid_def Let_def
  by (intro ell_rules el_rules el_output el_attempt el_except el_exec_query el.R_refl)

lemma ell_settle: "relates (on_fst (elsewhere e)) (settle_answer g cx chk a q started upstream r)"
  unfolding settle_answer_def
  by (intro ell_rules el_rules el_attempt ell_checked el.R_refl)

lemma log_same: "relates (elsewhere e) m \<Longrightarrow> m s = (r, t) \<Longrightarrow> gw_log t = gw_log s"
  by (auto simp: elsewhere_def dest: relatesD)

lemma sent_same: "relates (elsewhere e) m \<Longrightarrow> m s = (r, t) \<Longrightarrow> gw_sent t = gw_sent s"
  by (auto simp: elsewhere_def dest: relatesD)

lemma sent_same_locals: "relates (on_fst (elsewhere e)) m \<Longrightarrow> m p = (r, t) \<Longrightarrow> gw_sent (fst t) = gw_sent (fst p)"
  by (auto simp: elsewhere_def on_fst_def dest!: relatesD)

section \<open>Every operation is made of steps of the storage\<close>

lemma adv_dispatch:
  assumes "upstream_ok g"
  shows "relates (advances (au_env (gt_authority g))) (dispatch g cx chk call)"
proof -
  let ?e = "au_env (gt_authority g)"
  have "relates (advances ?e) (send call)"
    unfolding send_def by (rule adv.rel_modify) (auto simp: advances_def)
  moreover have "relates (advances ?e) (gt_complete g cx chk call (cx_deadline cx))"
    using assms by (intro el_ad) (simp add: upstream_ok_def Let_def)
  ultimately show ?thesis
    unfolding dispatch_def by (rule adv.rel_then)
qed

lemma ell_advl: "relates (on_fst (elsewhere e)) m \<Longrightarrow> relates (on_fst (advances e)) m"
  by (auto simp: relates_def on_fst_def elsewhere_def advances_def)

lemma adv_infer_once:
  assumes up: "upstream_ok g"
  shows "relates (advances (au_env (gt_authority g))) (infer_once g cx chk a q run n reason repairing)"
proof -
  let ?e = "au_env (gt_authority g)"
  have body: "relates (on_fst (advances ?e)) (attempt_body g cx chk a q started call)" for cx chk started call
    unfolding attempt_body_def
    by (intro advl.rel_rules rel_on_gw rel_set_local adv.R_refl adv_dispatch [OF up]
        ell_advl [OF ell_settle] el_ad [OF el_attempt(4)])
  show ?thesis
    unfolding infer_once_def Let_def
    by (intro adv.rel_rules rel_with_locals advl.rel_catch body advl.rel_rules ell_advl [OF ell_failed]
        el_ad [OF el_attempt(1)] el_ad [OF el_attempt(3)])
qed

lemma adv_except: "relates (advances e) m \<Longrightarrow> (\<And>x. relates (advances e) (h x)) \<Longrightarrow>
    relates (advances e) (except_domain m h)"
  unfolding except_domain_def by (intro adv.rel_rules)

lemma adv_infer:
  assumes up: "upstream_ok g"
  shows "relates (advances (au_env (gt_authority g))) (infer g cx chk a q run)"
proof -
  have "relates (advances (au_env (gt_authority g))) (infer_loop g cx chk a q run cs k l)" for cs k l
    by (induction k arbitrary: l)
      (simp_all, (intro adv.rel_rules adv_except adv_infer_once [OF up] el_ad [OF el_routing(3)] | assumption)+)
  then show ?thesis
    unfolding infer_def Let_def by (intro adv.rel_rules el_ad [OF el_routing(1)] el_ad [OF el_routing(2)])
qed

lemma adv_new:
  assumes up: "upstream_ok g"
  shows "relates (advances (au_env (gt_authority g))) (complete_new g cx chk a q)"
  unfolding complete_new_def
  by (intro adv.rel_rules adv_infer [OF up] el_ad [OF el_serving(4)] el_ad [OF el_serving(5)]
      el_ad [OF el_retain])

lemma adv_complete:
  assumes up: "upstream_ok g"
  shows "relates (advances (au_env (gt_authority g))) (complete_chat g cx chk q)"
  unfolding complete_chat_def
  by (intro adv.rel_rules adv_new [OF up] el_ad [OF el_serving(2)] el_ad [OF el_serving(6)])

lemma adv_emit:
  assumes "upstream_ok g"
  shows "relates (advances (au_env (gt_authority g))) (emit g x)"
proof -
  let ?e = "au_env (gt_authority g)"
  have "relates (advances ?e) (modifyM (\<lambda>s. s\<lparr> gw_log := Delivered x # gw_log s \<rparr>))"
    by (rule adv.rel_modify) (auto simp: advances_def)
  moreover have "relates (advances ?e) (gt_deliver g x)"
    using assms by (intro el_ad) (simp add: upstream_ok_def Let_def)
  ultimately show ?thesis
    unfolding emit_def by (rule adv.rel_then)
qed

lemma advl_stream:
  assumes up: "upstream_ok g"
  shows "relates (on_fst (advances (au_env (gt_authority g)))) (stream_body g cx chk a q out index c)"
    and "relates (on_fst (advances (au_env (gt_authority g)))) (stream_failed g cx chk cs index c x)"
proof -
  let ?e = "au_env (gt_authority g)"
  note rules = advl.rel_rules rel_on_gw rel_set_local adv.R_refl adv_emit [OF up]
    el_ad [OF el_serving(1)] el_ad [OF el_serving(4)] el_ad [OF el_serving(5)] el_ad [OF el_attempt(1)]
    el_ad [OF el_attempt(2)] el_ad [OF el_attempt(3)] el_ad [OF el_stage] el_ad [OF el_guard_event]
    el_ad [OF el_retain] el_ad [OF el_db] el_ad [OF el_call_back] db_saves adv.rel_rules
  have event: "relates (on_fst (advances ?e)) (accept_event g q item)" for item
    unfolding accept_event_def by (cases item; simp; intro rules)
  have consume: "\<forall>step\<in>set steps. relates (elsewhere ?e) step \<Longrightarrow>
      relates (on_fst (advances ?e)) (consume g cx chk q r steps)" for r steps
    by (induction steps) (simp_all, (intro rules event el_ad | simp)+)
  have opened: "relates (on_fst (advances ?e)) (bindM (on_gw (open_stream g child chk call d))
      (\<lambda>steps. thenM (consume g cx chk q r steps) m))"
    if "relates (on_fst (advances ?e)) m" for child call d r m
  proof -
    have send: "relates (advances ?e) (send call)"
      unfolding send_def by (rule adv.rel_modify) (auto simp: advances_def)
    have all: "\<forall>step\<in>set (gt_stream g child chk call d). relates (elsewhere ?e) step"
      using up by (simp add: upstream_ok_def Let_def)
    have "bindM (on_gw (open_stream g child chk call d)) (\<lambda>steps. thenM (consume g cx chk q r steps) m)
        = thenM (on_gw (send call)) (thenM (consume g cx chk q r (gt_stream g child chk call d)) m)"
      by (rule ext) (auto simp: bindM_run thenM_run on_gw_def open_stream_def send_def)
    then show ?thesis
      by (simp add: advl.rel_then rel_on_gw send consume [OF all] that)
  qed
  have conclude: "relates (on_fst (advances ?e)) (conclude g cx child a q out call attempt)" for child call attempt
    unfolding conclude_def Let_def by (intro rules)
  show "relates (on_fst (advances ?e)) (stream_body g cx chk a q out index c)"
    unfolding stream_body_def stream_ready_def Let_def by (intro rules opened conclude)
  show "relates (on_fst (advances ?e)) (stream_failed g cx chk cs index c x)"
    unfolding stream_failed_def close_attempt_def
    by (intro rules adv_except el_ad [OF el_exec_query])
qed

lemma adv_loop:
  assumes up: "upstream_ok g"
  shows "relates (advances (au_env (gt_authority g))) (stream_loop g cx chk a q out cs index rest)"
  by (induction rest arbitrary: index)
    (simp_all, (intro adv.rel_rules rel_with_locals advl.rel_catch advl_stream [OF up] advl.rel_rules | assumption)+)

lemma adv_stream:
  assumes up: "upstream_ok g"
  shows "relates (advances (au_env (gt_authority g))) (stream_chat g cx chk q)"
  unfolding stream_chat_def
  by (intro adv.rel_rules adv_loop [OF up] el_ad [OF el_serving(2)] el_ad [OF el_serving(4)]
      el_ad [OF el_routing(1)])

end
