(* ===== verification/Gateway_Examples.thy ===== *)
theory Gateway_Examples
  imports Gateway_Effects
begin

text \<open>
  A gateway with a provider that answers at once, on the example tenant of Preflight,
  extended with an alias and an application key.
\<close>

text \<open>
  Rendering a number and finding the citations of a text, with the test as an argument:
  evaluation under a binder, where the number or the text is not known, then stops.
\<close>

definition show_pos :: "int \<Rightarrow> string" where
  "show_pos i = show_nat (nat i)"

fun show_digits :: "bool \<Rightarrow> int \<Rightarrow> string" where
  "show_digits True i = [digit (nat i)]"
| "show_digits False i = show_pos (i div 10) @ [digit (nat (i mod 10))]"

fun show_signed :: "bool \<Rightarrow> int \<Rightarrow> string" where
  "show_signed True i = CHR ''-'' # show_pos (- i)"
| "show_signed False i = show_pos i"

lemma show_pos_code [code]: "show_pos i = show_digits (i < 10) i"
  by (cases "i < 10") (auto simp: show_pos_def show_nat.simps [of "nat i"] nat_div_distrib nat_mod_distrib nat_less_iff)

lemma show_int_code [code]: "show_int i = show_signed (i < 0) i"
  by (cases "i < 0") (simp_all add: show_int_def show_pos_def)

fun urls_of :: "string \<Rightarrow> string option \<Rightarrow> string list" where
  "urls_of [] _ = []"
| "urls_of (c # cs) None = find_urls cs"
| "urls_of (c # cs) (Some u) = u # find_urls (drop (length u) (c # cs))"

lemma find_urls_code [code]: "find_urls t = urls_of t (url_here t)"
  by (cases t; cases "url_here t") (subst find_urls.simps, simp)+

fun found_in :: "string \<Rightarrow> string \<Rightarrow> bool" where
  "found_in needle [] = (needle = [])"
| "found_in needle (c # cs) = (take (length needle) (c # cs) = needle \<or> found_in needle cs)"

lemma found_in_iff: "found_in needle t \<longleftrightarrow> (\<exists>a b. t = a @ needle @ b)"
proof (induction t)
  case (Cons c cs)
  have "take (length needle) (c # cs) = needle \<longleftrightarrow> (\<exists>b. c # cs = needle @ b)"
    by (metis append_eq_conv_conj)
  then show ?case using Cons.IH by (auto simp: Cons_eq_append_conv)
qed simp

lemma contains_code [code]: "contains t needle = found_in needle t"
  by (simp add: contains_iff found_in_iff)

lemma rule_passes_code [code]: "rule_passes parses text r =
    (int (utf8_length text) \<le> 65536 \<and> (case vl_kind r of
        RkRequiredTerms \<Rightarrow> list_all (\<lambda>v. contains (casefold text) (casefold v)) (vl_values r)
      | RkPythonSyntax \<Rightarrow> parses text
      | RkCitationAllowlist \<Rightarrow>
          (let urls = find_urls text in
           urls \<noteq> [] \<and> list_all (\<lambda>u. u \<in> set (vl_values r)) urls)))"
  by (simp add: rule_passes_def)

definition small_collector :: "collector \<Rightarrow> bool" where
  "small_collector s = (collected_bytes s \<le> 1048576)"

lemma small_collector_code [code]: "small_collector s = (int (collected_bytes s) \<le> 1048576)"
  by (simp add: small_collector_def)

declare accept_choice_def [folded small_collector_def, code]

definition ex_usage :: completion_usage where
  "ex_usage = \<lparr> us_prompt_tokens = 20, us_completion_tokens = 5, us_total_tokens = 25 \<rparr>"

definition ex_completion :: "inference_call \<Rightarrow> chat_completion" where
  "ex_completion call = \<lparr> cc_id = ''gen'', cc_created = 0, cc_model = cq_model (ic_messages call),
     cc_content = Some ''ok'', cc_tool_calls = None, cc_finish_reason = FrStop,
     cc_usage = Some ex_usage \<rparr>"

definition ex_result :: "inference_call \<Rightarrow> inference_result" where
  "ex_result call = \<lparr> ir_completion = ex_completion call, ir_actual_micro_usd = Some 100,
     ir_usage = Some ex_usage, ir_trace = (ic_trace call)\<lparr> dt_served_model := ex_fact ''m'' \<rparr> \<rparr>"

definition ex_alias :: route_alias where
  "ex_alias = \<lparr> al_id = ''al'', al_policy = ex_ref, al_node_id = ''ask'', al_configuration_id = ''a'',
     al_created_at = 0 \<rparr>"

definition ex_app_key :: application_key where
  "ex_app_key = \<lparr> ak_id = ''k'', ak_tenant_id = ''o'', ak_prefix = ''bbx_00000000'',
     ak_scopes = [ScChatComplete], ak_alias_ids = [''al''], ak_workflow_policies = [],
     ak_created_at = 0, ak_expires_at = 1000, ak_revoked_at = None \<rparr>"

text \<open>The provider answers; a stream is one chunk of text and its terminal accounting.\<close>

definition ex_server :: gateway where
  "ex_server = \<lparr> gt_authority = ex_authority,
     gt_complete = (\<lambda>_ _ call _. ret (ex_result call)),
     gt_stream = (\<lambda>_ _ call _. [ret (ItChunk ((ex_chunk ''ok'' (Some FrStop))\<lparr> ck_model := ''al'' \<rparr>)),
        ret (ItObservation (Some ex_usage) (Some 100) (ic_trace call))]),
     gt_deliver = (\<lambda>_. ret ()), gt_retain_seconds = 0, gt_repair_retain_seconds = 0,
     gt_streaming_enabled = True, gt_per_minute = 60, gt_millis = (\<lambda>d. d div 1000),
     gt_child = (\<lambda>i n. i @ replicate n (CHR ''x'')), gt_fingerprint = (\<lambda>_ _ _ _. ex_hash),
     gt_dump = (\<lambda>_. JNull), gt_load = (\<lambda>_. Inl ValueError), gt_observations = (\<lambda>_. JNull),
     gt_repair_text = (\<lambda>_ _. ''again''), gt_reader = (\<lambda>_. None), gt_parses = (\<lambda>_. True) \<rparr>"

lemma ex_upstream: "upstream_ok ex_server"
  by (simp add: upstream_ok_def Let_def ex_server_def el.rel_ret)

definition ex_keyed :: gw where
  "ex_keyed = ex_gateway\<lparr> gw_db := ex_gateway_db\<lparr>
     db_records := db_records ex_gateway_db @ [row_for (''o'', KAlias, ''al'', 1) (PlAlias ex_alias),
       row_for (''o'', KKey, ''k'', 1) (PlKey ex_app_key)],
     db_verifiers := [\<lparr> vf_owner = ''o'', vf_id = ''k'', vf_verifier = ''v'' \<rparr>],
     db_budgets := db_budgets ex_gateway_db
       @ [\<lparr> bg_owner = ''o'', bg_id = ''key-k'', bg_cap = 2000, bg_held = 0 \<rparr>] \<rparr> \<rparr>"

definition ex_chat_context :: request_context where
  "ex_chat_context = ex_context\<lparr> cx_application_key := Some ex_app_key \<rparr>"

lemma ex_once: "is_ok (fst (infer_once ex_server ex_context cancellation (ex_authorized ''a'') ex_question
    ''req'' 1 None False ex_gateway))"
  by code_simp

end
