(* ===== verification/Gateway_Safety.thy ===== *)
theory Gateway_Safety
  imports Gateway_Examples
begin

text \<open>
  The guarantees of the gateway: what backs a dispatch, how much an inference may reserve
  and how often it may dispatch, and what a returned result satisfies.
\<close>

section \<open>What is sent\<close>

lemma dispatch_sent:
  assumes "upstream_ok g" and "dispatch g cx chk call s = (r, t)"
  shows "gw_sent t = (call, gw_db s) # gw_sent s"
proof -
  let ?s = "s\<lparr> gw_log := Sent call (gw_db s) # gw_log s \<rparr>"
  have "gt_complete g cx chk call (cx_deadline cx) ?s = (r, t)"
    using assms(2) by (simp add: dispatch_def send_def thenM_run)
  then show ?thesis
    using assms(1) sent_same [of "au_env (gt_authority g)" "gt_complete g cx chk call (cx_deadline cx)" ?s r t]
    by (simp add: upstream_ok_def Let_def)
qed

lemma body_sent:
  assumes up: "upstream_ok g" and run: "attempt_body g cx chk a q started call (s, l) = (r, (t, l'))"
  shows "gw_sent t = gw_sent s \<or>
    (\<exists>u. recheck g cx chk a call (lc_attempt l) s = (Inr (), u) \<and> gw_sent t = (call, gw_db u) # gw_sent u
       \<and> gw_sent u = gw_sent s)"
proof -
  obtain r1 u where check: "recheck g cx chk a call (lc_attempt l) s = (r1, u)"
    by fastforce
  have u: "gw_sent u = gw_sent s"
    by (rule sent_same [OF el_attempt(4) check])
  show ?thesis
  proof (cases r1)
    case (Inl x)
    then show ?thesis
      using run check u by (auto simp: attempt_body_def bindM_run thenM_run on_gw_def)
  next
    case (Inr v)
    obtain r2 w where d: "dispatch g cx chk call u = (r2, w)"
      by fastforce
    note w = dispatch_sent [OF up d]
    have "gw_sent t = gw_sent w"
    proof (cases r2)
      case (Inl x)
      then show ?thesis
        using run check Inr d by (auto simp: attempt_body_def bindM_run thenM_run on_gw_def set_local_def)
    next
      case res: (Inr res)
      then have "settle_answer g cx chk a q started (gw_now u) res
          (w, l\<lparr> lc_upstream := Some (gw_now u) \<rparr>) = (r, (t, l'))"
        using run check Inr d by (auto simp: attempt_body_def bindM_run thenM_run on_gw_def set_local_def)
      from sent_same_locals [OF ell_settle this] show ?thesis
        by simp
    qed
    then show ?thesis
      using check Inr w u by auto
  qed
qed

lemma find_reserved:
  assumes "reserve ow b i rq amount s = (Inr u, t)"
  shows "find_reservation ow i t = Some (new_reservation ow b i rq amount)"
proof -
  have fresh: "(ow, i) \<notin> reservation_key ` set (db_reservations s)"
    and t: "db_reservations t = db_reservations s @ [new_reservation ow b i rq amount]"
    using assms by (auto simp: reserve_ok_iff)
  have "filter (\<lambda>r. reservation_key r = (ow, i)) (db_reservations s) = []"
    using fresh unfolding filter_empty_conv by (metis imageI)
  then show ?thesis
    by (simp add: find_reservation_def t new_reservation_def reservation_key_def)
qed

lemma save_attempt_ok:
  assumes "save_attempt ow a v s = (Inr u, t)"
  shows "find_record ow KAttempt (ra_id a) v t = Some (PlAttempt a)"
    and "db_reservations t = db_reservations s" and "dt_tenant_id (ra_trace a) = ow"
proof -
  have run: "append_at (ow, KAttempt, ra_id a, v) (PlAttempt a) s = (Inr u, t)"
    and "dt_tenant_id (ra_trace a) = ow"
    using assms by (auto simp: save_attempt_def thenM_ok_iff append_at_def)
  then show "dt_tenant_id (ra_trace a) = ow" and "find_record ow KAttempt (ra_id a) v t = Some (PlAttempt a)"
    using log.app_new [OF run] by (simp_all add: record_at_def)
  show "db_reservations t = db_reservations s"
    using run by (auto simp: append_at_run split: option.splits if_splits)
qed

lemma find_reservation_same:
  "db_reservations t = db_reservations s \<Longrightarrow> find_reservation ow i t = find_reservation ow i s"
  by (simp add: find_reservation_def)

lemma start_ok:
  assumes "start g cx chk a q run n s = (Inr (call, attempt), t)"
  obtains amount where "preflight (gt_authority g) a q = Inr amount" and "call = call_of cx a q"
    and "attempt = new_attempt cx a run n amount (gw_now s)" and "0 \<le> amount"
    and "find_reservation (cx_tenant_id cx) (reservation_of cx) (gw_db t)
      = Some (new_reservation (cx_tenant_id cx) (sa_budget_reference (az_admission a))
          (reservation_of cx) (cx_request_id cx) amount)"
    and "find_record (cx_tenant_id cx) KAttempt (cx_request_id cx) 1 (gw_db t) = Some (PlAttempt attempt)"
    and "dt_tenant_id (az_trace a) = cx_tenant_id cx"
proof -
  from assms obtain amount s1 d2 d3 where pre: "preflight (gt_authority g) a q = Inr amount"
    and call: "call = call_of cx a q" and attempt: "attempt = new_attempt cx a run n amount (gw_now s)"
    and reserved: "reserve (cx_tenant_id cx) (sa_budget_reference (az_admission a)) (reservation_of cx)
      (cx_request_id cx) amount s1 = (Inr (), d2)"
    and saved: "save_attempt (cx_tenant_id cx) attempt 1 d2 = (Inr (), d3)" and t: "gw_db t = d3"
    unfolding start_def Let_def by (auto simp: bindM_ok_iff thenM_ok_iff on_db_ok_iff)
  note done_ = save_attempt_ok [OF saved]
  have "find_reservation (cx_tenant_id cx) (reservation_of cx) (gw_db t)
      = Some (new_reservation (cx_tenant_id cx) (sa_budget_reference (az_admission a))
          (reservation_of cx) (cx_request_id cx) amount)"
    using find_reserved [OF reserved] find_reservation_same [OF done_(2)] t by simp
  moreover have "0 \<le> amount"
    using reserved by (simp add: reserve_ok_iff)
  ultimately show thesis
    using that pre call attempt done_(1,3) t by (simp add: new_attempt_def)
qed

lemma recheck_ok:
  assumes "recheck g cx chk a call attempt s = (Inr u, t)"
  obtains fresh s1 where "authority_stage (gt_authority g) cx chk (dt_policy (ic_trace call))
      (dt_node_id (ic_trace call)) (dt_alias_id (ic_trace call)) (az_data_class a)
      (es_configuration_id (az_stage a)) s = (Inr fresh, s1)"
    and "az_target fresh = az_target a" and "az_credential fresh = az_credential a"
    and "find_record (cx_tenant_id cx) KAttempt (ra_id attempt) 2 (gw_db t)
      = Some (PlAttempt (attempt\<lparr> ra_status := AtDispatched \<rparr>))"
    and "save_attempt (cx_tenant_id cx) (attempt\<lparr> ra_status := AtDispatched \<rparr>) 2 (gw_db s)
      = (Inr (), gw_db t)"
    and "db_reservations (gw_db t) = db_reservations (gw_db s)"
proof -
  from assms obtain fresh s1 d where stage: "authority_stage (gt_authority g) cx chk (dt_policy (ic_trace call))
      (dt_node_id (ic_trace call)) (dt_alias_id (ic_trace call)) (az_data_class a)
      (es_configuration_id (az_stage a)) s = (Inr fresh, s1)"
    and same: "az_target fresh = az_target a" "az_credential fresh = az_credential a"
    and saved: "save_attempt (cx_tenant_id cx) (attempt\<lparr> ra_status := AtDispatched \<rparr>) 2 (gw_db s1) = (Inr u, d)"
    and t: "gw_db t = d"
    unfolding recheck_def by (auto simp: bindM_ok_iff thenM_ok_iff on_db_ok_iff)
  moreover have "gw_db s1 = gw_db s"
    using only_cache_same(1) [OF relatesD [OF only_cache_stage stage]] .
  moreover have "save_attempt (cx_tenant_id cx) (attempt\<lparr> ra_status := AtDispatched \<rparr>) 2 (gw_db s)
      = (Inr (), gw_db t)"
    using saved t calculation by simp
  ultimately show thesis
    using that save_attempt_ok [OF saved] by simp
qed

text \<open>What holds when a call is sent: the amount it may cost is reserved, the attempt is on
  record as dispatched, and the authority, asked again, agreed on the very database to which
  only this record was then added.\<close>

definition backed :: "gateway \<Rightarrow> request_context \<Rightarrow> callback \<Rightarrow> authorized \<Rightarrow> chat_request \<Rightarrow> db \<Rightarrow> bool" where
  "backed g cx chk a q d = (\<exists>amount attempt fresh u v.
     preflight (gt_authority g) a q = Inr amount \<and> 0 \<le> amount
     \<and> find_reservation (cx_tenant_id cx) (reservation_of cx) d
        = Some (new_reservation (cx_tenant_id cx) (sa_budget_reference (az_admission a))
            (reservation_of cx) (cx_request_id cx) amount)
     \<and> find_record (cx_tenant_id cx) KAttempt (cx_request_id cx) 2 d = Some (PlAttempt attempt)
     \<and> ra_status attempt = AtDispatched \<and> ur_reserved_micro_usd (ra_usage attempt) = amount
     \<and> authority_stage (gt_authority g) cx chk (dt_policy (az_trace a)) (dt_node_id (az_trace a))
         (dt_alias_id (az_trace a)) (az_data_class a) (es_configuration_id (az_stage a)) u = (Inr fresh, v)
     \<and> save_attempt (cx_tenant_id cx) attempt 2 (gw_db u) = (Inr (), d)
     \<and> az_target fresh = az_target a \<and> az_credential fresh = az_credential a)"

definition attempt_context :: "request_context \<Rightarrow> authorized \<Rightarrow> int \<Rightarrow> request_context" where
  "attempt_context cx a now = cx\<lparr> cx_deadline := stage_deadline cx a now \<rparr>"

lemma infer_once_sent:
  assumes up: "upstream_ok g" and run: "infer_once g cx0 chk0 a q run n reason repairing s = (r, t)"
  shows "gw_sent t = gw_sent s \<or> (\<exists>d. gw_sent t = (call_of cx0 a q, d) # gw_sent s
    \<and> backed g (attempt_context cx0 a (gw_now s)) (before (stage_deadline cx0 a (gw_now s)) chk0) a q d)"
proof -
  let ?dl = "stage_deadline cx0 a (gw_now s)"
  let ?cx = "attempt_context cx0 a (gw_now s)" and ?chk = "before ?dl chk0"
  obtain r1 s1 where circuit: "acquire_circuit ?cx a s = (r1, s1)" by fastforce
  obtain r2 s2 where started: "start g ?cx ?chk a q run n s1 = (r2, s2)" by fastforce
  note same = sent_same [OF el_attempt(3) circuit] sent_same [OF el_attempt(1) started]
  show ?thesis
  proof (cases "is_ok r1 \<and> is_ok r2")
    case False
    then show ?thesis
      using run circuit started same
      by (auto simp: infer_once_def attempt_context_def Let_def bindM_run thenM_run is_ok_def split: sum.splits)
  next
    case True
    then obtain u call attempt where r: "r1 = Inr u" "r2 = Inr (call, attempt)"
      by (auto simp: is_ok_iff)
    let ?attempt = "attempt\<lparr> ra_fallback_reason := reason, ra_recovery_action :=
      (if repairing then Some RvRepair else if reason \<noteq> None then Some RvFallback else None) \<rparr>"
    let ?l = "\<lparr> lc_result = None, lc_attempt = ?attempt, lc_upstream = None \<rparr>"
    obtain rb tb lb where body: "attempt_body g ?cx ?chk a q (gw_now s) call (s2, ?l) = (rb, (tb, lb))"
      by (metis surj_pair)
    have "gw_sent t = gw_sent tb"
    proof (cases rb)
      case (Inr x)
      then show ?thesis
        using run circuit started r body
        by (auto simp: infer_once_def attempt_context_def Let_def bindM_run thenM_run with_locals_def catchM_def)
    next
      case (Inl x)
      obtain rf tf lf where failed: "attempt_failed g ?cx a run (gw_now s) x (tb, lb) = (rf, (tf, lf))"
        by (metis surj_pair)
      have "gw_sent tf = gw_sent tb"
        using sent_same_locals [OF ell_failed failed] by simp
      then show ?thesis
        using run circuit started r body Inl failed
        by (auto simp: infer_once_def attempt_context_def Let_def bindM_run thenM_run with_locals_def catchM_def
            split: if_splits)
    qed
    with body_sent [OF up body] show ?thesis
    proof (elim disjE exE conjE)
      fix w assume check: "recheck g ?cx ?chk a call (lc_attempt ?l) s2 = (Inr (), w)"
        and sent: "gw_sent tb = (call, gw_db w) # gw_sent w" "gw_sent w = gw_sent s2" "gw_sent t = gw_sent tb"
      obtain amount where st: "preflight (gt_authority g) a q = Inr amount" "call = call_of ?cx a q"
          "attempt = new_attempt ?cx a run n amount (gw_now s1)" "0 \<le> amount"
        and held: "find_reservation (cx_tenant_id ?cx) (reservation_of ?cx) (gw_db s2)
          = Some (new_reservation (cx_tenant_id ?cx) (sa_budget_reference (az_admission a))
              (reservation_of ?cx) (cx_request_id ?cx) amount)"
        using start_ok [OF started [unfolded r]] by metis
      obtain fresh v where stage: "authority_stage (gt_authority g) ?cx ?chk (dt_policy (ic_trace call))
          (dt_node_id (ic_trace call)) (dt_alias_id (ic_trace call)) (az_data_class a)
          (es_configuration_id (az_stage a)) s2 = (Inr fresh, v)"
        and fresh: "az_target fresh = az_target a" "az_credential fresh = az_credential a"
        and saved: "find_record (cx_tenant_id ?cx) KAttempt (ra_id ?attempt) 2 (gw_db w)
          = Some (PlAttempt (?attempt\<lparr> ra_status := AtDispatched \<rparr>))"
        and wrote: "save_attempt (cx_tenant_id ?cx) (?attempt\<lparr> ra_status := AtDispatched \<rparr>) 2 (gw_db s2)
          = (Inr (), gw_db w)"
        and kept: "db_reservations (gw_db w) = db_reservations (gw_db s2)"
        using recheck_ok [OF check] by (metis locals.select_convs(2))
      have "find_reservation (cx_tenant_id ?cx) (reservation_of ?cx) (gw_db w)
          = Some (new_reservation (cx_tenant_id ?cx) (sa_budget_reference (az_admission a))
              (reservation_of ?cx) (cx_request_id ?cx) amount)"
        using held find_reservation_same [OF kept] by simp
      then have "backed g ?cx ?chk a q (gw_db w)"
        unfolding backed_def using st(1,3,4) stage fresh saved wrote unfolding st(2)
        by (intro exI [of _ amount] exI [of _ "?attempt\<lparr> ra_status := AtDispatched \<rparr>"] exI [of _ fresh]
            exI [of _ s2] exI [of _ v]) (simp add: new_attempt_def call_of_def)
      moreover have "call = call_of cx0 a q"
        by (simp add: st(2) call_of_def attempt_context_def reservation_of_def)
      ultimately show ?thesis
        using sent same by metis
    qed (use same in simp)
  qed
qed

section \<open>What is spent\<close>

text \<open>What is reserved for a call when it is sent, and for all calls of a gateway.\<close>

definition held_for :: "string \<Rightarrow> inference_call \<times> db \<Rightarrow> int" where
  "held_for tenant = (\<lambda>(call, d). case find_reservation tenant (ic_reservation_id call) d of
     None \<Rightarrow> 0 | Some r \<Rightarrow> rs_reserved r)"

definition spent :: "string \<Rightarrow> gw \<Rightarrow> int" where
  "spent tenant s = sum_list (map (held_for tenant) (gw_sent s))"

lemma spent_same: "gw_sent t = gw_sent s \<Longrightarrow> spent tenant t = spent tenant s"
  by (simp add: spent_def)

lemma infer_once_spent:
  assumes up: "upstream_ok g" and run: "infer_once g cx chk a q run n reason repairing s = (r, t)"
    and most: "\<And>amount. preflight (gt_authority g) a q = Inr amount \<Longrightarrow> amount \<le> e" and "0 \<le> e"
  shows "spent (cx_tenant_id cx) t \<le> spent (cx_tenant_id cx) s + e"
    and "length (gw_sent t) \<le> length (gw_sent s) + 1"
proof -
  from infer_once_sent [OF up run]
  have "spent (cx_tenant_id cx) t \<le> spent (cx_tenant_id cx) s + e
    \<and> length (gw_sent t) \<le> length (gw_sent s) + 1"
  proof (elim disjE exE conjE)
    fix d assume sent: "gw_sent t = (call_of cx a q, d) # gw_sent s"
      and "backed g (attempt_context cx a (gw_now s)) (before (stage_deadline cx a (gw_now s)) chk) a q d"
    then obtain amount where "preflight (gt_authority g) a q = Inr amount"
      and "find_reservation (cx_tenant_id cx) (reservation_of cx) d
        = Some (new_reservation (cx_tenant_id cx) (sa_budget_reference (az_admission a))
            (reservation_of cx) (cx_request_id cx) amount)"
      unfolding backed_def by (auto simp: attempt_context_def reservation_of_def)
    then show ?thesis
      using most [of amount] sent
      by (simp add: spent_def held_for_def call_of_def new_reservation_def)
  qed (use assms(4) in \<open>simp add: spent_def\<close>)
  then show "spent (cx_tenant_id cx) t \<le> spent (cx_tenant_id cx) s + e"
    and "length (gw_sent t) \<le> length (gw_sent s) + 1" by blast+
qed

section \<open>The loop of fallbacks and repairs\<close>

text \<open>\<open>es\<close> bounds what each candidate can reserve for any of the requests \<open>Q\<close>.\<close>

definition covers :: "authority \<Rightarrow> authorized list \<Rightarrow> int list \<Rightarrow> chat_request set \<Rightarrow> bool" where
  "covers au cs es Q = (length es = length cs \<and> (\<forall>e\<in>set es. 0 \<le> e)
     \<and> (\<forall>i<length cs. \<forall>q\<in>Q. \<forall>amount. preflight au (cs ! i) q = Inr amount \<longrightarrow> amount \<le> es ! i))"

text \<open>What the rest of the loop may still reserve.\<close>

definition outstanding :: "int list \<Rightarrow> routing \<Rightarrow> int" where
  "outstanding es l = (if rt_repairing l then Max (set es) else es ! rt_candidate l)
     + sum_list (drop (rt_candidate l + 1) es) + int (rt_repairs l) * Max (set es)"

definition routing_ok :: "authorized list \<Rightarrow> chat_request set \<Rightarrow> chat_request \<Rightarrow> routing \<Rightarrow> bool" where
  "routing_ok cs Q q l = (rt_candidate l < length cs \<and> q \<in> Q \<and> rt_request l \<in> Q
     \<and> (rt_repairs l \<noteq> 0 \<longrightarrow> (\<forall>m. q\<lparr> cq_messages := cq_messages q @ [m] \<rparr> \<in> Q)))"

lemma next_route_ok:
  assumes run: "next_route g cx chk a q cs x l s = (Inr l', t)" and ok: "routing_ok cs Q q l"
    and len: "length es = length cs"
  shows "routing_ok cs Q q l'"
    and "outstanding es l' = outstanding es l
      - (if rt_repairing l then Max (set es) else es ! rt_candidate l)"
proof -
  have cases: "(\<exists>m. wants_repair x l \<and> l' = l\<lparr> rt_index := rt_index l + 1, rt_last := Some x,
        rt_repairing := True, rt_request := q\<lparr> cq_messages := cq_messages q @ [m] \<rparr>,
        rt_repairs := rt_repairs l - 1 \<rparr>)
    \<or> rt_candidate l + 1 < length cs \<and> l' = l\<lparr> rt_index := rt_index l + 1, rt_last := Some x,
        rt_candidate := rt_candidate l + 1, rt_repairing := False, rt_request := q \<rparr>"
    using run by (auto simp: next_route_def repair_step_def fallback_step_def Let_def bindM_ok_iff
        thenM_ok_iff split: if_splits)
  then show "routing_ok cs Q q l'"
    using ok by (auto simp: routing_ok_def wants_repair_def)
  show "outstanding es l' = outstanding es l
      - (if rt_repairing l then Max (set es) else es ! rt_candidate l)"
    using cases
  proof (elim disjE exE conjE)
    fix m assume "wants_repair x l"
    then have "int (rt_repairs l - 1) * Max (set es) + Max (set es) = int (rt_repairs l) * Max (set es)"
      by (simp add: wants_repair_def of_nat_diff algebra_simps)
    moreover assume "l' = l\<lparr> rt_index := rt_index l + 1, rt_last := Some x,
        rt_repairing := True, rt_request := q\<lparr> cq_messages := cq_messages q @ [m] \<rparr>,
        rt_repairs := rt_repairs l - 1 \<rparr>"
    ultimately show ?thesis
      by (simp add: outstanding_def)
  next
    assume more: "rt_candidate l + 1 < length cs"
      and l': "l' = l\<lparr> rt_index := rt_index l + 1, rt_last := Some x,
        rt_candidate := rt_candidate l + 1, rt_repairing := False, rt_request := q \<rparr>"
    have "drop (rt_candidate l + 1) es = es ! (rt_candidate l + 1) # drop (rt_candidate l + 2) es"
      using more len Cons_nth_drop_Suc [of "rt_candidate l + 1" es] by simp
    then show ?thesis
      by (simp add: outstanding_def l')
  qed
qed

lemma outstanding_nonneg:
  assumes "\<forall>e\<in>set es. 0 \<le> e" and "rt_candidate l < length es"
  shows "(if rt_repairing l then Max (set es) else es ! rt_candidate l) \<le> outstanding es l"
    and "0 \<le> Max (set es)" and "es ! rt_candidate l \<le> Max (set es)" and "0 \<le> outstanding es l"
proof -
  have mem: "es ! rt_candidate l \<in> set es"
    using assms(2) by simp
  then show big: "es ! rt_candidate l \<le> Max (set es)"
    by simp
  then show pos: "0 \<le> Max (set es)"
    using assms(1) mem by (meson order_trans)
  have "0 \<le> sum_list (drop (rt_candidate l + 1) es)"
    using assms(1) by (intro sum_list_nonneg) (auto dest: in_set_dropD)
  then show "(if rt_repairing l then Max (set es) else es ! rt_candidate l) \<le> outstanding es l"
    using pos by (simp add: outstanding_def)
  then show "0 \<le> outstanding es l"
    using pos assms(1) mem by (auto split: if_splits)
qed

lemma infer_loop_spent:
  assumes up: "upstream_ok g" and cov: "covers (gt_authority g) cs es Q"
  shows "infer_loop g cx chk a q run cs k l s = (r, t) \<Longrightarrow> routing_ok cs Q q l \<Longrightarrow>
    spent (cx_tenant_id cx) t \<le> spent (cx_tenant_id cx) s + outstanding es l
    \<and> length (gw_sent t) \<le> length (gw_sent s) + k"
proof (induction k arbitrary: l s)
  case 0
  then show ?case
    using outstanding_nonneg(4) [of es l] cov by (auto simp: routing_ok_def covers_def)
next
  case (Suc k)
  let ?e = "if rt_repairing l then Max (set es) else es ! rt_candidate l"
  let ?child = "child_context g cx (rt_index l)"
  have here: "rt_candidate l < length es" and pos: "\<forall>e\<in>set es. 0 \<le> e"
    and len: "length es = length cs"
    using Suc.prems(2) cov by (auto simp: routing_ok_def covers_def)
  note bounds = outstanding_nonneg [OF pos here]
  obtain r1 s1 where once: "infer_once g ?child chk (cs ! rt_candidate l) (rt_request l) run
      (int (rt_index l) + 1) (map_option failure_kind_of (rt_last l)) (rt_repairing l) s = (r1, s1)"
    by fastforce
  have "amount \<le> ?e" if "preflight (gt_authority g) (cs ! rt_candidate l) (rt_request l) = Inr amount" for amount
  proof -
    have "amount \<le> es ! rt_candidate l"
      using that cov Suc.prems(2) unfolding covers_def routing_ok_def by blast
    then show ?thesis
      using bounds(3) by simp
  qed
  moreover have "0 \<le> ?e"
    using bounds(2) pos here by simp
  moreover have "cx_tenant_id ?child = cx_tenant_id cx"
    by (simp add: child_context_def)
  ultimately have step: "spent (cx_tenant_id cx) s1 \<le> spent (cx_tenant_id cx) s + ?e"
      "length (gw_sent s1) \<le> length (gw_sent s) + 1"
    using infer_once_spent [OF up once, of ?e] by simp_all
  show ?case
  proof (cases "\<exists>x. r1 = Inl x \<and> domain_error x")
    case False
    then have "s1 = t"
      using Suc.prems(1) once by (auto simp: except_domain_def catchM_def split: sum.splits if_splits)
    with step have "spent (cx_tenant_id cx) t \<le> spent (cx_tenant_id cx) s + ?e"
        "length (gw_sent t) \<le> length (gw_sent s) + 1"
      by simp_all
    then show ?thesis
      using bounds(1) by linarith
  next
    case True
    then obtain x where x: "r1 = Inl x" "domain_error x" by blast
    obtain r2 s2 where route: "next_route g cx chk a q cs x l s1 = (r2, s2)" by fastforce
    have same: "gw_sent s2 = gw_sent s1"
      by (rule sent_same [OF el_routing(3) route])
    have rest: "bindM (next_route g cx chk a q cs x l) (infer_loop g cx chk a q run cs k) s1 = (r, t)"
      using Suc.prems(1) once x by (simp add: except_domain_def catchM_def)
    show ?thesis
    proof (cases r2)
      case (Inl y)
      then have "t = s2"
        using rest route by (simp add: bindM_run)
      then show ?thesis
        using step bounds(1) same spent_same [OF same, of "cx_tenant_id cx"] by simp
    next
      case (Inr l')
      then have "infer_loop g cx chk a q run cs k l' s2 = (r, t)"
        using rest route by (simp add: bindM_run)
      note next_ = next_route_ok [OF route [unfolded Inr] Suc.prems(2) len]
      have "spent (cx_tenant_id cx) t \<le> spent (cx_tenant_id cx) s2 + outstanding es l'
          \<and> length (gw_sent t) \<le> length (gw_sent s2) + k"
        by (rule Suc.IH [OF \<open>infer_loop g cx chk a q run cs k l' s2 = (r, t)\<close> next_(1)])
      then show ?thesis
        using step same spent_same [OF same, of "cx_tenant_id cx"] next_(2) by simp
    qed
  qed
qed

section \<open>The envelope of a whole inference\<close>

lemma price_total_mono:
  assumes "price_total i n ps x = Inr a" and "price_total j n ps y = Inr b"
    and "i \<le> j" and "x \<le> y" and "\<forall>p\<in>set ps. 0 \<le> pc_amount p"
  shows "a \<le> b"
  using assms(1,2,4,5)
proof (induction ps arbitrary: x y)
  case Nil
  then show ?case by simp
next
  case (Cons p ps)
  have rest: "\<forall>p\<in>set ps. 0 \<le> pc_amount p" and "0 \<le> pc_amount p"
    using Cons.prems(4) by auto
  then have "pc_amount p * of_int i \<le> pc_amount p * of_int j"
    using assms(3) by (simp add: mult_left_mono)
  then show ?case
    using Cons.prems(1,2,3) Cons.IH [OF _ _ _ rest] unfolding price_total_Cons
    by (auto split: if_splits)
qed

lemma cost_bound_mono:
  assumes "cost_bound t i n = Inr a" and "cost_bound t j n = Inr b" and "i \<le> j"
    and valid: "target_deployment t"
  shows "a \<le> b"
proof (cases "tg_local t = None")
  case False
  then show ?thesis
    using assms(1,2) by (simp add: cost_bound_def)
next
  case True
  then obtain e x y where e: "tg_endpoint t = Some e" and "price_total i n (en_prices e) 0 = Inr x"
      "price_total j n (en_prices e) 0 = Inr y" and ab: "a = \<lceil>x * 1000000\<rceil>" "b = \<lceil>y * 1000000\<rceil>"
    using assms(1,2) by (auto simp: cost_bound_def rbind_Inr_iff Let_def denied_def
        split: option.splits if_splits)
  moreover have "\<forall>p\<in>set (en_prices e). 0 \<le> pc_amount p"
    using valid e by (auto simp: target_deployment_def list_all_iff finite_price_def)
  ultimately have "x \<le> y"
    using price_total_mono assms(3) by blast
  then show ?thesis
    unfolding ab by (intro ceiling_mono) simp
qed

lemma mapM_ok:
  assumes "mapM f xs s = (Inr ys, t)"
  shows "length ys = length xs \<and> (\<forall>i<length xs. \<exists>u v. f (xs ! i) u = (Inr (ys ! i), v))"
  using assms
proof (induction xs arbitrary: ys s)
  case Nil
  then show ?case by simp
next
  case (Cons x xs)
  then obtain y zs s1 where "f x s = (Inr y, s1)" and rest: "mapM f xs s1 = (Inr zs, t)" and "ys = y # zs"
    by (auto simp: bindM_ok_iff)
  then show ?case
    using Cons.IH [OF rest] by (auto simp: less_Suc_eq_0_disj nth_Cons split: nat.split)
qed

text \<open>The registry hands out targets that passed their validator.\<close>

definition registry_valid :: "authority \<Rightarrow> bool" where
  "registry_valid au = (\<forall>tenant k t. au_target au tenant k = Inr t \<longrightarrow> target_deployment t)"

lemma candidates_ok:
  assumes run: "candidates g cx chk a q s = (Inr cs, t)" and valid: "registry_valid (gt_authority g)"
    and own: "target_deployment (az_target a)"
  shows "length cs = 1 + length (es_fallback_configuration_ids (az_stage a))"
    and "\<forall>c\<in>set cs. target_deployment (az_target c)" and "hd cs = a"
proof -
  let ?f = "\<lambda>k. authority_stage (gt_authority g) cx chk (dt_policy (az_trace a))
          (es_node_id (az_stage a)) (dt_alias_id (az_trace a)) (az_data_class a) (Some k)"
  let ?ks = "es_fallback_configuration_ids (az_stage a)"
  obtain rest u where stages: "mapM ?f ?ks s = (Inr rest, u)" and cs: "cs = a # rest"
    using run by (auto simp: candidates_def bindM_ok_iff thenM_ok_iff)
  note each = mapM_ok [OF stages]
  have "target_deployment (az_target c)" if c: "c \<in> set rest" for c
  proof -
    obtain i where i: "i < length ?ks" "rest ! i = c"
      using c each by (auto simp: in_set_conv_nth)
    then obtain u v where "?f (?ks ! i) u = (Inr c, v)"
      using each by blast
    then show ?thesis
      by (rule stage_target) (rule valid [unfolded registry_valid_def, rule_format])
  qed
  then show "length cs = 1 + length ?ks" "\<forall>c\<in>set cs. target_deployment (az_target c)" "hd cs = a"
    using each own by (auto simp: cs)
qed

lemma mapM_lift_ok:
  assumes "mapM (\<lambda>x. liftM (f x)) xs s = (Inr ys, t)"
  shows "length ys = length xs" and "i < length xs \<Longrightarrow> f (xs ! i) = Inr (ys ! i)"
  using mapM_ok [OF assms] by auto

lemma envelopes_cover:
  assumes run: "envelopes g cs q repairing s = (Inr es, t)"
    and valid: "\<forall>c\<in>set cs. target_deployment (az_target c)" and wanted: "0 \<le> cq_max_tokens q"
  shows "covers (gt_authority g) cs es
    (if repairing then {q'. cq_max_tokens q' = cq_max_tokens q} else {q})"
proof -
  let ?au = "gt_authority g"
  let ?bound = "\<lambda>c. cost_bound (az_target c) (eb_max_input_tokens (es_budget (az_stage c))) (cq_max_tokens q)"
  from run obtain plain u where plain: "mapM (\<lambda>c. liftM (preflight ?au c q)) cs s = (Inr plain, u)"
    and rest: "(if repairing then mapM (\<lambda>c. liftM (?bound c)) cs else ret plain) u = (Inr es, t)"
    unfolding envelopes_def bindM_ok_iff by auto
  have count: "0 \<le> input_bound ?au q'" for q'
    by (simp add: input_bound_def)
  have one: "0 \<le> es ! i \<and> (\<forall>q'\<in>(if repairing then {q'. cq_max_tokens q' = cq_max_tokens q} else {q}).
      \<forall>amount. preflight ?au (cs ! i) q' = Inr amount \<longrightarrow> amount \<le> es ! i)"
    if i: "i < length cs" for i
  proof -
    have ok: "preflight ?au (cs ! i) q = Inr (plain ! i)"
      by (rule mapM_lift_ok(2) [OF plain i])
    have t: "target_deployment (az_target (cs ! i))"
      using valid i by simp
    show "0 \<le> es ! i \<and> (\<forall>q'\<in>(if repairing then {q'. cq_max_tokens q' = cq_max_tokens q} else {q}).
      \<forall>amount. preflight ?au (cs ! i) q' = Inr amount \<longrightarrow> amount \<le> es ! i)"
    proof (cases repairing)
      case False
      then show ?thesis
        using rest ok cost_bound_nonneg [OF preflight_ok(1) [OF ok] t count wanted] by simp
    next
      case True
      then have e: "?bound (cs ! i) = Inr (es ! i)"
        using rest mapM_lift_ok(2) [of ?bound cs u es t i] i by simp
      have "0 \<le> eb_max_input_tokens (es_budget (az_stage (cs ! i)))"
        using preflight_ok(3) [OF ok] count [of q] by linarith
      then have "0 \<le> es ! i"
        using cost_bound_nonneg [OF e t _ wanted] by simp
      moreover have "amount \<le> es ! i"
        if "cq_max_tokens q' = cq_max_tokens q" "preflight ?au (cs ! i) q' = Inr amount" for q' amount
        using cost_bound_mono [OF preflight_ok(1) [OF that(2)] _ preflight_ok(3) [OF that(2)] t] e that(1)
        by simp
      ultimately show ?thesis
        using True by simp
    qed
  qed
  have "length es = length cs"
    using rest mapM_lift_ok(1) [OF plain] mapM_lift_ok(1) [of ?bound cs u es t]
    by (cases repairing) simp_all
  then show ?thesis
    using one unfolding covers_def by (fastforce simp: in_set_conv_nth)
qed

text \<open>Either nothing is sent, or the envelopes of the candidates fit the cap and the loop runs.\<close>

lemma infer_cases:
  assumes run: "infer g cx chk a q run s = (r, t)"
  defines "k \<equiv> nat (es_max_repairs (az_stage a))"
  obtains (refused) "gw_sent t = gw_sent s"
  | (loop) cs es u v where "candidates g cx chk a q s = (Inr cs, u)"
    and "envelopes g cs q (k \<noteq> 0) u = (Inr es, v)" and "gw_sent v = gw_sent s"
    and "sum_list es + int k * Max (set es) \<le> eb_max_cost (es_budget (az_stage a))"
    and "infer_loop g cx chk a q run cs (min (nat (eb_max_attempts (es_budget (az_stage a)))) (length cs + k))
      \<lparr> rt_index = 0, rt_last = None, rt_candidate = 0, rt_repairing = False, rt_request = q,
        rt_repairs = k \<rparr> v = (r, t)"
proof -
  obtain r1 s1 where cands: "candidates g cx chk a q s = (r1, s1)" by fastforce
  note same1 = sent_same [OF el_routing(1) cands]
  show thesis
  proof (cases r1)
    case (Inl x)
    then show thesis
      using refused run cands same1 by (simp add: infer_def bindM_run)
  next
    case (Inr cs)
    obtain r2 s2 where env: "envelopes g cs q (k \<noteq> 0) s1 = (r2, s2)" by fastforce
    note same2 = sent_same [OF el_routing(2) env]
    have "(r, t) = (if k \<noteq> 0 \<and> (gt_repair_retain_seconds g = 0 \<or> tools_of q \<noteq> [])
        then (Inl (DomainError UNSUPPORTED 403), s1)
        else case r2 of Inl x \<Rightarrow> (Inl x, s2)
          | Inr es \<Rightarrow> if sum_list es + int k * Max (set es) \<le> eb_max_cost (es_budget (az_stage a))
              then infer_loop g cx chk a q run cs
                (min (nat (eb_max_attempts (es_budget (az_stage a)))) (length cs + k))
                \<lparr> rt_index = 0, rt_last = None, rt_candidate = 0, rt_repairing = False, rt_request = q,
                  rt_repairs = k \<rparr> s2
              else (Inl (RoutedFailure FkBudgetViolation), s2))"
      using run cands Inr env unfolding infer_def k_def [symmetric] Let_def
      by (cases r2; cases "k \<noteq> 0 \<and> (gt_repair_retain_seconds g = 0 \<or> tools_of q \<noteq> [])")
        (auto simp: bindM_run thenM_run guardM_run)
    then show thesis
      using refused loop [OF cands [unfolded Inr]] env same1 same2
      by (auto split: if_splits sum.splits)
  qed
qed

lemma infer_within:
  assumes up: "upstream_ok g" and run: "infer g cx chk a q run s = (r, t)"
    and valid: "registry_valid (gt_authority g)" "target_deployment (az_target a)"
    and wanted: "0 \<le> cq_max_tokens q" and attempts: "0 \<le> eb_max_attempts (es_budget (az_stage a))"
  shows "spent (cx_tenant_id cx) t - spent (cx_tenant_id cx) s
      \<le> max 0 (eb_max_cost (es_budget (az_stage a)))
    \<and> int (length (gw_sent t)) - int (length (gw_sent s)) \<le> eb_max_attempts (es_budget (az_stage a))"
  using run
proof (cases rule: infer_cases)
  case refused
  then show ?thesis
    using attempts by (simp add: spent_def)
next
  case (loop cs es u v)
  let ?k = "nat (es_max_repairs (az_stage a))"
  let ?Q = "if ?k \<noteq> 0 then {q'. cq_max_tokens q' = cq_max_tokens q} else {q}"
  let ?l = "\<lparr> rt_index = 0, rt_last = None, rt_candidate = 0, rt_repairing = False, rt_request = q,
    rt_repairs = ?k \<rparr>"
  note cs = candidates_ok [OF loop(1) valid]
  have cov: "covers (gt_authority g) cs es ?Q"
    by (rule envelopes_cover [OF loop(2) cs(2) wanted])
  have "routing_ok cs ?Q q ?l"
    using cs(1) by (auto simp: routing_ok_def)
  from infer_loop_spent [OF up cov loop(5) this]
  have "spent (cx_tenant_id cx) t \<le> spent (cx_tenant_id cx) v + outstanding es ?l"
    "length (gw_sent t) \<le> length (gw_sent v) + nat (eb_max_attempts (es_budget (az_stage a)))"
    by linarith+
  moreover have "outstanding es ?l = sum_list es + int ?k * Max (set es)"
    using cov cs(1) by (cases es) (auto simp: outstanding_def covers_def)
  ultimately have "spent (cx_tenant_id cx) t - spent (cx_tenant_id cx) s \<le> eb_max_cost (es_budget (az_stage a))"
    and "int (length (gw_sent t)) \<le> int (length (gw_sent s)) + eb_max_attempts (es_budget (az_stage a))"
    using loop(3,4) attempts spent_same [OF loop(3), of "cx_tenant_id cx"] by simp_all
  then show ?thesis
    by linarith
qed

section \<open>What is returned\<close>

lemma on_gw_ok_iff: "on_gw m (s, l) = (Inr x, (t, l')) \<longleftrightarrow> m s = (Inr x, t) \<and> l' = l"
  by (auto simp: on_gw_def split: prod.splits)

lemma set_local_run [simp]: "set_local f (s, l) = (Inr (), (s, f l))"
  by (simp add: set_local_def)

text \<open>What a result must satisfy to be returned for a request.\<close>

definition acceptable :: "gateway \<Rightarrow> authorized \<Rightarrow> chat_request \<Rightarrow> inference_result \<Rightarrow> bool" where
  "acceptable g a q r =
     (cc_model (ir_completion r) = cq_model q \<and> cc_usage (ir_completion r) = ir_usage r
      \<and> validate_completion (gt_reader g) q (ir_completion r) = Inr ()
      \<and> list_all vo_passed (validate_rules (gt_parses g) (cc_content (ir_completion r))
          (es_validation_rules (az_stage a)))
      \<and> (case ir_usage r of None \<Rightarrow> True | Some u \<Rightarrow> us_completion_tokens u \<le> cq_max_tokens q
          \<and> us_prompt_tokens u \<le> eb_max_input_tokens (es_budget (az_stage a))))"

lemma checked_ok:
  assumes "checked g chk a q r (s, l) = (Inr u, (t, l'))"
  shows "acceptable g a q r" and "t = s" and "l' = l\<lparr> lc_attempt := (lc_attempt l)\<lparr> ra_validation :=
    validate_rules (gt_parses g) (cc_content (ir_completion r)) (es_validation_rules (az_stage a)) \<rparr> \<rparr>"
  using assms
  by (auto simp: checked_def acceptable_def Let_def thenM_ok_iff on_gw_ok_iff split: sum.splits)

lemma observe_attempt_records:
  "observe_attempt tenant p a s = (Inr u, t) \<Longrightarrow> db_records (gw_db t) = db_records (gw_db s)"
  by (auto simp: observe_attempt_def bindM_ok_iff on_db_ok_iff observe_run split: option.splits)

lemma find_record_same:
  "db_records t = db_records s \<Longrightarrow> find_record ow k i v t = find_record ow k i v s"
  by (simp add: find_record_def)

lemma finish_ok:
  assumes "finish g cx attempt result c p f s = (Inr fin, t)"
  shows "fin = finished g attempt result c p f (gw_now s)"
    and "pins (ra_trace fin) = pins (ra_trace attempt)"
    and "find_record (cx_tenant_id cx) KAttempt (ra_id fin) 3 (gw_db t) = Some (PlAttempt fin)"
    and "find_record (cx_tenant_id cx) KTrace (dt_request_id (ra_trace fin)) 1 (gw_db t)
      = Some (PlTrace (ra_trace fin))"
proof -
  from assms obtain s1 d2 d3 v s4 where fin: "fin = finished g attempt result c p f (gw_now s)"
    and "pins (ra_trace fin) = pins (ra_trace attempt)"
    and trace: "save_trace (cx_tenant_id cx) (ra_trace fin) s1 = (Inr (), d2)"
    and saved: "save_attempt (cx_tenant_id cx) fin 3 d2 = (Inr (), d3)"
    and obs: "observe_attempt (cx_tenant_id cx) v fin s4 = (Inr (), t)" and "gw_db s4 = d3"
    unfolding finish_def Let_def
    by (fastforce simp: bindM_ok_iff thenM_ok_iff on_db_ok_iff query_ok_iff split: if_splits)
  then show "fin = finished g attempt result c p f (gw_now s)"
    and "pins (ra_trace fin) = pins (ra_trace attempt)"
    and "find_record (cx_tenant_id cx) KAttempt (ra_id fin) 3 (gw_db t) = Some (PlAttempt fin)"
    using save_attempt_ok(1) [OF saved] find_record_same [OF observe_attempt_records [OF obs]] by simp_all
  have "find_record (cx_tenant_id cx) KTrace (dt_request_id (ra_trace fin)) 1 d2
      = Some (PlTrace (ra_trace fin))"
    using trace log.app_new [of "(cx_tenant_id cx, KTrace, dt_request_id (ra_trace fin), 1)"]
    by (auto simp: save_trace_def thenM_ok_iff append_record_at record_at_def)
  then have "find_record (cx_tenant_id cx) KTrace (dt_request_id (ra_trace fin)) 1 d3
      = Some (PlTrace (ra_trace fin))"
    using saved log.app_keeps
    by (auto simp: save_attempt_def thenM_ok_iff append_record_at find_record_at) (metis snd_conv)
  then show "find_record (cx_tenant_id cx) KTrace (dt_request_id (ra_trace fin)) 1 (gw_db t)
      = Some (PlTrace (ra_trace fin))"
    using find_record_same [OF observe_attempt_records [OF obs]] \<open>gw_db s4 = d3\<close> by simp
qed

text \<open>An attempt that ended well: its result is acceptable, it is within its reservation, and
  it is on record with the pins it started from.\<close>

definition well_ended :: "gateway \<Rightarrow> string \<Rightarrow> authorized \<Rightarrow> chat_request \<Rightarrow> inference_result \<Rightarrow> run_attempt
    \<Rightarrow> db \<Rightarrow> bool" where
  "well_ended g tenant a q r attempt d =
     (acceptable g a q r \<and> ra_error attempt = None
      \<and> ra_status attempt = (if ir_actual_micro_usd r = None then AtUncertain else AtSucceeded)
      \<and> ur_actual_micro_usd (ra_usage attempt) = ir_actual_micro_usd r
      \<and> (\<forall>x. ir_actual_micro_usd r = Some x \<longrightarrow> x \<le> ur_reserved_micro_usd (ra_usage attempt))
      \<and> pins (ra_trace attempt) = pins ((az_trace a)\<lparr> dt_request_id := ra_id attempt \<rparr>)
      \<and> find_record tenant KAttempt (ra_id attempt) 3 d = Some (PlAttempt attempt))"

lemma finished_fields:
  "ra_id (finished g att result c p f now) = ra_id att"
  "ra_trace (finished g att result c p f now) = (case result of None \<Rightarrow> ra_trace att | Some r \<Rightarrow> ir_trace r)"
  "ur_reserved_micro_usd (ra_usage (finished g att result c p f now)) = ur_reserved_micro_usd (ra_usage att)"
  by (simp_all add: finished_def Let_def)

lemma settle_ok:
  assumes run: "settle_answer g cx chk a q started upstream r (s, l) = (Inr (r', fin), (t, l'))"
    and pinned: "pins (ra_trace (lc_attempt l)) = pins ((az_trace a)\<lparr> dt_request_id := ra_id (lc_attempt l) \<rparr>)"
  shows "r' = r \<and> well_ended g (cx_tenant_id cx) a q r fin (gw_db t)"
proof -
  from run obtain s2 l1 l2 where
      ok: "checked g chk a q r (s, l1) = (Inr (), (s2, l2))"
    and l1: "l1 = l\<lparr> lc_result := Some r, lc_attempt := timed g started upstream (gw_now s) (lc_attempt l) \<rparr>"
    and fin: "finish g cx (lc_attempt l2) (Some r) False False False s2 = (Inr fin, t)"
    and none: "ra_error fin = None" and r': "r' = r"
    unfolding settle_answer_def by (auto simp: bindM_ok_iff thenM_ok_iff on_gw_ok_iff)
  note checked = checked_ok [OF ok] and f = finish_ok [OF fin]
  let ?att = "lc_attempt l2"
  have att: "ra_id ?att = ra_id (lc_attempt l)" "ra_trace ?att = ra_trace (lc_attempt l)"
    by (simp_all add: checked(3) l1 timed_def)
  have over: "\<not> overage ?att (Some r)"
    using none by (auto simp: f(1) finished_def Let_def split: if_splits)
  then have "ra_status fin = (if ir_actual_micro_usd r = None then AtUncertain else AtSucceeded)"
    "ur_actual_micro_usd (ra_usage fin) = ir_actual_micro_usd r"
    by (simp_all add: f(1) finished_def Let_def)
  moreover have "x \<le> ur_reserved_micro_usd (ra_usage fin)" if "ir_actual_micro_usd r = Some x" for x
    using over that by (simp add: overage_def f(1) finished_fields)
  moreover have "pins (ra_trace fin) = pins ((az_trace a)\<lparr> dt_request_id := ra_id fin \<rparr>)"
    using f(2) pinned att by (simp add: f(1) finished_fields)
  ultimately show ?thesis
    using checked(1) f(3) none r' by (simp add: well_ended_def)
qed

lemma attempt_failed_raises: "attempt_failed g cx a run started x p \<noteq> (Inr y, t)"
  by (auto simp: attempt_failed_def thenM_ok_iff bindM_ok_iff split: prod.splits)

lemma infer_once_ok:
  assumes run: "infer_once g cx0 chk0 a q run n reason repairing s = (Inr (r, fin), t)"
  shows "well_ended g (cx_tenant_id cx0) a q r fin (gw_db t)"
proof -
  let ?dl = "stage_deadline cx0 a (gw_now s)"
  let ?cx = "attempt_context cx0 a (gw_now s)" and ?chk = "before ?dl chk0"
  from run obtain s1 call attempt s2 rest where
      started: "start g ?cx ?chk a q run n s1 = (Inr (call, attempt), s2)"
    and rest: "with_locals \<lparr> lc_result = None, lc_attempt = attempt\<lparr> ra_fallback_reason := reason,
          ra_recovery_action := (if repairing then Some RvRepair
            else if reason \<noteq> None then Some RvFallback else None) \<rparr>, lc_upstream = None \<rparr>
        (catchM (attempt_body g ?cx ?chk a q (gw_now s) call)
          (\<lambda>x. if x = GeneratorExit then throw x else attempt_failed g ?cx a run (gw_now s) x)) s2
        = (Inr (r, fin), t)"
    unfolding infer_once_def attempt_context_def Let_def by (auto simp: bindM_ok_iff thenM_ok_iff)
  let ?attempt = "attempt\<lparr> ra_fallback_reason := reason, ra_recovery_action :=
      (if repairing then Some RvRepair else if reason \<noteq> None then Some RvFallback else None) \<rparr>"
  obtain amount where attempt: "attempt = new_attempt ?cx a run n amount (gw_now s1)"
    using start_ok [OF started] by metis
  obtain l' where "catchM (attempt_body g ?cx ?chk a q (gw_now s) call)
      (\<lambda>x. if x = GeneratorExit then throw x else attempt_failed g ?cx a run (gw_now s) x)
      (s2, \<lparr> lc_result = None, lc_attempt = ?attempt, lc_upstream = None \<rparr>) = (Inr (r, fin), (t, l'))"
    using rest by (auto simp: with_locals_def split: prod.splits)
  then have body: "attempt_body g ?cx ?chk a q (gw_now s) call
      (s2, \<lparr> lc_result = None, lc_attempt = ?attempt, lc_upstream = None \<rparr>) = (Inr (r, fin), (t, l'))"
    using attempt_failed_raises by (auto simp: catchM_def split: prod.splits sum.splits if_splits)
  from body obtain upstream res w l1 where
      settle: "settle_answer g ?cx ?chk a q (gw_now s) upstream res (w, l1) = (Inr (r, fin), (t, l'))"
    and l1: "lc_attempt l1 = ?attempt"
    unfolding attempt_body_def by (fastforce simp: bindM_ok_iff thenM_ok_iff on_gw_ok_iff)
  have "pins (ra_trace (lc_attempt l1)) = pins ((az_trace a)\<lparr> dt_request_id := ra_id (lc_attempt l1) \<rparr>)"
    by (simp add: l1 attempt new_attempt_def attempt_context_def)
  from settle_ok [OF settle this] show ?thesis
    by (simp add: attempt_context_def)
qed

lemma validate_completion_messages:
  "validate_completion reader (q\<lparr> cq_messages := ms \<rparr>) r = validate_completion reader q r"
proof -
  have fields: "named_choice (q\<lparr> cq_messages := ms \<rparr>) = named_choice q"
    "tool_schema (q\<lparr> cq_messages := ms \<rparr>) n = tool_schema q n" for n
    by (simp_all add: named_choice_def tool_schema_def tools_of_def)
  have "validate_call reader (q\<lparr> cq_messages := ms \<rparr>) = validate_call reader q"
    by (intro ext) (simp add: validate_call_def fields cong: option.case_cong)
  then have "validate_calls reader (q\<lparr> cq_messages := ms \<rparr>) cs = validate_calls reader q cs" for cs
    by (induction cs) simp_all
  then show ?thesis
    by (simp add: validate_completion_def fields)
qed

lemma acceptable_messages: "acceptable g a (q\<lparr> cq_messages := ms \<rparr>) r = acceptable g a q r"
  unfolding acceptable_def validate_completion_messages by (simp cong: option.case_cong)

lemma infer_loop_ok:
  assumes "infer_loop g cx chk a q run cs k l s = (Inr (r, fin), t)"
    and "routing_ok cs {q'. \<exists>ms. q' = q\<lparr> cq_messages := ms \<rparr>} q l"
  shows "\<exists>c\<in>set cs. well_ended g (cx_tenant_id cx) c q r fin (gw_db t)"
  using assms
proof (induction k arbitrary: l s)
  case 0
  then show ?case by simp
next
  case (Suc k)
  let ?child = "child_context g cx (rt_index l)" and ?Q = "{q'. \<exists>ms. q' = q\<lparr> cq_messages := ms \<rparr>}"
  obtain r1 s1 where once: "infer_once g ?child chk (cs ! rt_candidate l) (rt_request l) run
      (int (rt_index l) + 1) (map_option failure_kind_of (rt_last l)) (rt_repairing l) s = (r1, s1)"
    by fastforce
  show ?case
  proof (cases r1)
    case (Inr y)
    then have y: "y = (r, fin)" "s1 = t"
      using Suc.prems(1) once by (auto simp: except_domain_def catchM_def)
    obtain ms where "rt_request l = q\<lparr> cq_messages := ms \<rparr>" and "rt_candidate l < length cs"
      using Suc.prems(2) by (auto simp: routing_ok_def)
    moreover have "well_ended g (cx_tenant_id cx) (cs ! rt_candidate l) (rt_request l) r fin (gw_db t)"
      using infer_once_ok [OF once [unfolded Inr y]] by (simp add: child_context_def split: if_splits)
    ultimately show ?thesis
      using nth_mem by (auto simp: well_ended_def acceptable_messages)
  next
    case (Inl x)
    then obtain l' s2 where route: "next_route g cx chk a q cs x l s1 = (Inr l', s2)"
      and rest: "infer_loop g cx chk a q run cs k l' s2 = (Inr (r, fin), t)"
      using Suc.prems(1) once
      by (auto simp: except_domain_def catchM_def bindM_ok_iff split: if_splits)
    show ?thesis
      by (rule Suc.IH [OF rest next_route_ok(1) [OF route Suc.prems(2), of "map (\<lambda>_. 0) cs"]]) simp
  qed
qed

lemma infer_ok:
  assumes run: "infer g cx chk a q run s = (Inr (r, fin), t)"
  shows "\<exists>cs u. candidates g cx chk a q s = (Inr cs, u)
    \<and> (\<exists>c\<in>set cs. well_ended g (cx_tenant_id cx) c q r fin (gw_db t))"
proof -
  from run obtain cs u k n s1 where cands: "candidates g cx chk a q s = (Inr cs, u)"
    and loop: "infer_loop g cx chk a q run cs n \<lparr> rt_index = 0, rt_last = None, rt_candidate = 0,
      rt_repairing = False, rt_request = q, rt_repairs = k \<rparr> s1 = (Inr (r, fin), t)"
    unfolding infer_def Let_def by (auto simp: bindM_ok_iff thenM_ok_iff)
  have "cs \<noteq> []"
    using cands by (auto simp: candidates_def bindM_ok_iff thenM_ok_iff)
  then have "routing_ok cs {q'. \<exists>ms. q' = q\<lparr> cq_messages := ms \<rparr>} q \<lparr> rt_index = 0, rt_last = None,
      rt_candidate = 0, rt_repairing = False, rt_request = q, rt_repairs = k \<rparr>"
    by (auto simp: routing_ok_def intro: exI [of _ "cq_messages q"])
  from infer_loop_ok [OF loop this] cands show ?thesis
    by blast
qed

section \<open>An example\<close>

text \<open>The gateway of the examples answers, directly and under an application key.\<close>

lemma ex_once_sends:
  "gw_sent (snd (infer_once ex_server ex_context cancellation (ex_authorized ''a'') ex_question ''req'' 1
     None False ex_gateway)) \<noteq> gw_sent ex_gateway"
  by code_simp

lemma ex_infers:
  "is_ok (fst (infer ex_server ex_context cancellation (ex_authorized ''a'') ex_question ''req'' ex_gateway))"
  by code_simp

lemma ex_registry: "registry_valid (gt_authority ex_server)" "target_deployment (ex_target ''a'')"
  by (simp_all add: registry_valid_def ex_server_def ex_authority_def target_deployment_def ex_target_def
      ex_endpoint_def ex_candidate_def finite_price_def)

section \<open>Properties\<close>

text \<open>
  C3. An attempt dispatches at most once, and only its own call, and at that moment the
  amount preflight computed for it is reserved in the tenant's budget, the attempt is on
  record as dispatched with that amount, and the authority had just authorised the same
  target and credential again, on the very database to which only this record was then
  added.
\<close>

theorem dispatch_backed:
  assumes "upstream_ok g" and "infer_once g cx chk a q run n reason repairing s = (r, t)"
  shows "gw_sent t = gw_sent s \<or> (\<exists>d. gw_sent t = (call_of cx a q, d) # gw_sent s
    \<and> backed g (attempt_context cx a (gw_now s)) (before (stage_deadline cx a (gw_now s)) chk) a q d)"
  by (rule infer_once_sent [OF assms])

theorem dispatch_backed_witness:
  "\<exists>d. backed ex_server (attempt_context ex_context (ex_authorized ''a'') 10)
      (before (stage_deadline ex_context (ex_authorized ''a'') 10) cancellation) (ex_authorized ''a'') ex_question d"
  using dispatch_backed [OF ex_upstream prod.collapse [symmetric], of ex_context cancellation
      "ex_authorized ''a''" ex_question "''req''" 1 None False ex_gateway] ex_once_sends
  by (auto simp: ex_gateway_def)



text \<open>
  C5. What an inference returns answers the request: the model asked for, valid against the
  request's tools and format, within its token limits and passing every validation rule
  of the stage; it was charged no more than reserved; and its attempt is on record, ended
  well and with the pins of one of the authorised candidates.
\<close>

theorem inferred_answer_acceptable:
  assumes "infer g cx chk a q run s = (Inr (r, attempt), t)"
  shows "\<exists>cs u. candidates g cx chk a q s = (Inr cs, u)
    \<and> (\<exists>c\<in>set cs. well_ended g (cx_tenant_id cx) c q r attempt (gw_db t))"
  by (rule infer_ok [OF assms])

theorem inferred_answer_acceptable_witness:
  "\<exists>r attempt d c. well_ended ex_server ''o'' c ex_question r attempt d"
proof -
  obtain r attempt t where "infer ex_server ex_context cancellation (ex_authorized ''a'') ex_question ''req''
      ex_gateway = (Inr (r, attempt), t)"
    using ex_infers unfolding is_ok_iff by (metis prod.collapse)
  from inferred_answer_acceptable [OF this] show ?thesis
    by (auto simp: ex_context_def)
qed

end
