(* ===== verification/Gateway_Service.thy ===== *)
theory Gateway_Service
  imports Gateway_Examples
begin

text \<open>
  The service as a whole: a request's idempotency key is registered before anything is sent,
  so that no two requests under one key are both dispatched; and serving a request is a
  sequence of operations of the storage.
\<close>

section \<open>Registration\<close>

definition key_bound :: "string \<Rightarrow> string \<Rightarrow> db \<Rightarrow> bool" where
  "key_bound tenant key d = (\<exists>r\<in>set (db_requests d). request_key r = (tenant, key))"

lemma key_bound_later:
  assumes "flow_sound d" and "key_bound tenant key d" and "(db_step e)\<^sup>*\<^sup>* d d'"
  shows "key_bound tenant key d'"
proof -
  obtain r where "r \<in> set (db_requests d)" "request_key r = (tenant, key)"
    using assms(2) by (auto simp: key_bound_def)
  then obtain r' where "find_request tenant key d' = Some r'"
    using find_request_le [OF assms(1) steps_flow [OF assms(3)]] by metis
  then show ?thesis
    using find_request_row unfolding key_bound_def by blast
qed

lemma key_bound_refuses:
  assumes "key_bound tenant key d" and "register_request tenant key i h d = (Inr (j, created), d')"
  shows "\<not> created"
proof -
  have "find_request tenant key d \<noteq> None"
    using assms(1) unfolding find_request_def scalar_None key_bound_def by blast
  then obtain r where r: "find_request tenant key d = Some r"
    by blast
  have "is_idempotency_key key" "is_hex 64 h"
    using register_ok_found [OF assms(2)] by simp_all
  from register_found [OF r this, of i] show ?thesis
    using assms(2) by (simp split: if_split_asm)
qed

lemma prepare_ok:
  assumes run: "prepare g cx chk q s = (Inr (cx1, a, out, created), s1)"
  obtains u :: gw and h where "(db_step e)\<^sup>*\<^sup>* (gw_db s) (gw_db u)" and "gw_sent s1 = gw_sent s"
    and "register_request (cx_tenant_id cx) (cx_idempotency_key cx) (cx_request_id cx) h (gw_db u)
      = (Inr (cx_request_id cx1, created), gw_db s1)"
    and "cx_tenant_id cx1 = cx_tenant_id cx"
proof -
  from run obtain al u d where front: "admit_request g cx chk q s = (Inr (al, a, out), u)"
    and reg: "register_request (cx_tenant_id cx) (cx_idempotency_key cx) (cx_request_id cx)
      (gt_fingerprint g (cx_principal_id cx) al (az_policy a) q) (gw_db u)
      = (Inr (cx_request_id cx1, created), d)"
    and tail: "gw_db s1 = d" "cx_tenant_id cx1 = cx_tenant_id cx"
    unfolding prepare_def by (auto simp: bindM_ok_iff on_db_ok_iff)
  have steps: "(db_step e)\<^sup>*\<^sup>* (gw_db s) (gw_db u)"
    using relatesD [OF el_admit front, of e] by (simp add: elsewhere_def)
  show thesis
    by (rule that [OF steps sent_same [OF el_serving(2) run]]) (use reg tail in simp_all)
qed

text \<open>A request whose key is bound sends nothing.\<close>

lemma bound_sends_nothing:
  assumes reach: "flow_sound (gw_db s)"
    and bound: "key_bound (cx_tenant_id cx) (cx_idempotency_key cx) (gw_db s)"
  shows "gw_sent (snd (complete_chat g cx chk q s)) = gw_sent s"
    and "gw_sent (snd (stream_chat g cx chk q s)) = gw_sent s"
proof -
  let ?e = "au_env (gt_authority g)"
  obtain r1 s1 where prep: "prepare g cx chk q s = (r1, s1)" by fastforce
  have same: "gw_sent s1 = gw_sent s"
    by (rule sent_same [OF el_serving(2) prep])
  have old: "\<not> created" if ok: "r1 = Inr (cx1, a, out, created)" for cx1 a out created
  proof (rule prepare_ok [OF prep [unfolded ok]])
    fix u :: gw and h assume steps: "(db_step ?e)\<^sup>*\<^sup>* (gw_db s) (gw_db u)"
      and reg: "register_request (cx_tenant_id cx) (cx_idempotency_key cx) (cx_request_id cx) h (gw_db u)
        = (Inr (cx_request_id cx1, created), gw_db s1)"
    show ?thesis
      by (rule key_bound_refuses [OF key_bound_later [OF reach bound steps] reg])
  qed
  have replay: "gw_sent (snd (replay_completion g cx' s1)) = gw_sent s1" for cx'
    using sent_same [OF el_serving(6)] by (metis surjective_pairing)
  show "gw_sent (snd (complete_chat g cx chk q s)) = gw_sent s"
    using prep same old replay by (cases r1) (auto simp: complete_chat_def bindM_run)
  show "gw_sent (snd (stream_chat g cx chk q s)) = gw_sent s"
    using prep same old
    by (cases r1) (auto simp: stream_chat_def bindM_run thenM_run guardM_run)
qed

text \<open>Either operation, and the database it leaves.\<close>

fun served :: "gateway \<Rightarrow> bool \<Rightarrow> request_context \<Rightarrow> callback \<Rightarrow> chat_request \<Rightarrow> gw \<Rightarrow> gw" where
  "served g False cx chk q s = snd (complete_chat g cx chk q s)"
| "served g True cx chk q s = snd (stream_chat g cx chk q s)"

lemma served_advances: "upstream_ok g \<Longrightarrow> advances (au_env (gt_authority g)) s (served g b cx chk q s)"
  by (cases b) (simp_all add: rel_snd [OF adv_complete] rel_snd [OF adv_stream])

lemma served_bound:
  assumes "flow_sound (gw_db s)" and "key_bound (cx_tenant_id cx) (cx_idempotency_key cx) (gw_db s)"
  shows "gw_sent (served g b cx chk q s) = gw_sent s"
  by (cases b) (simp_all add: bound_sends_nothing [OF assms])

text \<open>What was sent, was sent under a bound key.\<close>

lemma rest_advances:
  assumes "upstream_ok g"
  shows "advances (au_env (gt_authority g)) s (snd (complete_new g cx chk a q s))"
    and "advances (au_env (gt_authority g)) s (snd (thenM (advance cx RsQueued RsRunning)
      (bindM (candidates g cx chk a out) (\<lambda>cs. stream_loop g cx chk a q out cs 0 cs)) s))"
proof -
  show "advances (au_env (gt_authority g)) s (snd (complete_new g cx chk a q s))"
    by (rule rel_snd) (rule adv_new [OF assms])
  show "advances (au_env (gt_authority g)) s (snd (thenM (advance cx RsQueued RsRunning)
      (bindM (candidates g cx chk a out) (\<lambda>cs. stream_loop g cx chk a q out cs 0 cs)) s))"
    by (rule rel_snd) (intro adv.rel_rules adv_loop [OF assms] el_ad [OF el_serving(4)] el_ad [OF el_routing(1)])
qed

lemma sent_binds:
  assumes up: "upstream_ok g" and sound: "flow_sound (gw_db s)"
    and sent: "gw_sent (served g b cx chk q s) \<noteq> gw_sent s"
  shows "key_bound (cx_tenant_id cx) (cx_idempotency_key cx) (gw_db (served g b cx chk q s))"
proof -
  let ?e = "au_env (gt_authority g)"
  obtain r1 s1 where prep: "prepare g cx chk q s = (r1, s1)" by fastforce
  have same: "gw_sent s1 = gw_sent s"
    by (rule sent_same [OF el_serving(2) prep])
  have replay: "gw_sent (snd (replay_completion g cx' s1)) = gw_sent s1" for cx'
    using sent_same [OF el_serving(6)] by (metis surjective_pairing)
  have "\<exists>cx1 a out. r1 = Inr (cx1, a, out, True) \<and> advances ?e s1 (served g b cx chk q s)"
    using sent prep same replay rest_advances [OF up]
    by (cases b; cases r1) (auto simp: complete_chat_def stream_chat_def bindM_run thenM_run guardM_run
        split: if_splits)
  then obtain cx1 a out where ok: "r1 = Inr (cx1, a, out, True)"
    and later: "(db_step ?e)\<^sup>*\<^sup>* (gw_db s1) (gw_db (served g b cx chk q s))"
    by (auto simp: advances_def)
  show ?thesis
  proof (rule prepare_ok [OF prep [unfolded ok]])
    fix u :: gw and h
    assume steps: "(db_step ?e)\<^sup>*\<^sup>* (gw_db s) (gw_db u)"
      and reg: "register_request (cx_tenant_id cx) (cx_idempotency_key cx) (cx_request_id cx) h (gw_db u)
        = (Inr (cx_request_id cx1, True), gw_db s1)"
    have "key_bound (cx_tenant_id cx) (cx_idempotency_key cx) (gw_db s1)"
      using register_ok_found [OF reg] by (auto simp: key_bound_def)
    moreover have "(db_step ?e)\<^sup>*\<^sup>* (gw_db s) (gw_db s1)"
      using relatesD [OF el_serving(2) prep, of ?e] by (simp add: elsewhere_def)
    then have "flow_sound (gw_db s1)"
      using sound steps_flow by (auto simp: flow_le_def)
    ultimately show ?thesis
      using later key_bound_later by blast
  qed
qed

section \<open>An example\<close>

lemma ex_completes:
  "gw_sent (snd (complete_chat ex_server ex_chat_context cancellation ex_question ex_keyed))
     \<noteq> gw_sent ex_keyed"
  by code_simp

lemma ex_keyed_sound: "flow_sound (gw_db ex_keyed)"
  by (simp add: flow_sound_def ex_keyed_def ex_gateway_db_def empty_db_def)

section \<open>Properties\<close>





end
