(* ===== verification/Stream_Safety.thy ===== *)
theory Stream_Safety
  imports Gateway_Examples
begin

text \<open>
  A stream never replays and never changes the model once content has reached the client.
  The log of the wire is read latest first: nothing is sent after content was delivered.
\<close>

section \<open>Content in the log\<close>

definition content_in :: "wire \<Rightarrow> bool" where
  "content_in w = (case w of Sent _ _ \<Rightarrow> False | Delivered x \<Rightarrow> (case x of Inl _ \<Rightarrow> False
     | Inr k \<Rightarrow> (case ck_choice k of None \<Rightarrow> False | Some h \<Rightarrow> exposes h)))"

definition delivered :: "wire \<Rightarrow> bool" where
  "delivered w = (case w of Sent _ _ \<Rightarrow> False | Delivered _ \<Rightarrow> True)"

fun no_replay :: "wire list \<Rightarrow> bool" where
  "no_replay [] = True"
| "no_replay (w # ws) = ((delivered w \<or> \<not> list_ex content_in ws) \<and> no_replay ws)"

lemma no_replay_append:
  "no_replay ws \<Longrightarrow> no_replay vs \<Longrightarrow> list_all delivered ws \<or> \<not> list_ex content_in vs \<Longrightarrow>
   no_replay (ws @ vs)"
  by (induction ws) auto

lemma no_replay_delivered: "list_all delivered ws \<Longrightarrow> no_replay ws"
  by (induction ws) auto

section \<open>What a candidate's stream tells\<close>

text \<open>Only deliveries are logged, and content only once \<open>exposed\<close> is set, which stays set.\<close>

definition tells :: "gw \<times> streaming \<Rightarrow> gw \<times> streaming \<Rightarrow> bool" where
  "tells p q = (\<exists>new. gw_log (fst q) = new @ gw_log (fst p) \<and> list_all delivered new
     \<and> (sl_exposed (snd p) \<longrightarrow> sl_exposed (snd q)) \<and> (list_ex content_in new \<longrightarrow> sl_exposed (snd q)))"

interpretation tl: effect_order tells
proof
  show "tells p p" for p
    by (auto simp: tells_def)
  show "tells p r" if pq: "tells p q" and qr: "tells q r" for p q r
  proof -
    obtain new1 where 1: "gw_log (fst q) = new1 @ gw_log (fst p)" "list_all delivered new1"
        "sl_exposed (snd p) \<longrightarrow> sl_exposed (snd q)" "list_ex content_in new1 \<longrightarrow> sl_exposed (snd q)"
      using pq unfolding tells_def by blast
    obtain new2 where 2: "gw_log (fst r) = new2 @ gw_log (fst q)" "list_all delivered new2"
        "sl_exposed (snd q) \<longrightarrow> sl_exposed (snd r)" "list_ex content_in new2 \<longrightarrow> sl_exposed (snd r)"
      using qr unfolding tells_def by blast
    show ?thesis
      unfolding tells_def by (rule exI [of _ "new2 @ new1"]) (use 1 2 in auto)
  qed
qed

lemma tells_same: "gw_log (fst q) = gw_log (fst p) \<Longrightarrow> sl_exposed (snd p) \<longrightarrow> sl_exposed (snd q) \<Longrightarrow> tells p q"
  unfolding tells_def by (rule exI [of _ "[]"]) simp

lemma tells_el: "relates (elsewhere e) m \<Longrightarrow> relates tells (on_gw m)"
  unfolding relates_def
  by (auto simp: on_gw_def elsewhere_def split: prod.splits intro!: tells_same) (metis snd_conv)

lemma tells_local: "(\<And>l. sl_exposed l \<longrightarrow> sl_exposed (f l)) \<Longrightarrow> relates tells (set_local f)"
  by (auto simp: relates_def set_local_def intro!: tells_same)

lemma deliver_log: "upstream_ok g \<Longrightarrow> gw_log (snd (gt_deliver g x s)) = gw_log s"
  using rel_snd [of "elsewhere (au_env (gt_authority g))" "gt_deliver g x" s]
  by (simp add: upstream_ok_def Let_def elsewhere_def)

lemma emit_log: "upstream_ok g \<Longrightarrow> gw_log (snd (emit g x s)) = Delivered x # gw_log s"
  by (simp add: emit_def thenM_run deliver_log)

lemma tells_emit:
  assumes "upstream_ok g" and "\<not> content_in (Delivered x)"
  shows "relates tells (on_gw (emit g x))"
proof (rule relatesI)
  fix p :: "gw \<times> streaming"
  obtain s l where p: "p = (s, l)" by fastforce
  show "tells p (snd (on_gw (emit g x) p))"
    unfolding tells_def p
    by (rule exI [of _ "[Delivered x]"])
      (use emit_log [OF assms(1), of x s] assms(2) in \<open>simp add: on_gw_def delivered_def case_prod_beta\<close>)
qed

lemma tells_exposing:
  assumes "upstream_ok g"
  shows "relates tells (thenM (set_local (\<lambda>l. l\<lparr> sl_exposed := True \<rparr>)) (on_gw (emit g x)))"
proof (rule relatesI)
  fix p :: "gw \<times> streaming"
  obtain s l where p: "p = (s, l)" by fastforce
  show "tells p (snd (thenM (set_local (\<lambda>l. l\<lparr> sl_exposed := True \<rparr>)) (on_gw (emit g x)) p))"
    unfolding tells_def p
    by (rule exI [of _ "[Delivered x]"])
      (use emit_log [OF assms, of x s] in
        \<open>simp add: thenM_run set_local_def on_gw_def delivered_def case_prod_beta\<close>)
qed

lemma tells_event:
  assumes "upstream_ok g"
  shows "relates tells (accept_event g q item)"
  unfolding accept_event_def
  by (cases item; simp; intro tl.rel_rules tells_exposing [OF assms] tells_local; simp)

lemma tells_consume:
  assumes up: "upstream_ok g"
  shows "\<forall>step\<in>set steps. relates (elsewhere (au_env (gt_authority g))) step \<Longrightarrow>
    relates tells (consume g cx chk q r steps)"
proof (induction steps)
  case Nil
  show ?case
    unfolding consume.simps by (rule tl.rel_ret)
next
  case (Cons step steps)
  then have "relates tells (on_gw step :: (gw \<times> streaming, stream_item) op)"
    and "relates tells (consume g cx chk q r steps)"
    by (auto intro: tells_el)
  then show ?case
    unfolding consume.simps by (intro tl.rel_rules tells_event [OF up] tells_el [OF el_guard_event])
qed

lemma tells_conclude:
  assumes up: "upstream_ok g"
  shows "relates tells (conclude g cx child a q out call attempt)"
  unfolding conclude_def Let_def
  by (intro tl.rel_rules tells_emit [OF up] el_attempt(2) [THEN tells_el] el_retain [THEN tells_el]
      el_serving(4) [THEN tells_el])
    (simp add: content_in_def exposes_def delta_parts_def)

text \<open>Before the stream is opened, and while a failed attempt is closed, nothing is said.\<close>

definition quiet :: "gw \<times> streaming \<Rightarrow> gw \<times> streaming \<Rightarrow> bool" where
  "quiet p q = (gw_log (fst q) = gw_log (fst p) \<and> sl_exposed (snd q) = sl_exposed (snd p))"

interpretation qt: effect_order quiet
  by unfold_locales (auto simp: quiet_def)

lemma quiet_el: "relates (elsewhere e) m \<Longrightarrow> relates quiet (on_gw m)"
  unfolding relates_def quiet_def on_gw_def by (simp add: elsewhere_def case_prod_beta)

lemma quiet_local: "(\<And>l. sl_exposed (f l) = sl_exposed l) \<Longrightarrow> relates quiet (set_local f)"
  by (auto simp: relates_def set_local_def quiet_def)

lemma quiet_parts:
  "relates quiet (stream_ready g cx chk q out index c)" "relates quiet (close_attempt g child x)"
proof -
  have save: "relates (elsewhere e) (on_db (save_attempt t a v))" for e t a v
    by (rule el_db [OF db_saves(1)])
  show "relates quiet (stream_ready g cx chk q out index c)"
    unfolding stream_ready_def Let_def
    by (intro qt.rel_rules quiet_local quiet_el [OF el_serving(1)] quiet_el [OF el_attempt(3)]
        quiet_el [OF el_attempt(1)] quiet_el [OF el_stage] quiet_el [OF save]
        quiet_el [OF el.rel_bind [OF el_serving(1) el.rel_ret]]) simp
  show "relates quiet (close_attempt g child x)"
    unfolding close_attempt_def
    by (intro qt.rel_rules quiet_el [OF el_except] el.rel_rules el_exec_query el_attempt(2))
qed

section \<open>The loop over the candidates\<close>

lemma body_log:
  assumes up: "upstream_ok g" and run: "stream_body g cx chk a q out index c (s, l) = (r, (t, l'))"
  shows "\<exists>new. gw_log t = new @ gw_log s \<and> no_replay new
    \<and> (list_ex content_in new \<longrightarrow> sl_exposed l')"
proof -
  let ?child = "child_context g cx index"
  obtain r1 s1 l1 where ready: "stream_ready g cx chk q out index c (s, l) = (r1, (s1, l1))"
    by (metis surj_pair)
  have quiet: "gw_log s1 = gw_log s" "sl_exposed l1 = sl_exposed l"
    using relatesD [OF quiet_parts(1) ready] by (simp_all add: quiet_def)
  show ?thesis
  proof (cases r1)
    case (Inl x)
    then show ?thesis
      using run ready quiet
      by (intro exI [of _ "[]"]) (simp add: stream_body_def bindM_run Let_def)
  next
    case (Inr v)
    obtain call attempt deadline where v: "v = (call, attempt, deadline)"
      by (cases v)
    let ?s2 = "s1\<lparr> gw_log := Sent call (gw_db s1) # gw_log s1 \<rparr>"
    let ?steps = "gt_stream g ?child chk call deadline"
    have rest: "thenM (consume g cx chk q (dt_policy (ic_trace call)) ?steps)
        (conclude g cx ?child a q out call attempt) (?s2, l1) = (r, (t, l'))"
      using run ready Inr v
      by (simp add: stream_body_def bindM_run thenM_run open_stream_def send_def on_gw_def Let_def)
    have "\<forall>step\<in>set ?steps. relates (elsewhere (au_env (gt_authority g))) step"
      using up by (simp add: upstream_ok_def Let_def)
    then have "relates tells (thenM (consume g cx chk q (dt_policy (ic_trace call)) ?steps)
        (conclude g cx ?child a q out call attempt))"
      by (intro tl.rel_then tells_consume [OF up] tells_conclude [OF up])
    from relatesD [OF this rest] obtain told where "gw_log t = told @ Sent call (gw_db s1) # gw_log s1"
      and told: "list_all delivered told" "list_ex content_in told \<longrightarrow> sl_exposed l'"
      by (auto simp: tells_def)
    then have "gw_log t = (told @ [Sent call (gw_db s1)]) @ gw_log s"
      using quiet by simp
    moreover have "no_replay (told @ [Sent call (gw_db s1)])"
      by (rule no_replay_append [OF no_replay_delivered]) (use told in simp_all)
    moreover have "list_ex content_in (told @ [Sent call (gw_db s1)]) \<longrightarrow> sl_exposed l'"
      using told by (simp add: content_in_def)
    ultimately show ?thesis
      by blast
  qed
qed

text \<open>A candidate whose attempt failed is followed by another only if it exposed nothing.\<close>

lemma failed_log:
  assumes up: "upstream_ok g" and run: "stream_failed g cx chk cs index c x (s, l) = (r, (t, l'))"
  shows "\<exists>new. gw_log t = new @ gw_log s \<and> list_all delivered new \<and> \<not> list_ex content_in new
    \<and> (r = Inr True \<longrightarrow> new = [] \<and> \<not> sl_exposed l)"
proof -
  obtain r1 s1 l1 where closed: "close_attempt g (child_context g cx index) x (s, l) = (r1, (s1, l1))"
    by (metis surj_pair)
  have quiet: "gw_log s1 = gw_log s" "sl_exposed l1 = sl_exposed l"
    using relatesD [OF quiet_parts(2) closed] by (simp_all add: quiet_def)
  have unc: "gw_log (snd (leave_uncertain cx s1)) = gw_log s1"
    using rel_snd [OF el_serving(5)] by (simp add: elsewhere_def)
  obtain r2 s2 where left: "leave_uncertain cx s1 = (r2, s2)" by fastforce
  obtain r3 s3 where told: "emit g (Inl (failure (sl_exposed l1))) s2 = (r3, s3)" by fastforce
  have "gw_log s2 = gw_log s" "gw_log s3 = Delivered (Inl (failure (sl_exposed l1))) # gw_log s2"
    using unc left quiet(1) emit_log [OF up, of "Inl (failure (sl_exposed l1))" s2] told by simp_all
  then have "(gw_log t = gw_log s \<and> (r = Inr True \<longrightarrow> \<not> sl_exposed l))
      \<or> r \<noteq> Inr True \<and> (\<exists>e. gw_log t = Delivered (Inl e) # gw_log s)"
    using run closed quiet left told
    by (cases r1; cases r2; cases r3)
      (auto simp: stream_failed_def bindM_run thenM_run on_gw_def split: if_splits sum.splits)
  then show ?thesis
    by (auto simp: delivered_def content_in_def)
qed

lemma loop_log:
  assumes up: "upstream_ok g"
  shows "stream_loop g cx chk a q out cs index rest s = (r, t) \<Longrightarrow>
    \<exists>new. gw_log t = new @ gw_log s \<and> no_replay new"
proof (induction rest arbitrary: index s)
  case Nil
  then show ?case by simp
next
  case (Cons c rest)
  let ?body = "bindM (stream_body g cx chk a q out index c) (\<lambda>_. ret False)"
  obtain r1 s1 l1 where body: "stream_body g cx chk a q out index c (s, new_streaming) = (r1, (s1, l1))"
    by (metis surj_pair)
  obtain new1 where new1: "gw_log s1 = new1 @ gw_log s" "no_replay new1"
      "list_ex content_in new1 \<longrightarrow> sl_exposed l1"
    using body_log [OF up body] by auto
  show ?case
  proof (cases r1)
    case (Inr v)
    then have "t = s1"
      using Cons.prems body by (auto simp: bindM_run with_locals_def catchM_def)
    then show ?thesis
      using new1 by blast
  next
    case (Inl x)
    obtain r2 s2 l2 where failed: "stream_failed g cx chk cs index c x (s1, l1) = (r2, (s2, l2))"
      by (metis surj_pair)
    obtain new2 where new2: "gw_log s2 = new2 @ gw_log s1" "list_all delivered new2"
        "\<not> list_ex content_in new2" "r2 = Inr True \<longrightarrow> new2 = [] \<and> \<not> sl_exposed l1"
      using failed_log [OF up failed] by auto
    show ?thesis
    proof (cases "r2 = Inr True")
      case True
      then have "stream_loop g cx chk a q out cs (index + 1) rest s2 = (r, t)"
        using Cons.prems body Inl failed by (auto simp: bindM_run with_locals_def catchM_def)
      from Cons.IH [OF this] obtain new3 where "gw_log t = new3 @ gw_log s2" "no_replay new3"
        by blast
      then have "gw_log t = (new3 @ new1) @ gw_log s" "no_replay (new3 @ new1)"
        using True new1 new2 no_replay_append [of new3 new1] by auto
      then show ?thesis
        by blast
    next
      case False
      then have "t = s2"
        using Cons.prems body Inl failed
        by (cases r2) (auto simp: bindM_run with_locals_def catchM_def)
      then have "gw_log t = (new2 @ new1) @ gw_log s" "no_replay (new2 @ new1)"
        using new1 new2 no_replay_append [OF no_replay_delivered [OF new2(2)] new1(2)] by auto
      then show ?thesis
        by blast
    qed
  qed
qed

definition replay_free :: "(gw, 'a) op \<Rightarrow> bool" where
  "replay_free m = (\<forall>s. \<exists>new. gw_log (snd (m s)) = new @ gw_log s \<and> no_replay new)"

lemma replay_free_bind:
  assumes "relates (elsewhere e) m" and "\<And>x. replay_free (f x)"
  shows "replay_free (bindM m f)"
  unfolding replay_free_def
proof
  fix s
  obtain r t where m: "m s = (r, t)" by fastforce
  have same: "gw_log t = gw_log s"
    by (rule log_same [OF assms(1) m])
  show "\<exists>new. gw_log (snd (bindM m f s)) = new @ gw_log s \<and> no_replay new"
  proof (cases r)
    case (Inl x)
    then show ?thesis
      using m same by (intro exI [of _ "[]"]) (simp add: bindM_run)
  next
    case (Inr x)
    then show ?thesis
      using m same assms(2) [of x] by (simp add: bindM_run replay_free_def) metis
  qed
qed

lemma stream_replay_free:
  assumes "upstream_ok g"
  shows "replay_free (stream_chat g cx chk q)"
proof -
  have "replay_free (stream_loop g cx chk a q out cs i rest)" for cx a out cs i rest
    unfolding replay_free_def using loop_log [OF assms] by (metis prod.collapse)
  then show ?thesis
    unfolding stream_chat_def thenM_def
    by (intro replay_free_bind [OF el.rel_guard] replay_free_bind [OF el_serving(2)]
        replay_free_bind [OF el_serving(4)] replay_free_bind [OF el_routing(1)] |
        (simp only: case_prod_beta))+
qed

text \<open>
  C6. A stream is never replayed: whatever the provider and the client do, once content of
  a stream has been handed to the client no further call is dispatched for that request,
  not even to a fallback.
\<close>

theorem stream_never_replays:
  assumes "upstream_ok g"
  shows "\<exists>new. gw_log (snd (stream_chat g cx chk q s)) = new @ gw_log s \<and> no_replay new"
  using stream_replay_free [OF assms] by (simp add: replay_free_def)

theorem stream_never_replays_witness:
  "no_replay (gw_log (snd (stream_chat ex_server ex_chat_context cancellation ex_question ex_keyed)))"
  using stream_never_replays [OF ex_upstream, of ex_chat_context cancellation ex_question ex_keyed]
  by (simp add: ex_keyed_def ex_gateway_def)

end
