(* ===== verification/Spec2Isabelle.thy ===== *)
theory Spec2Isabelle
  imports Workflow_Graph Json_Contracts Template Chat_Contracts Security Planning_Safety
    Budgets Runtime_Queue Record_Log Health Keys Optimization Validators Preflight
    Gateway_Safety Gateway_Service Stream_Safety Examples
begin

text \<open>
  The Buildbox open-weight router (\<open>src/router/backend/buildbox_router\<close>) plans a
  workflow, pins a model configuration to each of its stages, and runs the resulting
  policy in a sandbox through a gateway that may spend money only within approved
  budgets.  These theories model its contracts and its stores and prove the
  guarantees the rest of the program relies on.

  \<^bold>\<open>Parts and how they interact.\<close>  The contracts (\<open>contracts.py\<close>,
  \<open>execution_contracts.py\<close>, \<open>json_contracts.py\<close>) say which values exist; the stores
  (\<open>storage.py\<close>, \<open>planning_storage.py\<close>, \<open>execution_storage.py\<close>) keep them; the security
  checks (\<open>execution_security.py\<close>) decide what an operator admitted; the gateway
  (\<open>gateway/\<close>) runs policies: it registers a request, reserves its budget, asks the
  circuit of a deployment, dispatches, reconciles the usage and appends events.

  \<^bold>\<open>Theories.\<close>
  \<^item> Prelude: results, the state-passing monad of the stores, transactions with
    rollback, and the relations between the states before and after an operation.
  \<^item> Contracts, Catalog: \<open>contracts.py\<close>.  Workflow_Graph proves the depth-first
    search of \<open>Workflow.graph\<close> equivalent to acyclicity.
  \<^item> Json_Contracts: \<open>json_contracts.py\<close>, with conformance to a schema as the
    specification of \<open>validate_value\<close>.  Template: the placeholder grammar of prompts.
  \<^item> Exec_Contracts, Grant_Contracts, Chat_Contracts, Run_Contracts:
    \<open>execution_contracts.py\<close>, \<open>runtime_contracts.py\<close> and the parts of
    \<open>evidence_contracts.py\<close>, \<open>execution_ports.py\<close> and \<open>routing_contracts.py\<close> they use.
  \<^item> Security: \<open>execution_security.py\<close>.
  \<^item> Tables: SQL tables as lists of rows, with the statements the stores issue.
  \<^item> Planning_Storage: \<open>storage.py\<close> and \<open>planning_storage.py\<close>.  Planning_Safety: their
    reachable states.
  \<^item> Store_Schema, Storage: the tables of \<open>migrations/__init__.py\<close> and every method of
    \<open>execution_storage.py\<close>.  Storage_Steps: the step relation of the database.
    Budgets, Runtime_Queue and Record_Log: its invariants.
  \<^item> Health: \<open>gateway/health.py\<close> refining an abstract circuit breaker.
  \<^item> Keys: \<open>gateway/keys.py\<close>, from the bearer text to the rate window.
  \<^item> Texts, Selection: \<open>intelligence/selection\<close>: the eligibility gates against a
    declarative admissibility, the portfolio search against its optimum, the compiler.
  \<^item> Optimization: \<open>intelligence/optimization.py\<close>: the hard gates of a workload, the
    utility, and Pareto dominance as a strict partial order.
  \<^item> Validators: \<open>validators.py\<close>, \<open>stream_validation.py\<close> and the validation of a
    completion.
  \<^item> Preflight: \<open>gateway/preflight.py\<close>: what an authorised stage is, the selection cache
    against the selector without it, and the price bound against any charge.
  \<^item> Gateway, Serving, Streaming: \<open>gateway/service.py\<close>: one attempt from its reservation to
    its finished record; the loop of fallbacks and repairs and the complete request;
    the generator of a stream.  Gateway_Effects: what each part does to the world, a part
    at a time.  Gateway_Safety: what backs a dispatch, what an inference may spend, what
    a result satisfies.  Gateway_Service: idempotency keys, and the service as steps of
    the storage.  Stream_Safety: no replay.  Gateway_Examples: a gateway whose provider
    answers at once, and the code equations with which its runs are evaluated.
  \<^item> Examples: a small policy used by the witnesses.

  \<^bold>\<open>Correspondence.\<close>  A Pydantic model is a record together with a predicate that holds
  when its validators accept; a Literal is a datatype.  A method of a store is an
  operation: a function from the database to a result and a database.  An exception
  is a left value; a \<open>with engine.begin()\<close> block is \<open>transact\<close>, which restores the
  database when the body raises.  One transaction is one step: the databases the
  program supports serialise them, and a method that opens two transactions is two
  steps, between which every other step may happen.  Times are integers in
  microseconds; \<open>uuid4()\<close>, the clock and SHA-256 digests are arguments.  Floats are
  rationals, with the non-finite values kept apart where the code tests for them.

  The gateway's state is the database, the selection cache, the clock, the cancellation of
  the caller, and a log of what went over the wire: each call sent, with the database at
  that moment, and each chunk delivered.  The log is a ghost: no operation reads it.  The
  provider (\<open>RuntimeInferencePort\<close>) and the consumer of a stream are operations on that
  state given as parameters, because other requests run while they are awaited; between two
  awaits a task runs alone.  \<open>upstream_ok\<close> is the only hypothesis on them: what happens while
  they are awaited is made of storage operations, time does not go back, and nothing
  is sent in the task's name.  The mutable locals that an exception handler of the code
  reads are a second component of the state (\<open>locals\<close>, \<open>streaming\<close>).

  \<^bold>\<open>Bounds.\<close>  \<open>visit\<close> recurses on the nodes not yet finished, and needs no fuel.  The
  page limits (1000 events, 20 queue entries) are the code's.

  \<^bold>\<open>Not modelled.\<close>  The HTTP layers (\<open>api.py\<close>, \<open>execution_api.py\<close>, \<open>routing_api.py\<close>), the
  composition roots, the provider adapters and the fixtures are framework glue, input
  and output, or data.  The text of error messages is left out throughout.
\<close>

end
